(* ===== verification/Go_Prelude.thy ===== *)
theory Go_Prelude
  imports Main "HOL-Library.Char_ord" "HOL-Library.List_Lexorder" "HOL-Library.Sublist"
    "HOL-Library.Multiset"
begin

text \<open>
  Shared vocabulary of the development: the parts of Go and of its standard library that the
  gateway uses (64-bit integers with wrap-around, \<^verbatim>\<open>strings\<close>, \<^verbatim>\<open>strconv\<close>), the named
  collections of simplification rules, and generic facts on lists and multisets.

  Strings are byte strings (\<^typ>\<open>string\<close>), as in Go. \<^verbatim>\<open>strings.TrimSpace\<close> and
  \<^verbatim>\<open>strings.ToUpper\<close> are modelled on the ASCII range; bytes outside it are left alone.
\<close>

named_theorems send_simps \<open>contract of result constructors and of senders\<close>

section \<open>Integers\<close>

text \<open>Go's \<^verbatim>\<open>int\<close>, \<^verbatim>\<open>int64\<close> and \<^verbatim>\<open>time.Duration\<close>: two's complement of 64 bits.\<close>

definition wrap64 :: "int \<Rightarrow> int" where
  "wrap64 x = (x + 2 ^ 63) mod 2 ^ 64 - 2 ^ 63"

abbreviation int64 :: "int \<Rightarrow> bool" where
  "int64 x \<equiv> - (2 ^ 63) \<le> x \<and> x < 2 ^ 63"

lemma wrap64_id [simp]: "int64 x \<Longrightarrow> wrap64 x = x"
  by (simp add: wrap64_def)

lemma wrap64_range: "int64 (wrap64 x)"
  by (simp add: wrap64_def)

lemma wrap64_max: "wrap64 (2 ^ 63) = - (2 ^ 63)"
  by (simp add: wrap64_def)

section \<open>Strings\<close>

definition is_space :: "char \<Rightarrow> bool" where
  "is_space c \<longleftrightarrow> c = CHR '' '' \<or> (9 \<le> (of_char c :: nat) \<and> (of_char c :: nat) \<le> 13)"

definition TrimSpace :: "string \<Rightarrow> string" where
  "TrimSpace s = rev (dropWhile is_space (rev (dropWhile is_space s)))"

definition upper_char :: "char \<Rightarrow> char" where
  "upper_char c =
     (if 97 \<le> (of_char c :: nat) \<and> (of_char c :: nat) \<le> 122 then char_of ((of_char c :: nat) - 32)
      else c)"

definition ToUpper :: "string \<Rightarrow> string" where
  "ToUpper s = map upper_char s"

definition HasPrefix :: "string \<Rightarrow> string \<Rightarrow> bool" where
  "HasPrefix s p \<longleftrightarrow> take (length p) s = p"

definition TrimPrefix :: "string \<Rightarrow> string \<Rightarrow> string" where
  "TrimPrefix s p = (if HasPrefix s p then drop (length p) s else s)"

text \<open>\<^verbatim>\<open>strings.Trim\<close> with a cutset.\<close>

definition Trim :: "string \<Rightarrow> char list \<Rightarrow> string" where
  "Trim s cs = rev (dropWhile (\<lambda>c. c \<in> set cs) (rev (dropWhile (\<lambda>c. c \<in> set cs) s)))"

fun Contains :: "string \<Rightarrow> string \<Rightarrow> bool" where
  "Contains [] p = (p = [])"
| "Contains (c # cs) p = (HasPrefix (c # cs) p \<or> Contains cs p)"

lemma HasPrefix_append [simp]: "HasPrefix (p @ s) p"
  by (simp add: HasPrefix_def)

lemma HasPrefix_iff: "HasPrefix s p \<longleftrightarrow> (\<exists>t. s = p @ t)"
  by (metis HasPrefix_def HasPrefix_append append_take_drop_id)

lemma Contains_iff: "Contains s p \<longleftrightarrow> (\<exists>a b. s = a @ p @ b)"
proof (induction s)
  case (Cons c cs)
  show ?case
  proof
    assume "Contains (c # cs) p"
    then consider "HasPrefix (c # cs) p" | "Contains cs p" by auto
    then show "\<exists>a b. c # cs = a @ p @ b"
    proof cases
      case 1
      then show ?thesis by (metis HasPrefix_iff append_Nil)
    next
      case 2
      with Cons.IH show ?thesis by (metis append_Cons)
    qed
  next
    assume "\<exists>a b. c # cs = a @ p @ b"
    then obtain a b where ab: "c # cs = a @ p @ b" by blast
    show "Contains (c # cs) p"
    proof (cases a)
      case Nil
      with ab show ?thesis by (metis Contains.simps(2) HasPrefix_append append_Nil)
    next
      case (Cons d ds)
      with ab Cons.IH show ?thesis by auto
    qed
  qed
qed auto

lemma dropWhile_idem_aux: "xs = [] \<or> \<not> P (hd xs) \<Longrightarrow> dropWhile P xs = xs"
  by (cases xs) auto

lemma hd_TrimSpace: "TrimSpace s \<noteq> [] \<Longrightarrow> \<not> is_space (hd (TrimSpace s))"
proof -
  assume ne: "TrimSpace s \<noteq> []"
  let ?t = "dropWhile is_space s"
  have t: "?t \<noteq> []" using ne unfolding TrimSpace_def by (metis dropWhile.simps(1) rev.simps(1))
  have "\<not> is_space (hd ?t)" using t by (rule hd_dropWhile)
  moreover have "hd (TrimSpace s) = hd ?t"
  proof -
    have "\<exists>z. ?t = TrimSpace s @ z"
      unfolding TrimSpace_def
      by (metis rev_append rev_rev_ident takeWhile_dropWhile_id)
    then obtain z where "?t = TrimSpace s @ z" by blast
    with ne show ?thesis by (metis hd_append2)
  qed
  ultimately show ?thesis by simp
qed

lemma last_TrimSpace: "TrimSpace s \<noteq> [] \<Longrightarrow> \<not> is_space (last (TrimSpace s))"
  unfolding TrimSpace_def by (metis hd_dropWhile hd_rev last_rev rev_is_Nil_conv)

lemma TrimSpace_fixed:
  "\<lbrakk> s = [] \<or> \<not> is_space (hd s); s = [] \<or> \<not> is_space (last s) \<rbrakk> \<Longrightarrow> TrimSpace s = s"
  by (metis TrimSpace_def dropWhile_idem_aux hd_rev rev_is_Nil_conv rev_rev_ident)

lemma TrimSpace_idem [simp]: "TrimSpace (TrimSpace s) = TrimSpace s"
  by (rule TrimSpace_fixed) (use hd_TrimSpace last_TrimSpace in blast)+

section \<open>Decimal numbers: \<^verbatim>\<open>strconv.Itoa\<close>, \<^verbatim>\<open>strconv.ParseInt(s, 10, 64)\<close>, \<^verbatim>\<open>strconv.Atoi\<close>\<close>

definition digit_char :: "nat \<Rightarrow> char" where
  "digit_char d = char_of (48 + d)"

definition digit_val :: "char \<Rightarrow> nat option" where
  "digit_val c =
     (let n = (of_char c :: nat) in if 48 \<le> n \<and> n \<le> 57 then Some (n - 48) else None)"

fun show_nat :: "nat \<Rightarrow> string" where
  "show_nat n =
     (if n < 10 then [digit_char n] else show_nat (n div 10) @ [digit_char (n mod 10)])"

declare show_nat.simps [simp del]

definition Itoa :: "int \<Rightarrow> string" where
  "Itoa i = (if i < 0 then CHR ''-'' # show_nat (nat (- i)) else show_nat (nat i))"

fun parse_digits :: "nat \<Rightarrow> string \<Rightarrow> nat option" where
  "parse_digits acc [] = Some acc"
| "parse_digits acc (c # cs) =
     (case digit_val c of None \<Rightarrow> None | Some d \<Rightarrow> parse_digits (10 * acc + d) cs)"

definition ParseInt :: "string \<Rightarrow> int option" where
  "ParseInt s =
     (let neg = (s \<noteq> [] \<and> hd s = CHR ''-'');
          ds = (if s \<noteq> [] \<and> (hd s = CHR ''-'' \<or> hd s = CHR ''+'') then tl s else s)
      in if ds = [] then None
         else case parse_digits 0 ds of
                None \<Rightarrow> None
              | Some n \<Rightarrow>
                  if neg then (if int n \<le> 2 ^ 63 then Some (- int n) else None)
                  else (if int n < 2 ^ 63 then Some (int n) else None))"

lemma digit_val_digit_char [simp]: "d < 10 \<Longrightarrow> digit_val (digit_char d) = Some d"
  by (simp add: digit_val_def digit_char_def)

lemma digit_char_not_sign [simp]:
  "d < 10 \<Longrightarrow> digit_char d \<noteq> CHR ''-''" "d < 10 \<Longrightarrow> digit_char d \<noteq> CHR ''+''"
  using digit_val_digit_char [of d] by (auto simp: digit_val_def)

lemma parse_digits_append:
  "parse_digits acc (xs @ ys) =
     (case parse_digits acc xs of None \<Rightarrow> None | Some a \<Rightarrow> parse_digits a ys)"
  by (induction xs arbitrary: acc) (auto split: option.splits)

lemma parse_show_nat: "parse_digits 0 (show_nat n) = Some n"
proof (induction n rule: show_nat.induct)
  case (1 n)
  then show ?case by (cases "n < 10") (simp_all add: show_nat.simps [of n] parse_digits_append)
qed

lemma show_nat_hd: "\<exists>d ds. d < 10 \<and> show_nat n = digit_char d # ds"
proof (induction n rule: show_nat.induct)
  case (1 n)
  show ?case
  proof (cases "n < 10")
    case True
    then show ?thesis by (auto simp: show_nat.simps [of n])
  next
    case False
    with 1 obtain d ds where "d < 10" "show_nat (n div 10) = digit_char d # ds" by blast
    with False show ?thesis by (auto simp: show_nat.simps [of n])
  qed
qed

lemma ParseInt_Itoa: "int64 x \<Longrightarrow> ParseInt (Itoa x) = Some x"
proof -
  assume r: "int64 x"
  obtain d ds where d: "d < 10" "show_nat (nat \<bar>x\<bar>) = digit_char d # ds"
    using show_nat_hd by blast
  have p: "parse_digits 0 (digit_char d # ds) = Some (nat \<bar>x\<bar>)"
    using parse_show_nat [of "nat \<bar>x\<bar>"] d by simp
  show ?thesis
  proof (cases "x < 0")
    case True
    with r d p show ?thesis by (simp add: ParseInt_def Itoa_def Let_def)
  next
    case False
    with r d p show ?thesis by (simp add: ParseInt_def Itoa_def Let_def)
  qed
qed

lemma ParseInt_range: "ParseInt s = Some v \<Longrightarrow> int64 v"
  by (auto simp: ParseInt_def Let_def split: if_splits option.splits)

section \<open>Lists and multisets\<close>

lemma mset_filter_partition:
  "mset (filter P xs) + mset (filter (\<lambda>x. \<not> P x) xs) = mset xs"
  by (induction xs) auto

lemma image_mset_eq_map: "mset (map f xs) = image_mset f (mset xs)"
  by simp

section \<open>Interface: keyed settings\<close>

text \<open>
  Several components keep one value per key behind a setter and a getter (circuit breakers and
  rates per network, live configuration per field, weights per queue). \<open>ok s k\<close> says that the
  store \<open>s\<close> accepts writes to \<open>k\<close>.
\<close>

locale settings =
  fixes setv :: "'k \<Rightarrow> 'v \<Rightarrow> 's \<Rightarrow> 's" and getv :: "'s \<Rightarrow> 'k \<Rightarrow> 'v" and ok :: "'s \<Rightarrow> 'k \<Rightarrow> bool"
  assumes get_set_same: "ok s k \<Longrightarrow> getv (setv k v s) k = v"
    and get_set_other: "ok s j \<Longrightarrow> k \<noteq> j \<Longrightarrow> getv (setv k v s) j = getv s j"
    and ok_set: "ok s j \<Longrightarrow> ok (setv k v s) j"
begin

lemma ok_writes: "ok s k \<Longrightarrow> ok (fold (\<lambda>(k, v). setv k v) kvs s) k"
  by (induction kvs arbitrary: s) (auto intro: ok_set)

lemma get_write: "ok s j \<Longrightarrow> getv (setv k v s) j = (if k = j then v else getv s j)"
  by (auto simp: get_set_same get_set_other)

lemma get_writes:
  "ok s k \<Longrightarrow> getv (fold (\<lambda>(k, v). setv k v) kvs s) k =
     (case map_of (rev kvs) k of None \<Rightarrow> getv s k | Some v \<Rightarrow> v)"
proof (induction kvs arbitrary: s)
  case (Cons p kvs)
  obtain j v where p: "p = (j, v)" by fastforce
  have "ok (setv j v s) k" using Cons.prems by (rule ok_set)
  then have "getv (fold (\<lambda>(k, v). setv k v) kvs (setv j v s)) k =
      (case map_of (rev kvs) k of None \<Rightarrow> getv (setv j v s) k | Some v \<Rightarrow> v)"
    by (rule Cons.IH)
  with Cons.prems show ?case
    by (auto simp: p get_write map_add_def split: option.splits)
qed simp

end

end
