(* ===== verification/Sms_Domain.thy ===== *)
theory Sms_Domain
  imports Go_Prelude "HOL-Library.Word"
begin

text \<open>
  The domain model of the gateway (\<^verbatim>\<open>internal/sms/domain\<close>): networks, error values and their
  classification, messages, send results and batch results.

  A \<^verbatim>\<open>*Message\<close> is a value here. The result constructors of \<^verbatim>\<open>result.go\<close> mutate the message
  through its pointer and store the same pointer in the result; the model returns the result with
  the updated message inside. Every delivery decodes into freshly allocated messages, so no two
  results share one. Times are nanoseconds (\<^typ>\<open>int\<close>, 0 for the zero \<^verbatim>\<open>time.Time\<close>);
  a \<^verbatim>\<open>float64\<close> that is only copied is its 64-bit pattern.
\<close>

section \<open>Networks (network.go)\<close>

datatype network =
  NetworkSafaricom | NetworkAirtel | NetworkTelkom | NetworkEquitel | NetworkCM
| NetworkINTNL | NetworkUnknown

definition ParseNetwork :: "string \<Rightarrow> network" where
  "ParseNetwork s =
     (let u = ToUpper (TrimSpace s) in
      if u = ''SAFARICOM'' then NetworkSafaricom
      else if u = ''AIRTEL'' then NetworkAirtel
      else if u = ''TELKOM'' then NetworkTelkom
      else if u = ''EQUITEL'' then NetworkEquitel
      else if u = ''CM'' then NetworkCM
      else if u = ''INTNL'' then NetworkINTNL
      else NetworkUnknown)"

fun network_String :: "network \<Rightarrow> string" where
  "network_String NetworkSafaricom = ''SAFARICOM''"
| "network_String NetworkAirtel = ''AIRTEL''"
| "network_String NetworkTelkom = ''TELKOM''"
| "network_String NetworkEquitel = ''EQUITEL''"
| "network_String NetworkCM = ''CM''"
| "network_String NetworkINTNL = ''INTNL''"
| "network_String NetworkUnknown = ''UNKNOWN''"

definition network_IsValid :: "network \<Rightarrow> bool" where
  "network_IsValid n \<longleftrightarrow> n \<noteq> NetworkUnknown"

definition IsSafaricom :: "network \<Rightarrow> bool" where
  "IsSafaricom n \<longleftrightarrow> n = NetworkSafaricom"

definition IsInternational :: "network \<Rightarrow> bool" where
  "IsInternational n \<longleftrightarrow> n = NetworkCM \<or> n = NetworkINTNL"

section \<open>Errors (errors.go)\<close>

text \<open>
  Go error values: the sentinels of the package, errors of libraries (\<open>ErrExternal\<close>, with their
  text), context errors, \<^verbatim>\<open>*MNOError\<close>, and errors made by \<^verbatim>\<open>fmt.Errorf\<close> with \<^verbatim>\<open>%w\<close>
  (\<open>Wrapf\<close>, with the full text).
\<close>

datatype goerr =
  ErrMissingCorrelator | ErrMissingContent | ErrMissingMSISDN | ErrMissingSender
| ErrUnknownNetwork | ErrInvalidMSISDN
| ErrMNOUnavailable | ErrMNORejected | ErrMNOTimeout | ErrMNOInvalidResponse
| ErrInsufficientBalance | ErrRateLimited | ErrCircuitOpen
| ErrTokenExpired | ErrTokenFetchFail
| ErrQueueUnavailable | ErrPublishFailed | ErrConsumeFailed
| ErrMaxRetriesExceeded
| ErrContext string
| ErrExternal string
| MNOError network int string "goerr option"
| Wrapf string goerr

fun error_text :: "goerr \<Rightarrow> string" where
  "error_text ErrMissingCorrelator = ''missing correlator''"
| "error_text ErrMissingContent = ''missing message content''"
| "error_text ErrMissingMSISDN = ''missing MSISDN''"
| "error_text ErrMissingSender = ''missing sender''"
| "error_text ErrUnknownNetwork = ''unknown network''"
| "error_text ErrInvalidMSISDN = ''invalid MSISDN format''"
| "error_text ErrMNOUnavailable = ''MNO service unavailable''"
| "error_text ErrMNORejected = ''message rejected by MNO''"
| "error_text ErrMNOTimeout = ''MNO request timed out''"
| "error_text ErrMNOInvalidResponse = ''invalid response from MNO''"
| "error_text ErrInsufficientBalance = ''AfricasTalking account has insufficient balance''"
| "error_text ErrRateLimited = ''rate limit exceeded''"
| "error_text ErrCircuitOpen = ''circuit breaker is open''"
| "error_text ErrTokenExpired = ''authentication token expired''"
| "error_text ErrTokenFetchFail = ''failed to fetch authentication token''"
| "error_text ErrQueueUnavailable = ''queue service unavailable''"
| "error_text ErrPublishFailed = ''failed to publish message''"
| "error_text ErrConsumeFailed = ''failed to consume message''"
| "error_text ErrMaxRetriesExceeded = ''maximum retry count exceeded''"
| "error_text (ErrContext t) = t"
| "error_text (ErrExternal t) = t"
| "error_text (MNOError n c m None) =
     network_String n @ '' error (status '' @ Itoa c @ ''): '' @ m"
| "error_text (MNOError n c m (Some e)) =
     network_String n @ '' error (status '' @ Itoa c @ ''): '' @ m @ '' - '' @ error_text e"
| "error_text (Wrapf t e) = t"

text \<open>\<^verbatim>\<open>errors.Is\<close> and \<^verbatim>\<open>errors.As(err, &mnoErr)\<close>: walk the chain of \<^verbatim>\<open>Unwrap\<close>.\<close>

fun errors_Is :: "goerr \<Rightarrow> goerr \<Rightarrow> bool" where
  "errors_Is (MNOError n c m (Some e)) t = (MNOError n c m (Some e) = t \<or> errors_Is e t)"
| "errors_Is (Wrapf x e) t = (Wrapf x e = t \<or> errors_Is e t)"
| "errors_Is e t = (e = t)"

fun errors_As_MNO :: "goerr \<Rightarrow> (int \<times> goerr option) option" where
  "errors_As_MNO (MNOError n c m e) = Some (c, e)"
| "errors_As_MNO (Wrapf x e) = errors_As_MNO e"
| "errors_As_MNO e = None"

definition MNOError_IsRetryable :: "int \<Rightarrow> goerr option \<Rightarrow> bool" where
  "MNOError_IsRetryable code err \<longleftrightarrow>
     (500 \<le> code \<and> code < 600) \<or>
     code = 429 \<or> code = 408 \<or> code = 503 \<or>
     (case err of None \<Rightarrow> False
      | Some e \<Rightarrow> errors_Is e ErrMNOTimeout \<or> errors_Is e ErrMNOUnavailable \<or>
                  errors_Is e ErrRateLimited)"

definition IsRetryableError :: "goerr option \<Rightarrow> bool" where
  "IsRetryableError err \<longleftrightarrow>
     (case err of None \<Rightarrow> False
      | Some e \<Rightarrow>
          (case errors_As_MNO e of
             Some (code, inner) \<Rightarrow> MNOError_IsRetryable code inner
           | None \<Rightarrow>
               errors_Is e ErrMNOTimeout \<or> errors_Is e ErrMNOUnavailable \<or>
               errors_Is e ErrRateLimited \<or> errors_Is e ErrQueueUnavailable \<or>
               errors_Is e ErrTokenFetchFail))"

definition IsPermanentError :: "goerr option \<Rightarrow> bool" where
  "IsPermanentError err \<longleftrightarrow>
     (case err of None \<Rightarrow> False
      | Some e \<Rightarrow>
          (case errors_As_MNO e of
             Some (code, inner) \<Rightarrow> \<not> MNOError_IsRetryable code inner
           | None \<Rightarrow>
               errors_Is e ErrMissingCorrelator \<or> errors_Is e ErrMissingContent \<or>
               errors_Is e ErrMissingMSISDN \<or> errors_Is e ErrMissingSender \<or>
               errors_Is e ErrUnknownNetwork \<or> errors_Is e ErrInvalidMSISDN \<or>
               errors_Is e ErrMNORejected \<or> errors_Is e ErrMaxRetriesExceeded))"

section \<open>Messages (message.go)\<close>

record message =
  Correlator :: string
  Content :: string
  MSISDN :: string
  NetworkRaw :: string
  Sender :: string
  PackageID :: string
  Status :: string
  Description :: string
  CreatedAt :: string
  RetryCount :: int
  LastError :: string
  ProcessedAt :: int
  SourceQueue :: string
  OutboxID :: int
  Prefix :: string
  Country :: string
  MNO :: string
  UnitCost :: "64 word"
  RateSource :: string

abbreviation StatusSent :: string where "StatusSent \<equiv> ''SENT''"
abbreviation StatusFailed :: string where "StatusFailed \<equiv> ''FAILED TO SEND''"

text \<open>\<^verbatim>\<open>FlexibleInt64.UnmarshalJSON\<close> on the raw bytes of the JSON value; \<open>None\<close> is an error.\<close>

definition FlexibleInt64_UnmarshalJSON :: "string \<Rightarrow> int option" where
  "FlexibleInt64_UnmarshalJSON raw =
     (let s = Trim raw [CHR 0x22] in
      if s = [] \<or> s = ''null'' then Some 0 else ParseInt s)"

definition msg_Network :: "message \<Rightarrow> network" where
  "msg_Network m = ParseNetwork (NetworkRaw m)"

definition IsTransactional :: "message \<Rightarrow> bool" where
  "IsTransactional m \<longleftrightarrow> ToUpper (TrimSpace (PackageID m)) = ''TRANSACTIONAL''"

definition IsPromotional :: "message \<Rightarrow> string \<Rightarrow> bool" where
  "IsPromotional m gatewayQueueName \<longleftrightarrow>
     (if SourceQueue m \<noteq> [] \<and> gatewayQueueName \<noteq> [] then SourceQueue m = gatewayQueueName
      else ToUpper (TrimSpace (PackageID m)) \<noteq> ''TRANSACTIONAL'')"

definition NormalizeMSISDN :: "message \<Rightarrow> string" where
  "NormalizeMSISDN m =
     (let msisdn = TrimSpace (MSISDN m) in
      if HasPrefix msisdn ''254'' then msisdn
      else if HasPrefix msisdn ''0'' then ''254'' @ TrimPrefix msisdn ''0''
      else if HasPrefix msisdn ''+254'' then TrimPrefix msisdn ''+''
      else msisdn)"

definition Validate :: "message \<Rightarrow> goerr option" where
  "Validate m =
     (if Correlator m = [] then Some ErrMissingCorrelator
      else if Content m = [] then Some ErrMissingContent
      else if MSISDN m = [] then Some ErrMissingMSISDN
      else if \<not> network_IsValid (msg_Network m) then Some ErrUnknownNetwork
      else if Sender m = [] then Some ErrMissingSender
      else None)"

definition SetStatus :: "int \<Rightarrow> string \<Rightarrow> message \<Rightarrow> message" where
  "SetStatus now status m =
     m\<lparr>Status := status, Description := ''success'', ProcessedAt := now\<rparr>"

definition SetError :: "goerr \<Rightarrow> message \<Rightarrow> message" where
  "SetError err m =
     m\<lparr>LastError := error_text err, Description := error_text err, Status := StatusFailed\<rparr>"

definition IncrementRetryCount :: "message \<Rightarrow> message" where
  "IncrementRetryCount m = m\<lparr>RetryCount := wrap64 (RetryCount m + 1)\<rparr>"

definition CanRetry :: "int \<Rightarrow> message \<Rightarrow> bool" where
  "CanRetry maxRetries m \<longleftrightarrow> RetryCount m < maxRetries"

text \<open>\<^verbatim>\<open>Clone\<close> lists the fields one by one, as the source does.\<close>

definition Clone :: "message \<Rightarrow> message" where
  "Clone m =
     \<lparr>Correlator = Correlator m, Content = Content m, MSISDN = MSISDN m,
      NetworkRaw = NetworkRaw m, Sender = Sender m, PackageID = PackageID m,
      Status = Status m, Description = Description m, CreatedAt = CreatedAt m,
      RetryCount = RetryCount m, LastError = LastError m, ProcessedAt = ProcessedAt m,
      SourceQueue = SourceQueue m, OutboxID = OutboxID m, Prefix = Prefix m,
      Country = Country m, MNO = MNO m, UnitCost = UnitCost m, RateSource = RateSource m\<rparr>"

section \<open>Results (result.go)\<close>

datatype result_type = ResultSuccess | ResultRetryable | ResultPermanent

definition ClassifyError :: "goerr option \<Rightarrow> result_type" where
  "ClassifyError err =
     (if err = None then ResultSuccess
      else if IsRetryableError err then ResultRetryable
      else ResultPermanent)"

record send_result =
  rMessage :: message
  rType :: result_type
  rError :: "goerr option"
  rMNOResponse :: string
  rLatency :: int
  rTimestamp :: int
  rExternalMessageID :: string
  rNetworkCode :: string

definition NewSuccessResult :: "int \<Rightarrow> message \<Rightarrow> string \<Rightarrow> int \<Rightarrow> send_result" where
  "NewSuccessResult now msg mnoResponse latency =
     \<lparr>rMessage = SetStatus now StatusSent msg, rType = ResultSuccess, rError = None,
      rMNOResponse = mnoResponse, rLatency = latency, rTimestamp = now,
      rExternalMessageID = [], rNetworkCode = []\<rparr>"

definition NewRetryableResult :: "int \<Rightarrow> message \<Rightarrow> goerr \<Rightarrow> int \<Rightarrow> send_result" where
  "NewRetryableResult now msg err latency =
     \<lparr>rMessage = IncrementRetryCount (SetError err msg), rType = ResultRetryable,
      rError = Some err, rMNOResponse = [], rLatency = latency, rTimestamp = now,
      rExternalMessageID = [], rNetworkCode = []\<rparr>"

definition NewPermanentResult :: "int \<Rightarrow> message \<Rightarrow> goerr \<Rightarrow> int \<Rightarrow> send_result" where
  "NewPermanentResult now msg err latency =
     \<lparr>rMessage = SetError err msg, rType = ResultPermanent,
      rError = Some err, rMNOResponse = [], rLatency = latency, rTimestamp = now,
      rExternalMessageID = [], rNetworkCode = []\<rparr>"

definition IsSuccess :: "send_result \<Rightarrow> bool" where
  "IsSuccess r \<longleftrightarrow> rType r = ResultSuccess"

definition IsRetryable :: "send_result \<Rightarrow> bool" where
  "IsRetryable r \<longleftrightarrow> rType r = ResultRetryable"

definition IsPermanent :: "send_result \<Rightarrow> bool" where
  "IsPermanent r \<longleftrightarrow> rType r = ResultPermanent"

record batch_result =
  Successful :: "send_result list"
  Retryable :: "send_result list"
  Failed :: "send_result list"
  TotalCount :: int

definition NewBatchResult :: batch_result where
  "NewBatchResult = \<lparr>Successful = [], Retryable = [], Failed = [], TotalCount = 0\<rparr>"

definition AddResult :: "batch_result \<Rightarrow> send_result \<Rightarrow> batch_result" where
  "AddResult b r =
     (let b = b\<lparr>TotalCount := TotalCount b + 1\<rparr> in
      case rType r of
        ResultSuccess \<Rightarrow> b\<lparr>Successful := Successful b @ [r]\<rparr>
      | ResultRetryable \<Rightarrow> b\<lparr>Retryable := Retryable b @ [r]\<rparr>
      | ResultPermanent \<Rightarrow> b\<lparr>Failed := Failed b @ [r]\<rparr>)"

text \<open>The loops of the service layer that add a list of results, one by one.\<close>

definition AddResults :: "batch_result \<Rightarrow> send_result list \<Rightarrow> batch_result" where
  "AddResults b rs = foldl AddResult b rs"

section \<open>Facts on networks and errors\<close>

lemma ParseNetwork_String [simp]: "ParseNetwork (network_String n) = n"
  by (cases n) (simp_all add: ParseNetwork_def TrimSpace_def is_space_def ToUpper_def upper_char_def)

fun err_base :: "goerr \<Rightarrow> goerr" where
  "err_base (Wrapf t e) = err_base e"
| "err_base e = e"

lemma errors_As_MNO_base: "errors_As_MNO e = errors_As_MNO (err_base e)"
  by (induction e) auto

lemma errors_Is_base:
  "\<lbrakk> errors_As_MNO e = None; \<And>t e'. s \<noteq> Wrapf t e' \<rbrakk> \<Longrightarrow> errors_Is e s \<longleftrightarrow> err_base e = s"
  by (induction e) auto

text \<open>Wrapping an error with \<^verbatim>\<open>fmt.Errorf("...: %w", err)\<close> never changes how the gateway
  classifies it, no error is both retryable and permanent, and what \<^verbatim>\<open>IsPermanentError\<close> calls
  permanent is never classified as retryable by \<^verbatim>\<open>ClassifyError\<close>.\<close>

theorem ClassifyError_wrap_invariant:
  "ClassifyError (Some (Wrapf t e)) = ClassifyError (Some e) \<and>
   IsPermanentError (Some (Wrapf t e)) = IsPermanentError (Some e) \<and>
   \<not> (IsRetryableError (Some e) \<and> IsPermanentError (Some e)) \<and>
   (ClassifyError (Some e) = ResultRetryable) = IsRetryableError (Some e)"
proof (cases "errors_As_MNO e")
  case None
  then show ?thesis
    by (auto simp: ClassifyError_def IsRetryableError_def IsPermanentError_def errors_Is_base)
next
  case (Some p)
  then show ?thesis
    by (cases p) (simp add: ClassifyError_def IsRetryableError_def IsPermanentError_def)
qed

section \<open>Facts on messages\<close>

lemma Clone_id [simp]: "Clone m = m"
  by (simp add: Clone_def)

definition is_local_or_kenyan :: "string \<Rightarrow> bool" where
  "is_local_or_kenyan s \<longleftrightarrow>
     HasPrefix (TrimSpace s) ''254'' \<or> HasPrefix (TrimSpace s) ''0'' \<or> HasPrefix (TrimSpace s) ''+254''"

lemma HasPrefix_Cons: "HasPrefix (c # s) (d # p) \<longleftrightarrow> c = d \<and> HasPrefix s p"
  by (auto simp: HasPrefix_def)

lemma HasPrefix_Nil [simp]: "HasPrefix s []" "\<not> HasPrefix [] (c # p)"
  by (auto simp: HasPrefix_def)

lemma TrimSpace_last_suffix:
  "TrimSpace s = a @ b \<Longrightarrow> b \<noteq> [] \<Longrightarrow> \<not> is_space (last b)"
  using last_TrimSpace [of s] by auto

lemma TrimSpace_kenyan:
  "TrimSpace s = a @ b \<Longrightarrow> TrimSpace (''254'' @ b) = ''254'' @ b"
proof (rule TrimSpace_fixed)
  show "''254'' @ b = [] \<or> \<not> is_space (hd (''254'' @ b))"
    by (simp add: is_space_def)
  assume "TrimSpace s = a @ b"
  then show "''254'' @ b = [] \<or> \<not> is_space (last (''254'' @ b))"
    using TrimSpace_last_suffix [of s a b] by (cases "b = []") (simp_all add: is_space_def)
qed

lemma NormalizeMSISDN_cases:
  "(\<exists>a b. TrimSpace (MSISDN m) = a @ b \<and> NormalizeMSISDN m = ''254'' @ b) \<or>
   (\<not> is_local_or_kenyan (MSISDN m) \<and> NormalizeMSISDN m = TrimSpace (MSISDN m))"
proof -
  let ?t = "TrimSpace (MSISDN m)"
  consider (ke) "HasPrefix ?t ''254''" | (loc) "\<not> HasPrefix ?t ''254''" "HasPrefix ?t ''0''"
    | (plus) "\<not> HasPrefix ?t ''254''" "\<not> HasPrefix ?t ''0''" "HasPrefix ?t ''+254''"
    | (other) "\<not> is_local_or_kenyan (MSISDN m)"
    by (auto simp: is_local_or_kenyan_def)
  then show ?thesis
  proof cases
    case ke
    then obtain b where "?t = ''254'' @ b" by (auto simp: HasPrefix_iff)
    with ke have "?t = ''254'' @ b \<and> NormalizeMSISDN m = ''254'' @ b"
      by (simp add: NormalizeMSISDN_def)
    then show ?thesis by blast
  next
    case loc
    then obtain b where b: "?t = ''0'' @ b" by (auto simp: HasPrefix_iff)
    with loc have "NormalizeMSISDN m = ''254'' @ b"
      by (simp add: NormalizeMSISDN_def TrimPrefix_def)
    with b show ?thesis by blast
  next
    case plus
    then obtain b where b: "?t = ''+254'' @ b" by (auto simp: HasPrefix_iff)
    with plus have "NormalizeMSISDN m = ''254'' @ b"
      by (simp add: NormalizeMSISDN_def TrimPrefix_def HasPrefix_Cons)
    with b show ?thesis by blast
  next
    case other
    then show ?thesis by (auto simp: NormalizeMSISDN_def is_local_or_kenyan_def Let_def)
  qed
qed

lemma NormalizeMSISDN_fixed:
  "\<lbrakk> TrimSpace (MSISDN m) = MSISDN m; HasPrefix (MSISDN m) ''254'' \<rbrakk> \<Longrightarrow> NormalizeMSISDN m = MSISDN m"
  by (simp add: NormalizeMSISDN_def)

text \<open>Normalising a phone number is idempotent (a message that is normalised again on a retry
  keeps its number); every number in local, \<^verbatim>\<open>254\<close> or \<^verbatim>\<open>+254\<close> form becomes a \<^verbatim>\<open>254\<close>
  number, and any other number is only trimmed.\<close>

theorem NormalizeMSISDN_idempotent:
  "NormalizeMSISDN (m\<lparr>MSISDN := NormalizeMSISDN m\<rparr>) = NormalizeMSISDN m \<and>
   (if is_local_or_kenyan (MSISDN m) then HasPrefix (NormalizeMSISDN m) ''254''
    else NormalizeMSISDN m = TrimSpace (MSISDN m))"
  using NormalizeMSISDN_cases [of m]
proof (elim disjE exE conjE)
  fix a b assume t: "TrimSpace (MSISDN m) = a @ b" and n: "NormalizeMSISDN m = ''254'' @ b"
  have "TrimSpace (''254'' @ b) = ''254'' @ b" using t by (rule TrimSpace_kenyan)
  then have "NormalizeMSISDN (m\<lparr>MSISDN := NormalizeMSISDN m\<rparr>) = NormalizeMSISDN m"
    using NormalizeMSISDN_fixed [of "m\<lparr>MSISDN := NormalizeMSISDN m\<rparr>"] by (simp add: n HasPrefix_Cons)
  moreover have "HasPrefix (NormalizeMSISDN m) ''254''" by (simp add: n HasPrefix_Cons)
  moreover have "is_local_or_kenyan (MSISDN m)"
  proof (rule ccontr)
    assume no: "\<not> is_local_or_kenyan (MSISDN m)"
    then have "NormalizeMSISDN m = TrimSpace (MSISDN m)"
      by (simp add: NormalizeMSISDN_def is_local_or_kenyan_def Let_def)
    with n no show False by (simp add: is_local_or_kenyan_def HasPrefix_Cons)
  qed
  ultimately show ?thesis by simp
next
  assume "\<not> is_local_or_kenyan (MSISDN m)" "NormalizeMSISDN m = TrimSpace (MSISDN m)"
  then show ?thesis by (simp add: NormalizeMSISDN_def is_local_or_kenyan_def Let_def)
qed

lemma Trim_quote_Itoa:
  "Trim (Itoa v) [CHR 0x22] = Itoa v" "Trim (CHR 0x22 # Itoa v @ [CHR 0x22]) [CHR 0x22] = Itoa v"
proof -
  let ?q = "CHR 0x22"
  have dig: "digit_char d \<noteq> ?q" if "d < 10" for d
    using digit_val_digit_char [OF that] by (auto simp: digit_val_def)
  have nat: "c \<noteq> ?q" if "c \<in> set (show_nat n)" for c n
    using that
  proof (induction n rule: show_nat.induct)
    case (1 n)
    then show ?case by (cases "n < 10") (auto simp: show_nat.simps [of n] dig dig [symmetric])
  qed
  have no: "c \<noteq> ?q" if "c \<in> set (Itoa v)" for c
    using that nat by (auto simp: Itoa_def split: if_splits)
  have ne: "Itoa v \<noteq> []" using show_nat_hd by (metis Itoa_def list.distinct(1))
  have a: "dropWhile (\<lambda>c. c \<in> set [?q]) (Itoa v) = Itoa v"
    using no ne by (intro dropWhile_idem_aux) simp
  have b: "dropWhile (\<lambda>c. c \<in> set [?q]) (rev (Itoa v)) = rev (Itoa v)"
    using no ne by (intro dropWhile_idem_aux) (simp add: hd_rev)
  show "Trim (Itoa v) [?q] = Itoa v" using a b by (simp add: Trim_def)
  show "Trim (?q # Itoa v @ [?q]) [?q] = Itoa v"
    using a b ne no by (cases "Itoa v") (simp_all add: Trim_def)
qed

text \<open>\<^verbatim>\<open>outboxId\<close> decodes to the same 64-bit integer whether the publisher sends it as a JSON
  number or as a quoted string, and every accepted value is in range.\<close>

theorem FlexibleInt64_roundtrip:
  assumes "int64 v"
  shows "FlexibleInt64_UnmarshalJSON (Itoa v) = Some v \<and>
         FlexibleInt64_UnmarshalJSON (CHR 0x22 # Itoa v @ [CHR 0x22]) = Some v \<and>
         (\<forall>raw w. FlexibleInt64_UnmarshalJSON raw = Some w \<longrightarrow> int64 w)"
proof -
  have ne: "Itoa v \<noteq> []" using show_nat_hd by (metis Itoa_def list.distinct(1))
  have nn: "Itoa v \<noteq> ''null''"
  proof
    assume "Itoa v = ''null''"
    then have "ParseInt ''null'' = Some v" using ParseInt_Itoa [OF assms] by simp
    moreover have "ParseInt ''null'' = None" by code_simp
    ultimately show False by simp
  qed
  show ?thesis
    using ne nn ParseInt_Itoa [OF assms] ParseInt_range
    by (auto simp: FlexibleInt64_UnmarshalJSON_def Trim_quote_Itoa Let_def split: if_splits)
qed

theorem FlexibleInt64_roundtrip_witness:
  "FlexibleInt64_UnmarshalJSON ''-42'' = Some (- 42)"
proof -
  have "Itoa (- 42) = ''-42''" by code_simp
  then show ?thesis using FlexibleInt64_roundtrip [of "- 42"] by simp
qed

section \<open>Send results\<close>

text \<open>
  What a send may change of a message: status, description, last error, processing time and retry
  counter. \<open>core\<close> blanks exactly these; everything else identifies the message.
\<close>

definition core :: "message \<Rightarrow> message" where
  "core m = m\<lparr>Status := [], Description := [], RetryCount := 0, LastError := [], ProcessedAt := 0\<rparr>"

text \<open>The contract of every sender: the result carries the message it was given, and its type,
  its error, the status and the retry counter of the message agree.\<close>

definition send_contract :: "message \<Rightarrow> send_result \<Rightarrow> bool" where
  "send_contract m r \<longleftrightarrow>
     core (rMessage r) = core m \<and>
     (case rType r of
        ResultSuccess \<Rightarrow> rError r = None \<and> Status (rMessage r) = StatusSent \<and>
          RetryCount (rMessage r) = RetryCount m
      | ResultRetryable \<Rightarrow> rError r \<noteq> None \<and> Status (rMessage r) = StatusFailed \<and>
          RetryCount (rMessage r) = wrap64 (RetryCount m + 1)
      | ResultPermanent \<Rightarrow> rError r \<noteq> None \<and> Status (rMessage r) = StatusFailed \<and>
          RetryCount (rMessage r) = RetryCount m)"

lemma core_setters [simp]:
  "core (SetStatus now st m) = core m" "core (SetError e m) = core m"
  "core (IncrementRetryCount m) = core m"
  by (simp_all add: core_def SetStatus_def SetError_def IncrementRetryCount_def)

lemma core_fields:
  assumes "core m = core m'"
  shows "Correlator m = Correlator m'" "Content m = Content m'" "MSISDN m = MSISDN m'"
    "NetworkRaw m = NetworkRaw m'" "Sender m = Sender m'" "PackageID m = PackageID m'"
    "SourceQueue m = SourceQueue m'" "OutboxID m = OutboxID m'"
  using assms by (cases m; cases m'; simp add: core_def)+

lemma core_derived:
  assumes "core m = core m'"
  shows "msg_Network m = msg_Network m'" "IsTransactional m = IsTransactional m'"
    "IsPromotional m q = IsPromotional m' q"
  using core_fields [OF assms]
  by (simp_all add: msg_Network_def IsTransactional_def IsPromotional_def)

lemma send_contract_new [send_simps]:
  "send_contract m (NewSuccessResult now m resp l)"
  "send_contract m (NewRetryableResult now m e l)"
  "send_contract m (NewPermanentResult now m e l)"
  by (simp_all add: send_contract_def NewSuccessResult_def NewRetryableResult_def
      NewPermanentResult_def SetStatus_def SetError_def IncrementRetryCount_def core_def)

lemma send_contract_core: "send_contract m r \<Longrightarrow> core (rMessage r) = core m"
  by (simp add: send_contract_def)

lemma send_contract_frame [send_simps]:
  "send_contract m (r\<lparr>rExternalMessageID := x\<rparr>) = send_contract m r"
  "send_contract m (r\<lparr>rNetworkCode := y\<rparr>) = send_contract m r"
  by (simp_all add: send_contract_def split: result_type.split)

lemma new_result_types [simp]:
  "rType (NewSuccessResult now m resp l) = ResultSuccess"
  "rType (NewRetryableResult now m e l) = ResultRetryable"
  "rType (NewPermanentResult now m e l) = ResultPermanent"
  "rError (NewSuccessResult now m resp l) = None"
  "rError (NewRetryableResult now m e l) = Some e"
  "rError (NewPermanentResult now m e l) = Some e"
  by (simp_all add: NewSuccessResult_def NewRetryableResult_def NewPermanentResult_def)

section \<open>Batch results\<close>

definition batch_all :: "batch_result \<Rightarrow> send_result list" where
  "batch_all b = Successful b @ Retryable b @ Failed b"

text \<open>Well-formed batch: each list holds results of its own type, and the count is exact.\<close>

definition batch_wf :: "batch_result \<Rightarrow> bool" where
  "batch_wf b \<longleftrightarrow>
     list_all IsSuccess (Successful b) \<and> list_all IsRetryable (Retryable b) \<and>
     list_all IsPermanent (Failed b) \<and> TotalCount b = int (length (batch_all b))"

lemma batch_wf_New [simp]: "batch_wf NewBatchResult"
  by (simp add: batch_wf_def NewBatchResult_def batch_all_def)

lemma AddResults_fields:
  "Successful (AddResults b rs) = Successful b @ filter IsSuccess rs"
  "Retryable (AddResults b rs) = Retryable b @ filter IsRetryable rs"
  "Failed (AddResults b rs) = Failed b @ filter IsPermanent rs"
  "TotalCount (AddResults b rs) = TotalCount b + int (length rs)"
  unfolding AddResults_def
  by (induction rs arbitrary: b)
    (auto simp: AddResult_def Let_def IsSuccess_def IsRetryable_def IsPermanent_def
      split: result_type.splits)

lemma mset_AddResults: "mset (batch_all (AddResults b rs)) = mset (batch_all b) + mset rs"
proof -
  have "mset (filter IsSuccess rs) + mset (filter IsRetryable rs) + mset (filter IsPermanent rs)
      = mset rs"
    by (induction rs) (auto simp: IsSuccess_def IsRetryable_def IsPermanent_def split: result_type.splits,
        (metis result_type.exhaust)+)
  then show ?thesis by (simp add: batch_all_def AddResults_fields ac_simps)
qed

lemma batch_wf_AddResults: "batch_wf b \<Longrightarrow> batch_wf (AddResults b rs)"
proof -
  assume b: "batch_wf b"
  have "length (batch_all (AddResults b rs)) = length (batch_all b) + length rs"
    by (metis mset_AddResults mset_append size_mset length_append)
  with b show ?thesis
    by (auto simp: batch_wf_def AddResults_fields list_all_iff)
qed

text \<open>Collecting any sequence of results into a fresh batch files every result in exactly the
  list of its type, in order, loses and duplicates none, and counts them exactly.\<close>

theorem AddResults_partition:
  "Successful (AddResults NewBatchResult rs) = filter IsSuccess rs \<and>
   Retryable (AddResults NewBatchResult rs) = filter IsRetryable rs \<and>
   Failed (AddResults NewBatchResult rs) = filter IsPermanent rs \<and>
   mset (batch_all (AddResults NewBatchResult rs)) = mset rs \<and>
   batch_wf (AddResults NewBatchResult rs)"
  by (simp add: AddResults_fields mset_AddResults batch_wf_AddResults)
    (simp add: NewBatchResult_def batch_all_def)

text \<open>A message to evaluate examples on.\<close>

definition sample_message :: message where
  "sample_message =
     \<lparr>Correlator = ''c-1'', Content = ''hello'', MSISDN = ''0712345678'', NetworkRaw = ''AIRTEL'',
      Sender = ''EMALIFY'', PackageID = ''TRANSACTIONAL'', Status = [], Description = [],
      CreatedAt = [], RetryCount = 0, LastError = [], ProcessedAt = 0, SourceQueue = ''GATEWAY'',
      OutboxID = 7, Prefix = [], Country = [], MNO = [], UnitCost = 0, RateSource = []\<rparr>"

end
