(* ===== verification/Go_Json.thy ===== *)
theory Go_Json
  imports Go_Prelude
begin

text \<open>
  What the gateway uses of \<^verbatim>\<open>encoding/json\<close>: JSON values, and decoding one into a struct whose
  fields are strings or 64-bit integers. Keys match the field name without regard to (ASCII) case,
  a later key overwrites an earlier one, \<^verbatim>\<open>null\<close> leaves a field alone, and a value of another type
  is an error (\<open>None\<close>). A number that is no 64-bit integer literal is a \<open>JNum\<close>.
\<close>

datatype json =
  JNull | JBool bool | JInt int | JNum string | JStr string
| JArr "json list" | JObj "(string \<times> json) list"

definition json_field :: "string \<Rightarrow> (string \<times> json) list \<Rightarrow> json list" where
  "json_field name kvs = map snd (filter (\<lambda>(k, _). ToUpper k = ToUpper name) kvs)"

fun decode_string :: "string \<Rightarrow> json \<Rightarrow> string option" where
  "decode_string old (JStr s) = Some s"
| "decode_string old JNull = Some old"
| "decode_string old _ = None"

fun decode_int :: "int \<Rightarrow> json \<Rightarrow> int option" where
  "decode_int old (JInt i) = (if int64 i then Some i else None)"
| "decode_int old JNull = Some old"
| "decode_int old _ = None"

fun decode_last :: "('a \<Rightarrow> json \<Rightarrow> 'a option) \<Rightarrow> 'a \<Rightarrow> json list \<Rightarrow> 'a option" where
  "decode_last dec old [] = Some old"
| "decode_last dec old (v # vs) =
     (case dec old v of None \<Rightarrow> None | Some x \<Rightarrow> decode_last dec x vs)"

definition string_field :: "string \<Rightarrow> (string \<times> json) list \<Rightarrow> string option" where
  "string_field name kvs = decode_last decode_string [] (json_field name kvs)"

definition int_field :: "string \<Rightarrow> (string \<times> json) list \<Rightarrow> int option" where
  "int_field name kvs = decode_last decode_int 0 (json_field name kvs)"

text \<open>The members of the object that is decoded into a struct.\<close>

fun json_members :: "json \<Rightarrow> (string \<times> json) list option" where
  "json_members (JObj kvs) = Some kvs"
| "json_members JNull = Some []"
| "json_members _ = None"

end
