(* ===== verification/World.thy ===== *)
theory World
  imports Sms_Domain Go_Json
begin

text \<open>
  What surrounds the gateway. Code that is not in the repository (RabbitMQ and Redis servers and
  client libraries, the operators' HTTP endpoints, \<^verbatim>\<open>gobreaker\<close>, \<^verbatim>\<open>x/time/rate\<close>, the clock,
  the scheduler of the Go runtime) is a parameter: a record \<open>env\<close> of functions from the history
  of everything that happened so far to the next answer. Every theorem holds for every \<open>env\<close>
  that meets its stated hypotheses.

  The history is the \<open>trace\<close> of the \<open>world\<close>: each call out of the gateway appends one event with
  the answer it got. A context may become done after any event. \<open>crashed\<close> records that a
  goroutine panicked, which ends the process: nothing after it is meant to be read as behaviour of
  the gateway. Metrics are events; log lines are not modelled. The clock is read between events.

  An AMQP body is the JSON value it carries: an object, an array whose entries may be
  \<^verbatim>\<open>null\<close>, \<^verbatim>\<open>null\<close>, or bytes that do not decode as messages.
\<close>

datatype ctxid = AppCtx | HandlerCtx

datatype budget = MainBudget | RetryBudget

record rate_limiter =
  rlLimit :: int
  rlBurst :: int

datatype payload = NoBody | FormBody string | JsonBody json

record http_request =
  hMethod :: string
  hURL :: string
  hHeaders :: "(string \<times> string) list"
  hBody :: payload

text \<open>Answer of \<^verbatim>\<open>http.Client.Do\<close>: a transport error, or a status and a body. A body is what
  \<^verbatim>\<open>io.ReadAll\<close> got, the error it ended with, the JSON value at its start (\<open>Inl\<close> when a
  JSON decoder fails on it), and whether anything but white space follows that value.\<close>

record http_body =
  bText :: string
  bReadErr :: "goerr option"
  bJson :: "goerr + json"
  bTrailing :: bool

datatype http_outcome = HttpErr goerr | HttpResp int http_body

datatype amqp_body =
  BodyObject message | BodyArray "message option list" | BodyNull | BodyInvalid string

datatype redis_cmd =
  RPing | RGet string | RSet string string int | RDel string | RExists string
| RHGet string string | RHGetAll string | RHSet string "(string \<times> string) list"
| RHSetNX string string string | RPublish string string

datatype redis_reply =
  RErr goerr | RNil | ROk | RStr string | RInt int | RHash "(string \<times> string) list"

datatype metric =
  IncMessagesProcessed network string | ObserveSendLatency network int
| IncRetries network | IncDeadLetters network | IncRateLimitHits network
| IncPriorityRouted string string | IncTransactionalProcessed string
| SetTransactionalQueueDepth int | IncSchedulerProcessed string
| SetSchedulerWeight string int | IncStarvationTriggers string
| IncDLQMigratorForwarded string | IncDLQMigratorPublishError
| IncSaveToDBDLQMigratorForwarded | IncSaveToDBDLQMigratorPublishError
| IncDLQMigratorChannelRestart | IncSaveToDBDLQMigratorChannelRestart

datatype event =
  EvPublish string amqp_body "goerr option"
| EvChannel "goerr option"
| EvDeclare string "(int \<times> string) option" "goerr option"
| EvHttp http_request http_outcome
| EvRateWait budget network int "goerr option"
| EvBreaker network "goerr option"
| EvBreakerReject network goerr
| EvRedis redis_cmd redis_reply
| EvAck nat "goerr option"
| EvNack nat bool "goerr option"
| EvSleep int
| EvMetric metric

record env =
  clk :: "event list \<Rightarrow> int"
  cancels :: "event list \<Rightarrow> ctxid \<Rightarrow> bool"
  pick :: "event list \<Rightarrow> nat \<Rightarrow> nat"
  rateWait :: "event list \<Rightarrow> ctxid \<Rightarrow> budget \<Rightarrow> network \<Rightarrow> rate_limiter \<Rightarrow> int \<Rightarrow> goerr option"
  breakerOpen :: "event list \<Rightarrow> network \<Rightarrow> bool"
  breakerReject :: "event list \<Rightarrow> network \<Rightarrow> goerr option"
  newRequest :: "string \<Rightarrow> goerr option"
  httpDo :: "event list \<Rightarrow> ctxid \<Rightarrow> http_request \<Rightarrow> http_outcome"
  redisDo :: "event list \<Rightarrow> redis_cmd \<Rightarrow> redis_reply"
  channelClosed :: "event list \<Rightarrow> bool"
  newChannel :: "event list \<Rightarrow> goerr option"
  queueDeclare :: "event list \<Rightarrow> string \<Rightarrow> (int \<times> string) option \<Rightarrow> goerr option"
  amqpPublish :: "event list \<Rightarrow> ctxid \<Rightarrow> string \<Rightarrow> amqp_body \<Rightarrow> goerr option"
  amqpAck :: "event list \<Rightarrow> nat \<Rightarrow> goerr option"
  amqpNack :: "event list \<Rightarrow> nat \<Rightarrow> bool \<Rightarrow> goerr option"

record world =
  trace :: "event list"
  ctxdone :: "ctxid \<Rightarrow> bool"
  crashed :: bool

definition init_world :: world where
  "init_world = \<lparr>trace = [], ctxdone = (\<lambda>_. False), crashed = False\<rparr>"

text \<open>An environment in which everything succeeds, used to evaluate examples: no context is ever
  cancelled, no wait fails, every HTTP request is answered with status 200 and an empty body.\<close>

definition base_env :: env where
  "base_env =
     \<lparr>clk = (\<lambda>t. int (length t)), cancels = (\<lambda>_ _. False), pick = (\<lambda>_ _. 0),
      rateWait = (\<lambda>_ _ _ _ _ _. None), breakerOpen = (\<lambda>_ _. False),
      breakerReject = (\<lambda>_ _. None), newRequest = (\<lambda>_. None),
      httpDo = (\<lambda>_ _ _. HttpResp 200 \<lparr>bText = [], bReadErr = None, bJson = Inr JNull, bTrailing = False\<rparr>), redisDo = (\<lambda>_ _. ROk),
      channelClosed = (\<lambda>_. False), newChannel = (\<lambda>_. None),
      queueDeclare = (\<lambda>_ _ _. None), amqpPublish = (\<lambda>_ _ _ _. None), amqpAck = (\<lambda>_ _. None), amqpNack = (\<lambda>_ _ _. None)\<rparr>"

text \<open>\<^verbatim>\<open>json.Unmarshal\<close> takes the whole body, \<^verbatim>\<open>Decoder.Decode\<close> only the value at its start.\<close>

definition unmarshal_body :: "http_body \<Rightarrow> goerr + json" where
  "unmarshal_body b =
     (if bTrailing b then Inl (ErrExternal ''invalid character after top-level value'') else bJson b)"

definition emit :: "env \<Rightarrow> event \<Rightarrow> world \<Rightarrow> world" where
  "emit e ev w =
     w\<lparr>trace := trace w @ [ev],
       ctxdone := (\<lambda>c. ctxdone w c \<or> cancels e (trace w @ [ev]) c)\<rparr>"

definition crash :: "world \<Rightarrow> world" where
  "crash w = w\<lparr>crashed := True\<rparr>"

definition cancelContext :: "ctxid \<Rightarrow> world \<Rightarrow> world" where
  "cancelContext c w = w\<lparr>ctxdone := (ctxdone w)(c := True)\<rparr>"

definition time_Now :: "env \<Rightarrow> world \<Rightarrow> int" where
  "time_Now e w = clk e (trace w)"

definition time_Since :: "env \<Rightarrow> world \<Rightarrow> int \<Rightarrow> int" where
  "time_Since e w start = clk e (trace w) - start"

definition metric :: "env \<Rightarrow> bool \<Rightarrow> metric \<Rightarrow> world \<Rightarrow> world" where
  "metric e enabled m w = (if enabled then emit e (EvMetric m) w else w)"

definition http_Do :: "env \<Rightarrow> ctxid \<Rightarrow> http_request \<Rightarrow> world \<Rightarrow> http_outcome \<times> world" where
  "http_Do e ctx req w =
     (let out = httpDo e (trace w) ctx req in (out, emit e (EvHttp req out) w))"

definition redis_Do :: "env \<Rightarrow> redis_cmd \<Rightarrow> world \<Rightarrow> redis_reply \<times> world" where
  "redis_Do e cmd w = (let rep = redisDo e (trace w) cmd in (rep, emit e (EvRedis cmd rep) w))"

section \<open>Growth of the world\<close>

text \<open>Every operation only appends to the trace, keeps done contexts done and never un-crashes.\<close>

definition world_le :: "world \<Rightarrow> world \<Rightarrow> bool" where
  "world_le w w' \<longleftrightarrow>
     (\<exists>es. trace w' = trace w @ es) \<and> (\<forall>c. ctxdone w c \<longrightarrow> ctxdone w' c) \<and>
     (crashed w \<longrightarrow> crashed w')"

definition new_events :: "world \<Rightarrow> world \<Rightarrow> event list" where
  "new_events w w' = drop (length (trace w)) (trace w')"

lemma world_le_refl [simp, intro]: "world_le w w"
  by (simp add: world_le_def)

lemma world_le_trans [trans]: "world_le a b \<Longrightarrow> world_le b c \<Longrightarrow> world_le a c"
  by (auto simp: world_le_def)

lemma world_le_emit [simp, intro]: "world_le w (emit e ev w)"
  by (simp add: world_le_def emit_def)

lemma world_le_emit_trans [simp]: "world_le w w' \<Longrightarrow> world_le w (emit e ev w')"
  by (rule world_le_trans) auto

lemma world_le_metric [simp, intro]: "world_le w (metric e b m w)"
  by (simp add: metric_def)

lemma world_le_crash [simp, intro]: "world_le w (crash w)"
  by (simp add: world_le_def crash_def)

lemma world_le_cancel [simp, intro]: "world_le w (cancelContext c w)"
  by (simp add: world_le_def cancelContext_def)

lemma world_le_ctxdone: "world_le w w' \<Longrightarrow> ctxdone w c \<Longrightarrow> ctxdone w' c"
  by (simp add: world_le_def)

lemma emit_fields [simp]:
  "trace (emit e ev w) = trace w @ [ev]" "crashed (emit e ev w) = crashed w"
  by (simp_all add: emit_def)

lemma ctxdone_emit [simp]: "ctxdone w c \<Longrightarrow> ctxdone (emit e ev w) c"
  by (simp add: emit_def)

lemma ctxdone_cancelContext [simp]: "ctxdone (cancelContext c w) c' = (c' = c \<or> ctxdone w c')"
  by (simp add: cancelContext_def)

lemma crash_fields [simp]:
  "trace (crash w) = trace w" "crashed (crash w)" "ctxdone (crash w) = ctxdone w"
  by (simp_all add: crash_def)

lemma trace_metric [simp]:
  "trace (metric e b m w) = trace w @ (if b then [EvMetric m] else [])"
  "crashed (metric e b m w) = crashed w"
  by (simp_all add: metric_def)

lemma trace_cancelContext [simp]:
  "trace (cancelContext c w) = trace w" "crashed (cancelContext c w) = crashed w"
  by (simp_all add: cancelContext_def)

lemma http_Do_world [simp]: "snd (http_Do e ctx req w) = emit e (EvHttp req (fst (http_Do e ctx req w))) w"
  by (simp add: http_Do_def Let_def)

lemma redis_Do_world [simp]: "snd (redis_Do e cmd w) = emit e (EvRedis cmd (fst (redis_Do e cmd w))) w"
  by (simp add: redis_Do_def Let_def)

lemma new_events_append: "trace w' = trace w @ es \<Longrightarrow> new_events w w' = es"
  by (simp add: new_events_def)

lemma new_events_same [simp]: "new_events w w = []"
  by (simp add: new_events_def)

lemma new_events_trans:
  "\<lbrakk> world_le a b; world_le b c \<rbrakk> \<Longrightarrow> new_events a c = new_events a b @ new_events b c"
  by (auto simp: world_le_def new_events_def)

text \<open>\<open>frame P w w'\<close>: between \<open>w\<close> and \<open>w'\<close> only events satisfying \<open>P\<close> happened.\<close>

definition frame :: "(event \<Rightarrow> bool) \<Rightarrow> world \<Rightarrow> world \<Rightarrow> bool" where
  "frame P w w' \<longleftrightarrow> world_le w w' \<and> list_all P (new_events w w')"

lemma frame_refl [simp, intro]: "frame P w w"
  by (simp add: frame_def)

lemma frame_trans: "frame P a b \<Longrightarrow> frame P b c \<Longrightarrow> frame P a c"
  using new_events_trans [of a b c] world_le_trans [of a b c] by (simp add: frame_def)

lemma frame_mono: "frame P a b \<Longrightarrow> (\<And>x. P x \<Longrightarrow> Q x) \<Longrightarrow> frame Q a b"
  by (auto simp: frame_def list_all_iff)

lemma new_events_emit [simp]: "new_events w (emit e ev w) = [ev]"
  by (simp add: new_events_def)

lemma new_events_emit_trans:
  "world_le w w' \<Longrightarrow> new_events w (emit e ev w') = new_events w w' @ [ev]"
  using new_events_trans [of w w' "emit e ev w'"] by simp

lemma frame_emit [simp]: "frame P w (emit e ev w) = P ev"
  by (simp add: frame_def)

lemma world_le_trans_simps [simp]:
  "world_le w w' \<Longrightarrow> world_le w (metric e b m w')" "world_le w w' \<Longrightarrow> world_le w (crash w')"
  "world_le w w' \<Longrightarrow> world_le w (cancelContext c w')"
  by (auto intro: world_le_trans)

lemma frame_emit_trans [simp]: "frame P w w' \<Longrightarrow> frame P w (emit e ev w') = P ev"
  by (simp add: frame_def new_events_emit_trans)

lemma frame_metric_trans [simp]: "frame P w w' \<Longrightarrow> frame P w (metric e b m w') = (b \<longrightarrow> P (EvMetric m))"
  by (simp add: metric_def)

lemma frame_metric [simp]: "frame P w (metric e b m w) = (b \<longrightarrow> P (EvMetric m))"
  by (simp add: metric_def)

lemma frame_crash [simp, intro]: "frame P w (crash w)"
  by (simp add: frame_def new_events_def)

lemma frame_cancel [simp, intro]: "frame P w (cancelContext c w)"
  by (simp add: frame_def new_events_def)

lemma frame_world_le: "frame P w w' \<Longrightarrow> world_le w w'"
  by (simp add: frame_def)

lemma new_events_trace: "world_le w w' \<Longrightarrow> trace w' = trace w @ new_events w w'"
  by (auto simp: world_le_def new_events_def)

text \<open>\<open>quiet P w w'\<close>: only events satisfying \<open>P\<close> happened, and nothing panicked.\<close>

definition quiet :: "(event \<Rightarrow> bool) \<Rightarrow> world \<Rightarrow> world \<Rightarrow> bool" where
  "quiet P w w' \<longleftrightarrow> frame P w w' \<and> crashed w' = crashed w"

lemma quiet_refl [simp, intro]: "quiet P w w"
  by (simp add: quiet_def)

lemma quiet_trans: "quiet P a b \<Longrightarrow> quiet P b c \<Longrightarrow> quiet P a c"
  using frame_trans [of P a b c] by (simp add: quiet_def)

lemma quiet_mono: "quiet P a b \<Longrightarrow> (\<And>x. P x \<Longrightarrow> Q x) \<Longrightarrow> quiet Q a b"
  using frame_mono [of P a b Q] by (simp add: quiet_def)

lemma quiet_emit [simp]: "quiet P w w' \<Longrightarrow> quiet P w (emit e ev w') = P ev"
  by (auto simp: quiet_def)

lemma quiet_metric [simp]: "quiet P w w' \<Longrightarrow> quiet P w (metric e b m w') = (b \<longrightarrow> P (EvMetric m))"
  by (auto simp: quiet_def)

lemma quiet_le: "quiet P w w' \<Longrightarrow> world_le w w'"
  by (simp add: quiet_def frame_def)

lemma quiet_frame: "quiet P w w' \<Longrightarrow> frame P w w'"
  by (simp add: quiet_def)

lemma quiet_crashed: "quiet P w w' \<Longrightarrow> crashed w' = crashed w"
  by (simp add: quiet_def)

end
