(* ===== verification/Mno_Port.thy ===== *)
theory Mno_Port
  imports World
begin

text \<open>
  The interface \<^verbatim>\<open>ports.MNOSender\<close> (\<^verbatim>\<open>internal/sms/ports/mno_sender.go\<close>) as a locale: what the
  service layer may rely on when it hands a message to an operator. Every sender of the gateway is
  shown to provide it, in its own theory.
\<close>

text \<open>The events a sender may cause: it talks to the operator, the token cache, its breaker and the
  metrics. It never publishes, acknowledges or waits for a rate limit.\<close>

fun sender_event :: "event \<Rightarrow> bool" where
  "sender_event (EvHttp req out) = True"
| "sender_event (EvRedis cmd rep) = True"
| "sender_event (EvBreaker n r) = True"
| "sender_event (EvBreakerReject n r) = True"
| "sender_event (EvSleep d) = True"
| "sender_event (EvMetric m) = True"
| "sender_event _ = False"

fun is_http :: "event \<Rightarrow> bool" where
  "is_http (EvHttp req out) = True"
| "is_http _ = False"

definition http_calls :: "world \<Rightarrow> world \<Rightarrow> event list" where
  "http_calls w w' = filter is_http (new_events w w')"

lemma http_calls_trans:
  "\<lbrakk> world_le a b; world_le b c \<rbrakk> \<Longrightarrow> http_calls a c = http_calls a b @ http_calls b c"
  using new_events_trans [of a b c] by (simp add: http_calls_def)

lemma http_calls_same [simp]: "http_calls w w = []"
  by (simp add: http_calls_def)

lemma http_calls_emit [simp]:
  "world_le w w' \<Longrightarrow> http_calls w (emit e ev w') = http_calls w w' @ (if is_http ev then [ev] else [])"
  by (simp add: http_calls_def new_events_emit_trans)

lemma http_calls_metric [simp]:
  "world_le w w' \<Longrightarrow> http_calls w (metric e b m w') = http_calls w w'"
  by (simp add: metric_def)

text \<open>Sending the messages of a list one after the other.\<close>

fun send_all :: "(message \<Rightarrow> world \<Rightarrow> send_result \<times> world) \<Rightarrow> message list \<Rightarrow> world \<Rightarrow> send_result list \<times> world" where
  "send_all send [] w = ([], w)"
| "send_all send (m # ms) w =
     (let (r, w) = send m w; (rs, w) = send_all send ms w in (r # rs, w))"

text \<open>A function from messages and worlds that meets the contract of a sender.\<close>

locale mno_sender =
  fixes send :: "message \<Rightarrow> world \<Rightarrow> send_result \<times> world"
  assumes send_result: "send_contract m (fst (send m w))"
    and send_quiet: "quiet sender_event w (snd (send m w))"
begin

lemma send_le: "world_le w (snd (send m w))"
  using send_quiet by (rule quiet_le)

lemma send_core: "core (rMessage (fst (send m w))) = core m"
  using send_result by (rule send_contract_core)

lemma send_all_results: "list_all2 send_contract ms (fst (send_all send ms w))"
  by (induction ms arbitrary: w) (auto simp: Let_def case_prod_beta send_result)

lemma send_all_quiet: "quiet sender_event w (snd (send_all send ms w))"
  by (induction ms arbitrary: w) (auto simp: Let_def case_prod_beta intro: quiet_trans [OF send_quiet])

end

text \<open>\<^verbatim>\<open>ports.BatchSender\<close>: a sender that also takes a list of messages and answers with one result
  per message, in order.\<close>

locale batch_sender = mno_sender +
  fixes send_batch :: "message list \<Rightarrow> world \<Rightarrow> send_result list \<times> world"
  assumes batch_results: "list_all2 send_contract ms (fst (send_batch ms w))"
    and batch_quiet: "quiet sender_event w (snd (send_batch ms w))"
begin

lemma batch_length: "length (fst (send_batch ms w)) = length ms"
  using batch_results [of ms w] by (simp add: list_all2_lengthD)

lemma batch_le: "world_le w (snd (send_batch ms w))"
  using batch_quiet by (rule quiet_le)

end

end
