(* ===== verification/Circuit_Breaker.thy ===== *)
theory Circuit_Breaker
  imports Complex_Main World
begin

text \<open>
  \<^verbatim>\<open>internal/common/circuitbreaker\<close>: the configuration of the per-network breakers, the trip
  condition handed to \<^verbatim>\<open>gobreaker\<close>, the registry, and \<^verbatim>\<open>Execute\<close>/\<^verbatim>\<open>IsOpen\<close>. The state of
  a breaker lives in \<^verbatim>\<open>gobreaker\<close> and is a parameter (\<open>breakerOpen\<close>, \<open>breakerReject\<close>): it may
  depend on every outcome reported so far. Counters are 32-bit words; the ratio of two counters is
  rational (\<^verbatim>\<open>float64\<close> division of 32-bit counters compares with the thresholds used here in the
  same way), and 0/0 is NaN, which compares false.
\<close>

record cb_config =
  cbName :: string
  cbMaxRequests :: "32 word"
  cbInterval :: int
  cbTimeout :: int
  cbConsecutiveFailures :: "32 word"
  cbFailureRatio :: rat
  cbMinRequests :: "32 word"

record cb_counts =
  cRequests :: "32 word"
  cTotalSuccesses :: "32 word"
  cTotalFailures :: "32 word"
  cConsecutiveSuccesses :: "32 word"
  cConsecutiveFailures :: "32 word"

definition cb_DefaultConfig :: "string \<Rightarrow> cb_config" where
  "cb_DefaultConfig name =
     \<lparr>cbName = name, cbMaxRequests = 3, cbInterval = 60 * 10 ^ 9, cbTimeout = 10 * 10 ^ 9,
      cbConsecutiveFailures = 20, cbFailureRatio = 1 / 2, cbMinRequests = 50\<rparr>"

definition failureRatio :: "nat \<Rightarrow> nat \<Rightarrow> rat" where
  "failureRatio failures requests = rat_of_nat failures / rat_of_nat requests"

text \<open>The closure \<^verbatim>\<open>ReadyToTrip\<close> of \<^verbatim>\<open>New\<close>; \<^verbatim>\<open>gobreaker\<close> calls it after a failed request
  in the closed state.\<close>

definition ReadyToTrip :: "cb_config \<Rightarrow> cb_counts \<Rightarrow> bool" where
  "ReadyToTrip cfg counts \<longleftrightarrow>
     (if cbConsecutiveFailures cfg \<le> cConsecutiveFailures counts then True
      else if cbMinRequests cfg \<le> cRequests counts then
        cRequests counts \<noteq> 0 \<and>
        cbFailureRatio cfg \<le> failureRatio (unat (cTotalFailures counts)) (unat (cRequests counts))
      else False)"

type_synonym breaker_registry = "network \<rightharpoonup> cb_config"

definition cb_New :: "network \<Rightarrow> cb_config option \<Rightarrow> cb_config" where
  "cb_New network cfg =
     (case cfg of None \<Rightarrow> cb_DefaultConfig (network_String network) | Some c \<Rightarrow> c)"

definition cb_Register :: "network \<Rightarrow> cb_config option \<Rightarrow> breaker_registry \<Rightarrow> breaker_registry" where
  "cb_Register network cfg r = r(network \<mapsto> cb_New network cfg)"

definition cb_Get :: "breaker_registry \<Rightarrow> network \<Rightarrow> goerr + network" where
  "cb_Get r network =
     (case r network of
        None \<Rightarrow> Inl (ErrExternal (''circuit breaker not found for network: '' @ network_String network))
      | Some cb \<Rightarrow> Inr network)"

text \<open>The registry that \<^verbatim>\<open>bootstrap.New\<close> builds: one breaker per network, \<^verbatim>\<open>Interval\<close>,
  \<^verbatim>\<open>FailureRatio\<close> and \<^verbatim>\<open>MinRequests\<close> left at their zero values.\<close>

definition bootstrap_cb_config :: "network \<Rightarrow> cb_config" where
  "bootstrap_cb_config network =
     \<lparr>cbName = network_String network, cbMaxRequests = 3, cbInterval = 0,
      cbTimeout = 30000000000, cbConsecutiveFailures = 5, cbFailureRatio = 0, cbMinRequests = 0\<rparr>"

definition bootstrap_registry :: breaker_registry where
  "bootstrap_registry =
     foldl (\<lambda>r n. cb_Register n (Some (bootstrap_cb_config n)) r) Map.empty
       [NetworkSafaricom, NetworkAirtel, NetworkTelkom, NetworkEquitel, NetworkCM, NetworkINTNL]"

section \<open>Running requests through a breaker\<close>

definition cb_IsOpen :: "env \<Rightarrow> network \<Rightarrow> world \<Rightarrow> bool" where
  "cb_IsOpen e n w = breakerOpen e (trace w) n"

text \<open>\<^verbatim>\<open>Execute\<close>: the breaker either rejects the call without running it, or runs it and takes
  note of its error.\<close>

definition cb_Execute ::
  "env \<Rightarrow> network \<Rightarrow> (world \<Rightarrow> ('a \<times> goerr option) \<times> world) \<Rightarrow> world \<Rightarrow>
   ('a option \<times> goerr option) \<times> world" where
  "cb_Execute e n fn w =
     (case breakerReject e (trace w) n of
        Some err \<Rightarrow> ((None, Some err), emit e (EvBreakerReject n err) w)
      | None \<Rightarrow> (case fn w of ((a, err), w') \<Rightarrow> ((Some a, err), emit e (EvBreaker n err) w')))"

interpretation cbreg: settings "\<lambda>n cfg. cb_Register n (Some cfg)" "\<lambda>r n. the (r n)" "\<lambda>_ _. True"
  by unfold_locales (auto simp: cb_Register_def cb_New_def)

lemma bootstrap_registry_get:
  "n \<noteq> NetworkUnknown \<Longrightarrow> bootstrap_registry n = Some (bootstrap_cb_config n)"
  by (cases n) (simp_all add: bootstrap_registry_def cb_Register_def cb_New_def)

text \<open>With the default configuration a breaker trips exactly when 20 requests in a row failed, or
  at least half of at least 50 requests failed.\<close>

theorem ReadyToTrip_default:
  "ReadyToTrip (cb_DefaultConfig nm) counts \<longleftrightarrow>
     20 \<le> unat (cConsecutiveFailures counts) \<or>
     (50 \<le> unat (cRequests counts) \<and>
      unat (cRequests counts) \<le> 2 * unat (cTotalFailures counts))"
proof -
  have half: "1 \<le> failureRatio f r * 2 \<longleftrightarrow> r \<le> 2 * f" if "0 < r" for f r :: nat
  proof -
    have "1 \<le> failureRatio f r * 2 \<longleftrightarrow> rat_of_nat r \<le> rat_of_nat (2 * f)"
      using that by (simp add: failureRatio_def field_simps)
    then show ?thesis by (simp only: of_nat_le_iff)
  qed
  have z: "cRequests counts \<noteq> 0 \<longleftrightarrow> 0 < unat (cRequests counts)" by (simp add: unat_gt_0)
  show ?thesis
    by (auto simp: ReadyToTrip_def cb_DefaultConfig_def word_le_nat_alt z half)
qed

text \<open>C39. The breakers that the application registers trip on the first failed request, whatever
  happened before: \<^verbatim>\<open>MinRequests\<close> and \<^verbatim>\<open>FailureRatio\<close> are left at 0, so the ratio test
  succeeds as soon as one request was counted, and the configured threshold of 5 consecutive
  failures has no effect.\<close>

theorem bootstrap_breaker_trips_on_first_failure:
  assumes "n \<noteq> NetworkUnknown" and "bootstrap_registry n = Some cfg" and "0 < cRequests counts"
  shows "cbConsecutiveFailures cfg = 5 \<and> ReadyToTrip cfg counts"
proof -
  have "cfg = bootstrap_cb_config n" using assms bootstrap_registry_get [of n] by simp
  moreover have "0 \<le> failureRatio f r" for f r by (simp add: failureRatio_def)
  ultimately show ?thesis using assms(3)
    by (auto simp: ReadyToTrip_def bootstrap_cb_config_def)
qed

theorem bootstrap_breaker_trips_on_first_failure_witness:
  "ReadyToTrip (bootstrap_cb_config NetworkAirtel)
     \<lparr>cRequests = 1000, cTotalSuccesses = 999, cTotalFailures = 1, cConsecutiveSuccesses = 0,
      cConsecutiveFailures = 1\<rparr>"
  using bootstrap_breaker_trips_on_first_failure [of NetworkAirtel "bootstrap_cb_config NetworkAirtel"
      "\<lparr>cRequests = 1000, cTotalSuccesses = 999, cTotalFailures = 1, cConsecutiveSuccesses = 0,
      cConsecutiveFailures = 1\<rparr>"] bootstrap_registry_get [of NetworkAirtel]
  by simp

end
