(* ===== verification/Go_Url.thy ===== *)
theory Go_Url
  imports Go_Prelude
begin

text \<open>
  What the senders use of \<^verbatim>\<open>net/url\<close>: \<^verbatim>\<open>QueryEscape\<close>, \<^verbatim>\<open>Values.Set\<close> and
  \<^verbatim>\<open>Values.Encode\<close> (sorted by key). \<open>QueryUnescape\<close> and \<open>ParseQuery\<close> are what the receiving
  gateway does with the query string; they state what encoding has to preserve.
\<close>

section \<open>Escaping\<close>

definition byte :: "char \<Rightarrow> nat" where
  "byte c = of_char c"

definition unreserved :: "char \<Rightarrow> bool" where
  "unreserved c \<longleftrightarrow>
     (65 \<le> byte c \<and> byte c \<le> 90) \<or> (97 \<le> byte c \<and> byte c \<le> 122) \<or>
     (48 \<le> byte c \<and> byte c \<le> 57) \<or> c = CHR ''-'' \<or> c = CHR ''_'' \<or> c = CHR ''.'' \<or> c = CHR ''~''"

definition upperhex :: "nat \<Rightarrow> char" where
  "upperhex d = (if d < 10 then char_of (48 + d) else char_of (55 + d))"

definition escape_char :: "char \<Rightarrow> string" where
  "escape_char c =
     (if unreserved c then [c]
      else if c = CHR '' '' then ''+''
      else [CHR ''%'', upperhex (byte c div 16), upperhex (byte c mod 16)])"

definition QueryEscape :: "string \<Rightarrow> string" where
  "QueryEscape s = concat (map escape_char s)"

definition unhex :: "char \<Rightarrow> nat option" where
  "unhex c =
     (let b = byte c in
      if 48 \<le> b \<and> b \<le> 57 then Some (b - 48)
      else if 65 \<le> b \<and> b \<le> 70 then Some (b - 55)
      else if 97 \<le> b \<and> b \<le> 102 then Some (b - 87)
      else None)"

fun QueryUnescape :: "string \<Rightarrow> string option" where
  "QueryUnescape [] = Some []"
| "QueryUnescape (c # cs) =
     (if c = CHR ''%'' then
        (case cs of
           h # l # rest \<Rightarrow>
             (case (unhex h, unhex l) of
                (Some x, Some y) \<Rightarrow> map_option ((#) (char_of (16 * x + y))) (QueryUnescape rest)
              | _ \<Rightarrow> None)
         | _ \<Rightarrow> None)
      else if c = CHR ''+'' then map_option ((#) CHR '' '') (QueryUnescape cs)
      else map_option ((#) c) (QueryUnescape cs))"

lemma byte_less: "byte c < 256"
  by (simp add: byte_def)

lemma char_of_byte [simp]: "char_of (byte c) = c"
  by (simp add: byte_def)

lemma byte_char_of: "n < 256 \<Longrightarrow> byte (char_of n) = n"
  by (simp add: byte_def of_char_of)

lemma byte_eq_iff: "c = d \<longleftrightarrow> byte c = byte d"
  by (metis char_of_byte)

lemma byte_upperhex: "d < 16 \<Longrightarrow> byte (upperhex d) = (if d < 10 then 48 + d else 55 + d)"
  by (simp add: upperhex_def byte_char_of)

lemma unhex_upperhex [simp]: "d < 16 \<Longrightarrow> unhex (upperhex d) = Some d"
  by (simp add: unhex_def byte_upperhex Let_def)

lemma byte_literals [simp]:
  "byte CHR ''%'' = 37" "byte CHR ''+'' = 43" "byte CHR ''&'' = 38" "byte CHR ''='' = 61"
  "byte CHR '' '' = 32" "byte CHR ''-'' = 45" "byte CHR ''_'' = 95" "byte CHR ''.'' = 46"
  "byte CHR ''~'' = 126"
  by (simp_all add: byte_def)

lemma QueryUnescape_escape_char:
  "QueryUnescape (escape_char c @ s) = map_option ((#) c) (QueryUnescape s)"
proof (cases "unreserved c")
  case True
  then show ?thesis by (auto simp: escape_char_def unreserved_def byte_eq_iff)
next
  case False
  have "byte c div 16 < 16" using byte_less [of c] by auto
  then show ?thesis
    using False by (simp add: escape_char_def)
qed

lemma QueryUnescape_QueryEscape [simp]: "QueryUnescape (QueryEscape s) = Some s"
  by (induction s) (simp_all add: QueryEscape_def QueryUnescape_escape_char)

definition delim :: "char \<Rightarrow> bool" where
  "delim c \<longleftrightarrow> c = CHR ''&'' \<or> c = CHR ''=''"

lemma upperhex_plain: "d < 16 \<Longrightarrow> \<not> delim (upperhex d)"
  by (simp add: delim_def byte_eq_iff byte_upperhex)

lemma unreserved_plain: "unreserved c \<Longrightarrow> \<not> delim c"
  by (auto simp: delim_def unreserved_def)

lemma escape_char_no_delim: "list_all (\<lambda>c. \<not> delim c) (escape_char d)"
proof -
  have "byte d div 16 < 16" using byte_less [of d] by auto
  then have "\<not> delim (upperhex (byte d div 16))" "\<not> delim (upperhex (byte d mod 16))"
    by (simp_all add: upperhex_plain)
  moreover have "\<not> delim CHR ''%''" "\<not> delim CHR ''+''" by (simp_all add: delim_def)
  ultimately show ?thesis by (simp add: escape_char_def unreserved_plain)
qed

lemma QueryEscape_no_delim: "c \<in> set (QueryEscape s) \<Longrightarrow> \<not> delim c"
  using escape_char_no_delim by (auto simp: QueryEscape_def list_all_iff)

section \<open>Query strings\<close>

type_synonym url_values = "(string \<times> string) list"

definition Values_Set :: "string \<Rightarrow> string \<Rightarrow> url_values \<Rightarrow> url_values" where
  "Values_Set k v vs = filter (\<lambda>(k', _). k' \<noteq> k) vs @ [(k, v)]"

definition encode_pair :: "string \<times> string \<Rightarrow> string" where
  "encode_pair kv = QueryEscape (fst kv) @ ''='' @ QueryEscape (snd kv)"

fun join :: "string \<Rightarrow> string list \<Rightarrow> string" where
  "join sep [] = []"
| "join sep [x] = x"
| "join sep (x # y # xs) = x @ sep @ join sep (y # xs)"

definition Values_Encode :: "url_values \<Rightarrow> string" where
  "Values_Encode vs = join ''&'' (map encode_pair (sort_key fst vs))"

fun split_on :: "char \<Rightarrow> string \<Rightarrow> string list" where
  "split_on d [] = [[]]"
| "split_on d (c # cs) =
     (if c = d then [] # split_on d cs
      else case split_on d cs of [] \<Rightarrow> [[c]] | w # ws \<Rightarrow> (c # w) # ws)"

fun cut :: "char \<Rightarrow> string \<Rightarrow> string \<times> string" where
  "cut d [] = ([], [])"
| "cut d (c # cs) = (if c = d then ([], cs) else (let (a, b) = cut d cs in (c # a, b)))"

definition parse_pair :: "string \<Rightarrow> (string \<times> string) option" where
  "parse_pair s =
     (let (k, v) = cut (CHR ''='') s in
      case (QueryUnescape k, QueryUnescape v) of
        (Some k, Some v) \<Rightarrow> Some (k, v)
      | _ \<Rightarrow> None)"

definition ParseQuery :: "string \<Rightarrow> (string \<times> string) option list" where
  "ParseQuery s = map parse_pair (split_on (CHR ''&'') s)"

lemma split_on_plain: "d \<notin> set s \<Longrightarrow> split_on d s = [s]"
  by (induction s) auto

lemma split_on_append: "d \<notin> set a \<Longrightarrow> split_on d (a @ d # s) = a # split_on d s"
  by (induction a) auto

lemma split_on_join:
  "\<lbrakk> xs \<noteq> []; list_all (\<lambda>x. d \<notin> set x) xs \<rbrakk> \<Longrightarrow> split_on d (join [d] xs) = xs"
  by (induction "[d]" xs rule: join.induct) (auto simp: split_on_plain split_on_append)

lemma cut_append: "d \<notin> set a \<Longrightarrow> cut d (a @ d # s) = (a, s)"
  by (induction a) auto

lemma parse_pair_encode [simp]: "parse_pair (encode_pair kv) = Some kv"
proof -
  have "CHR ''='' \<notin> set (QueryEscape (fst kv))"
    using QueryEscape_no_delim [of "CHR ''=''"] by (auto simp: delim_def)
  then have "cut (CHR ''='') (encode_pair kv) = (QueryEscape (fst kv), QueryEscape (snd kv))"
    by (simp add: encode_pair_def cut_append)
  then show ?thesis by (simp add: parse_pair_def)
qed

lemma encode_pair_plain: "CHR ''&'' \<notin> set (encode_pair kv)"
  using QueryEscape_no_delim [of "CHR ''&''"] by (auto simp: encode_pair_def delim_def)

lemma ParseQuery_Encode:
  "vs \<noteq> [] \<Longrightarrow> ParseQuery (Values_Encode vs) = map Some (sort_key fst vs)"
proof -
  assume vs: "vs \<noteq> []"
  let ?ps = "map encode_pair (sort_key fst vs)"
  have "length ?ps \<noteq> 0" using vs by simp
  then have "?ps \<noteq> []" by blast
  moreover have "list_all (\<lambda>x. CHR ''&'' \<notin> set x) ?ps"
    by (simp add: list_all_iff encode_pair_plain)
  ultimately have "split_on (CHR ''&'') (Values_Encode vs) = ?ps"
    unfolding Values_Encode_def by (rule split_on_join)
  then show ?thesis by (simp add: ParseQuery_def o_def)
qed

end
