(* ===== verification/Smpp_Sender.thy ===== *)
theory Smpp_Sender
  imports Mno_Port Circuit_Breaker Go_Url
begin

text \<open>
  \<^verbatim>\<open>internal/sms/adapters/mno/base.go\<close> and the senders built on it (\<^verbatim>\<open>airtel.go\<close>,
  \<^verbatim>\<open>telkom.go\<close>, \<^verbatim>\<open>equitel.go\<close>, \<^verbatim>\<open>cm.go\<close>, \<^verbatim>\<open>safaricom_smpp.go\<close>): one GET request per
  message to a Kannel gateway. The package variable \<^verbatim>\<open>gatewayQueueName\<close> is the argument \<open>gq\<close>.
\<close>

record smpp_sender =
  sNetwork :: network
  sName :: string
  sBaseURL :: string
  sSmsc :: string
  sUsername :: string
  sPassword :: string
  sDlrURL :: string
  sDlrURLApiV2 :: string
  sBreaker :: "network option"
  sMetrics :: bool

definition SetGatewayQueueName :: "string \<Rightarrow> string \<Rightarrow> string" where
  "SetGatewayQueueName name gq = (if name \<noteq> [] then name else gq)"

definition buildDLRURL :: "string \<Rightarrow> smpp_sender \<Rightarrow> message \<Rightarrow> string" where
  "buildDLRURL gq s msg =
     (let baseURL =
        (if sDlrURLApiV2 s \<noteq> [] \<and> SourceQueue msg \<noteq> [] \<and> SourceQueue msg \<noteq> gq
         then sDlrURLApiV2 s else sDlrURL s)
      in baseURL @ ''?correlator='' @ QueryEscape (Correlator msg) @
         ''&user='' @ QueryEscape (sUsername s) @ ''&passwd='' @ QueryEscape (sPassword s) @
         ''&status=%d&answer=%A&sender=%P&reciever=%p&time=%t&usr=%n&message=%b'')"

definition request_params :: "string \<Rightarrow> smpp_sender \<Rightarrow> message \<Rightarrow> url_values" where
  "request_params gq s msg =
     (let dlrURL = buildDLRURL gq s msg;
          params = Values_Set ''smsc'' (sSmsc s) [];
          params = Values_Set ''username'' (sUsername s) params;
          params = Values_Set ''password'' (sPassword s) params;
          params = Values_Set ''to'' (NormalizeMSISDN msg) params;
          params = Values_Set ''from'' (Sender msg) params;
          params = Values_Set ''text'' (Content msg) params;
          params = Values_Set ''dlr-mask'' ''31'' params
      in Values_Set ''dlr-url'' dlrURL params)"

definition buildRequestURL :: "string \<Rightarrow> smpp_sender \<Rightarrow> message \<Rightarrow> string" where
  "buildRequestURL gq s msg = sBaseURL s @ ''?'' @ Values_Encode (request_params gq s msg)"

definition is2xx :: "int \<Rightarrow> bool" where
  "is2xx status \<longleftrightarrow> 200 \<le> status \<and> status < 300"

definition smpp_executeRequest ::
  "env \<Rightarrow> smpp_sender \<Rightarrow> ctxid \<Rightarrow> message \<Rightarrow> string \<Rightarrow> int \<Rightarrow> world \<Rightarrow> send_result \<times> world" where
  "smpp_executeRequest e s ctx msg requestURL start w =
     (case newRequest e requestURL of
        Some err \<Rightarrow> (NewPermanentResult (time_Now e w) msg err (time_Since e w start), w)
      | None \<Rightarrow>
          (case http_Do e ctx \<lparr>hMethod = ''GET'', hURL = requestURL, hHeaders = [], hBody = NoBody\<rparr> w of
             (HttpErr err, w) \<Rightarrow>
               (NewRetryableResult (time_Now e w) msg ErrMNOUnavailable (time_Since e w start), w)
           | (HttpResp status body, w) \<Rightarrow>
               (case bReadErr body of
                  Some err \<Rightarrow> (NewRetryableResult (time_Now e w) msg err (time_Since e w start), w)
                | None \<Rightarrow>
                    (let responseStr = bText body;
                         latency = time_Since e w start in
                     if is2xx status \<and> Contains responseStr ''0: Accepted for delivery'' then
                       (NewSuccessResult (time_Now e w) msg responseStr latency, w)
                     else if MNOError_IsRetryable status None then
                       (NewRetryableResult (time_Now e w) msg
                          (MNOError (sNetwork s) status responseStr None) latency, w)
                     else
                       (NewPermanentResult (time_Now e w) msg
                          (MNOError (sNetwork s) status responseStr None) latency, w)))))"

definition record_metrics :: "env \<Rightarrow> bool \<Rightarrow> network \<Rightarrow> send_result \<Rightarrow> world \<Rightarrow> world" where
  "record_metrics e enabled n result w =
     (let w = metric e enabled (ObserveSendLatency n (rLatency result)) w
      in metric e enabled (IncMessagesProcessed n (if IsSuccess result then ''success'' else ''failed'')) w)"

text \<open>Running \<^verbatim>\<open>exec\<close> through the breaker, as \<^verbatim>\<open>Send\<close> of both kinds of sender does: a call
  that the breaker lets through fails for it when the result is no success, and a rejected call
  leaves the result nil.\<close>

definition through_breaker ::
  "env \<Rightarrow> network option \<Rightarrow> message \<Rightarrow> int \<Rightarrow> (world \<Rightarrow> send_result \<times> world) \<Rightarrow> world \<Rightarrow> send_result \<times> world" where
  "through_breaker e cb msg start exec w =
     (case cb of
        Some n \<Rightarrow>
          (case cb_Execute e n
                  (\<lambda>w. case exec w of (result, w) \<Rightarrow>
                     ((result, if IsSuccess result then None else rError result), w)) w of
             ((Some result, _), w) \<Rightarrow> (result, w)
           | ((None, Some err), w) \<Rightarrow> (NewRetryableResult (time_Now e w) msg err (time_Since e w start), w)
           | ((None, None), w) \<Rightarrow> (NewRetryableResult (time_Now e w) msg ErrCircuitOpen (time_Since e w start), w))
      | None \<Rightarrow> exec w)"

definition smpp_Send ::
  "env \<Rightarrow> string \<Rightarrow> smpp_sender \<Rightarrow> ctxid \<Rightarrow> message \<Rightarrow> world \<Rightarrow> send_result \<times> world" where
  "smpp_Send e gq s ctx msg w =
     (let start = time_Now e w in
      if (case sBreaker s of None \<Rightarrow> False | Some n \<Rightarrow> cb_IsOpen e n w) then
        (NewPermanentResult (time_Now e w) msg ErrCircuitOpen (time_Since e w start), w)
      else
        (let requestURL = buildRequestURL gq s msg;
             (result, w) =
               through_breaker e (sBreaker s) msg start (smpp_executeRequest e s ctx msg requestURL start) w
         in (result, record_metrics e (sMetrics s) (sNetwork s) result w)))"

definition smpp_IsHealthy :: "env \<Rightarrow> smpp_sender \<Rightarrow> world \<Rightarrow> bool" where
  "smpp_IsHealthy e s w = (case sBreaker s of None \<Rightarrow> True | Some n \<Rightarrow> \<not> cb_IsOpen e n w)"

section \<open>The operators\<close>

record smpp_cfg =
  cURL :: string
  cSMSC :: string
  cUsername :: string
  cPassword :: string
  cDLRURL :: string
  cDLRURLApiV2 :: string

definition NewBaseSMPPSender ::
  "network \<Rightarrow> string \<Rightarrow> smpp_cfg \<Rightarrow> network option \<Rightarrow> bool \<Rightarrow> smpp_sender" where
  "NewBaseSMPPSender n name c cb m =
     \<lparr>sNetwork = n, sName = name, sBaseURL = cURL c, sSmsc = cSMSC c, sUsername = cUsername c,
      sPassword = cPassword c, sDlrURL = cDLRURL c, sDlrURLApiV2 = cDLRURLApiV2 c,
      sBreaker = cb, sMetrics = m\<rparr>"

definition NewAirtelSender :: "smpp_cfg \<Rightarrow> network option \<Rightarrow> bool \<Rightarrow> smpp_sender" where
  "NewAirtelSender c cb m = NewBaseSMPPSender NetworkAirtel ''Airtel SMPP'' c cb m"

definition NewTelkomSender :: "smpp_cfg \<Rightarrow> network option \<Rightarrow> bool \<Rightarrow> smpp_sender" where
  "NewTelkomSender c cb m = NewBaseSMPPSender NetworkTelkom ''Telkom SMPP'' c cb m"

definition NewEquitelSender :: "smpp_cfg \<Rightarrow> network option \<Rightarrow> bool \<Rightarrow> smpp_sender" where
  "NewEquitelSender c cb m = NewBaseSMPPSender NetworkEquitel ''Equitel SMPP'' c cb m"

text \<open>The CM sender is built without an API v2 delivery-report address.\<close>

definition NewCMSender :: "smpp_cfg \<Rightarrow> network option \<Rightarrow> bool \<Rightarrow> smpp_sender" where
  "NewCMSender c cb m =
     NewBaseSMPPSender NetworkCM ''CM International SMPP'' (c\<lparr>cDLRURLApiV2 := []\<rparr>) cb m"

definition NewSafaricomSMPPSender :: "smpp_cfg \<Rightarrow> network option \<Rightarrow> bool \<Rightarrow> smpp_sender" where
  "NewSafaricomSMPPSender c cb m =
     NewBaseSMPPSender NetworkSafaricom ''Safaricom SMPP (Transactional)'' c cb m"

section \<open>Contract\<close>

lemma record_metrics_simps [simp]:
  "quiet P w w' \<Longrightarrow> (\<And>m. P (EvMetric m)) \<Longrightarrow> quiet P w (record_metrics e b n r w')"
  "world_le w w' \<Longrightarrow> http_calls w (record_metrics e b n r w') = http_calls w w'"
  by (simp_all add: record_metrics_def Let_def)

lemma executeRequest_contract:
  "send_contract msg (fst (smpp_executeRequest e s ctx msg url start w))"
  "quiet sender_event w (snd (smpp_executeRequest e s ctx msg url start w))"
  by (auto simp: smpp_executeRequest_def http_Do_def Let_def send_simps
      split: option.splits http_outcome.splits)

text \<open>The breaker adds its own event; the call runs once, or it is rejected and does not run.\<close>

lemma through_breaker_cases:
  assumes "through_breaker e cb msg start exec w = (r, w')"
  shows "(\<exists>w1. exec w = (r, w1) \<and> (w' = w1 \<or> (\<exists>n err. w' = emit e (EvBreaker n err) w1))) \<or>
         (\<exists>n err t l. r = NewRetryableResult t msg err l \<and> w' = emit e (EvBreakerReject n err) w)"
  using assms
  by (cases "exec w")
    (auto simp: through_breaker_def cb_Execute_def split: option.splits)

lemma through_breaker_contract:
  assumes "send_contract msg (fst (exec w))" and "quiet sender_event w (snd (exec w))"
  shows "send_contract msg (fst (through_breaker e cb msg start exec w))"
    and "quiet sender_event w (snd (through_breaker e cb msg start exec w))"
  using through_breaker_cases [of e cb msg start exec w] assms
  by (cases "through_breaker e cb msg start exec w"; fastforce simp: send_simps)+

lemma smpp_breaker_contract:
  "send_contract m (fst (through_breaker e cb m st (smpp_executeRequest e' s ctx m url st') w))"
  "quiet sender_event w (snd (through_breaker e cb m st (smpp_executeRequest e' s ctx m url st') w))"
  by (rule through_breaker_contract; rule executeRequest_contract)+

interpretation smpp: mno_sender "smpp_Send e gq s ctx" for e gq s ctx
  by unfold_locales (simp_all add: smpp_Send_def Let_def case_prod_beta send_simps smpp_breaker_contract)

section \<open>Behaviour\<close>

text \<open>When the answer of the gateway counts as an accepted message.\<close>

fun smpp_accepted :: "event \<Rightarrow> bool" where
  "smpp_accepted (EvHttp req (HttpResp status body)) =
     (bReadErr body = None \<and> is2xx status \<and> Contains (bText body) ''0: Accepted for delivery'')"
| "smpp_accepted _ = False"

fun http_url :: "event \<Rightarrow> string" where
  "http_url (EvHttp req out) = hURL req"
| "http_url _ = []"

lemma executeRequest_http:
  assumes "smpp_executeRequest e s ctx msg url start w = (r, w')"
  shows "(http_calls w w' = [] \<and> \<not> IsSuccess r) \<or>
    (\<exists>x. http_calls w w' = [x] \<and> http_url x = url \<and> IsSuccess r = smpp_accepted x)"
  using assms
  by (auto simp: smpp_executeRequest_def http_Do_def Let_def IsSuccess_def
      split: option.splits http_outcome.splits if_splits)

text \<open>C8. Sending over SMPP makes at most one HTTP request, to the URL built for the message, and
  none when the breaker is open (the message then fails permanently). The result is a success
  exactly when that one request was answered with a 2xx status and a body that contains
  \<^verbatim>\<open>0: Accepted for delivery\<close>: nothing else counts as sent, and nothing is sent twice.\<close>

theorem smpp_Send_at_most_once:
  "let (r, w') = smpp_Send e gq s ctx msg w in
     if smpp_IsHealthy e s w then
       (http_calls w w' = [] \<and> \<not> IsSuccess r) \<or>
       (\<exists>x. http_calls w w' = [x] \<and> http_url x = buildRequestURL gq s msg \<and>
            IsSuccess r = smpp_accepted x)
     else r = NewPermanentResult (time_Now e w) msg ErrCircuitOpen 0 \<and> w' = w"
proof (cases "smpp_IsHealthy e s w")
  case True
  let ?x = "smpp_executeRequest e s ctx msg (buildRequestURL gq s msg) (time_Now e w)"
  obtain r w1 where tb: "through_breaker e (sBreaker s) msg (time_Now e w) ?x w = (r, w1)"
    by (cases "through_breaker e (sBreaker s) msg (time_Now e w) ?x w")
  have le: "world_le w w1"
    using smpp_breaker_contract(2) tb by (metis quiet_le snd_conv)
  have "(http_calls w w1 = [] \<and> \<not> IsSuccess r) \<or>
      (\<exists>x. http_calls w w1 = [x] \<and> http_url x = buildRequestURL gq s msg \<and> IsSuccess r = smpp_accepted x)"
    using through_breaker_cases [OF tb]
  proof
    assume "\<exists>w2. ?x w = (r, w2) \<and> (w1 = w2 \<or> (\<exists>n err. w1 = emit e (EvBreaker n err) w2))"
    then obtain w2 where x: "?x w = (r, w2)" and w1: "w1 = w2 \<or> (\<exists>n err. w1 = emit e (EvBreaker n err) w2)"
      by blast
    have "world_le w w2" using executeRequest_contract(2) x by (metis quiet_le snd_conv)
    then have "http_calls w w1 = http_calls w w2" using w1 by auto
    then show ?thesis using executeRequest_http [OF x] by simp
  qed (auto simp: IsSuccess_def)
  then show ?thesis
    using True tb le
    by (cases "sBreaker s") (simp_all add: smpp_Send_def smpp_IsHealthy_def Let_def)
next
  case False
  then show ?thesis
    by (cases "sBreaker s") (simp_all add: smpp_Send_def smpp_IsHealthy_def Let_def time_Since_def time_Now_def)
qed

text \<open>The request URL carries the message faithfully: whatever bytes the text, the sender id, the
  credentials or the delivery-report address hold, the query string that the gateway parses has
  exactly the eight parameters, in the order of their names, with their values unchanged.\<close>

theorem buildRequestURL_roundtrip:
  "\<exists>q. buildRequestURL gq s msg = sBaseURL s @ ''?'' @ q \<and>
     ParseQuery q = map Some
       [(''dlr-mask'', ''31''), (''dlr-url'', buildDLRURL gq s msg), (''from'', Sender msg),
        (''password'', sPassword s), (''smsc'', sSmsc s), (''text'', Content msg),
        (''to'', NormalizeMSISDN msg), (''username'', sUsername s)]"
proof -
  let ?vs = "request_params gq s msg"
  have vs: "?vs = [(''smsc'', sSmsc s), (''username'', sUsername s), (''password'', sPassword s),
      (''to'', NormalizeMSISDN msg), (''from'', Sender msg), (''text'', Content msg),
      (''dlr-mask'', ''31''), (''dlr-url'', buildDLRURL gq s msg)]"
    by (simp add: request_params_def Values_Set_def Let_def)
  have "sort_key fst ?vs = [(''dlr-mask'', ''31''), (''dlr-url'', buildDLRURL gq s msg), (''from'', Sender msg),
      (''password'', sPassword s), (''smsc'', sSmsc s), (''text'', Content msg),
      (''to'', NormalizeMSISDN msg), (''username'', sUsername s)]"
    unfolding vs by (simp add: less_char_def less_eq_char_def)
  moreover have "?vs \<noteq> []" by (simp add: vs)
  ultimately show ?thesis
    unfolding buildRequestURL_def using ParseQuery_Encode [of ?vs] by auto
qed

text \<open>The delivery-report address: messages of the gateway queue (and messages whose queue is not
  known) report to the primary address, messages of any other queue to the API v2 address when one
  is configured, the CM sender never does; the correlator and the credentials are escaped so that
  they cannot end the parameter they stand in.\<close>

theorem buildDLRURL_selection:
  "\<exists>q. buildDLRURL gq s msg =
      (if SourceQueue msg = [] \<or> SourceQueue msg = gq \<or> sDlrURLApiV2 s = [] then sDlrURL s
       else sDlrURLApiV2 s) @ ''?'' @ q \<and>
    take 3 (ParseQuery q) =
      [Some (''correlator'', Correlator msg), Some (''user'', sUsername s), Some (''passwd'', sPassword s)] \<and>
    sDlrURLApiV2 (NewCMSender c cb m) = []"
proof -
  let ?p1 = "encode_pair (''correlator'', Correlator msg)"
  let ?p2 = "encode_pair (''user'', sUsername s)"
  let ?p3 = "encode_pair (''passwd'', sPassword s)"
  let ?rest = "''status=%d&answer=%A&sender=%P&reciever=%p&time=%t&usr=%n&message=%b''"
  let ?q = "?p1 @ CHR ''&'' # ?p2 @ CHR ''&'' # ?p3 @ CHR ''&'' # ?rest"
  have keys: "QueryEscape ''correlator'' = ''correlator''" "QueryEscape ''user'' = ''user''"
    "QueryEscape ''passwd'' = ''passwd''"
    by (simp_all add: QueryEscape_def escape_char_def unreserved_def byte_def)
  have "split_on (CHR ''&'') ?q = ?p1 # ?p2 # ?p3 # split_on (CHR ''&'') ?rest"
    by (simp add: split_on_append encode_pair_plain del: split_on.simps)
  then have "take 3 (ParseQuery ?q) =
      [Some (''correlator'', Correlator msg), Some (''user'', sUsername s), Some (''passwd'', sPassword s)]"
    by (simp add: ParseQuery_def numeral_3_eq_3)
  moreover have "buildDLRURL gq s msg =
      (if SourceQueue msg = [] \<or> SourceQueue msg = gq \<or> sDlrURLApiV2 s = [] then sDlrURL s
       else sDlrURLApiV2 s) @ ''?'' @ ?q"
    by (simp add: buildDLRURL_def encode_pair_def keys)
  ultimately show ?thesis by (auto simp: NewCMSender_def NewBaseSMPPSender_def)
qed

end
