(* ===== verification/At_Sender.thy ===== *)
theory At_Sender
  imports Smpp_Sender
begin

text \<open>
  \<^verbatim>\<open>internal/sms/adapters/mno/africas_talking.go\<close>: international messages over the
  AfricasTalking REST API. The one mutable field, \<^verbatim>\<open>balanceDepletedUntil\<close>, travels with the
  world; its zero value is \<open>None\<close>.
\<close>

record at_sender =
  aSandboxURL :: string
  aProductionURL :: string
  aMode :: string
  aApiKey :: string
  aApiKeyProd :: string
  aUsername :: string
  aBreaker :: "network option"
  aMetrics :: bool
  aBalanceCooldown :: int

type_synonym at_world = "int option \<times> world"

definition NewAfricasTalkingSender :: "at_sender \<Rightarrow> at_sender" where
  "NewAfricasTalkingSender cfg =
     cfg\<lparr>aBalanceCooldown := (if aBalanceCooldown cfg \<le> 0 then 5 * 60 * 10 ^ 9 else aBalanceCooldown cfg)\<rparr>"

definition classifyATRejection :: "int \<Rightarrow> result_type" where
  "classifyATRejection statusCode =
     (if statusCode \<in> {500, 501} then ResultRetryable else ResultPermanent)"

definition balanceCooldownRemaining :: "env \<Rightarrow> at_world \<Rightarrow> int" where
  "balanceCooldownRemaining e aw =
     (case fst aw of
        None \<Rightarrow> 0
      | Some until \<Rightarrow>
          (let remaining = until - time_Now e (snd aw) in if remaining > 0 then remaining else 0))"

definition tripBalanceCooldown :: "env \<Rightarrow> at_sender \<Rightarrow> at_world \<Rightarrow> at_world" where
  "tripBalanceCooldown e s aw = (Some (time_Now e (snd aw) + aBalanceCooldown s), snd aw)"

section \<open>The response\<close>

record at_recipient =
  atStatusCode :: int
  atNumber :: string
  atStatus :: string
  atCost :: string
  atMessageID :: string

definition zero_recipient :: at_recipient where
  "zero_recipient = \<lparr>atStatusCode = 0, atNumber = [], atStatus = [], atCost = [], atMessageID = []\<rparr>"

text \<open>Decoding into a struct that may already hold values: a key that is absent or \<^verbatim>\<open>null\<close> keeps
  them.\<close>

definition decode_recipient :: "at_recipient \<Rightarrow> json \<Rightarrow> at_recipient option" where
  "decode_recipient old j =
     (case json_members j of
        None \<Rightarrow> None
      | Some kvs \<Rightarrow>
          (case (decode_last decode_int (atStatusCode old) (json_field ''statusCode'' kvs),
                 decode_last decode_string (atNumber old) (json_field ''number'' kvs),
                 decode_last decode_string (atStatus old) (json_field ''status'' kvs),
                 decode_last decode_string (atCost old) (json_field ''cost'' kvs),
                 decode_last decode_string (atMessageID old) (json_field ''messageId'' kvs)) of
             (Some code, Some number, Some status, Some cost, Some mid) \<Rightarrow>
               Some \<lparr>atStatusCode = code, atNumber = number, atStatus = status, atCost = cost, atMessageID = mid\<rparr>
           | _ \<Rightarrow> None))"

text \<open>An array is decoded element by element into the slice that is there.\<close>

fun decode_elems :: "('a \<Rightarrow> json \<Rightarrow> 'a option) \<Rightarrow> 'a \<Rightarrow> 'a list \<Rightarrow> json list \<Rightarrow> 'a list option" where
  "decode_elems dec zero old [] = Some []"
| "decode_elems dec zero old (j # js) =
     (case dec (case old of [] \<Rightarrow> zero | x # _ \<Rightarrow> x) j of
        None \<Rightarrow> None
      | Some x \<Rightarrow> map_option (Cons x) (decode_elems dec zero (drop 1 old) js))"

fun decode_recipients :: "at_recipient list \<Rightarrow> json \<Rightarrow> at_recipient list option" where
  "decode_recipients old (JArr js) = decode_elems decode_recipient zero_recipient old js"
| "decode_recipients old JNull = Some []"
| "decode_recipients old _ = None"

definition decode_message_data :: "at_recipient list \<Rightarrow> json \<Rightarrow> at_recipient list option" where
  "decode_message_data old j =
     (case json_members j of
        None \<Rightarrow> None
      | Some kvs \<Rightarrow>
          (case (string_field ''Message'' kvs, decode_last decode_recipients old (json_field ''Recipients'' kvs)) of
             (Some _, Some rs) \<Rightarrow> Some rs
           | _ \<Rightarrow> None))"

text \<open>\<^verbatim>\<open>json.Unmarshal(body, &parsed)\<close> and \<^verbatim>\<open>parsed.SMSMessageData.Recipients\<close>.\<close>

definition decode_at_response :: "json \<Rightarrow> at_recipient list option" where
  "decode_at_response j =
     (case json_members j of
        None \<Rightarrow> None
      | Some kvs \<Rightarrow> decode_last decode_message_data [] (json_field ''SMSMessageData'' kvs))"

section \<open>Sending\<close>

definition baseURLAndKey :: "at_sender \<Rightarrow> string \<times> string" where
  "baseURLAndKey s =
     (if ToUpper (aMode s) = ''PRODUCTION'' then (aProductionURL s, aApiKeyProd s)
      else (aSandboxURL s, aApiKey s))"

definition at_form :: "at_sender \<Rightarrow> message \<Rightarrow> url_values" where
  "at_form s msg =
     (let to = ''+'' @ TrimPrefix (TrimSpace (MSISDN msg)) ''+'';
          form = Values_Set ''username'' (aUsername s) [];
          form = Values_Set ''to'' to form;
          form = Values_Set ''message'' (Content msg) form
      in Values_Set ''from'' (Sender msg) form)"

definition at_request :: "at_sender \<Rightarrow> message \<Rightarrow> http_request" where
  "at_request s msg =
     \<lparr>hMethod = ''POST'', hURL = fst (baseURLAndKey s),
      hHeaders = [(''Content-Type'', ''application/x-www-form-urlencoded''), (''Accept'', ''application/json''),
                  (''apiKey'', snd (baseURLAndKey s))],
      hBody = FormBody (Values_Encode (at_form s msg))\<rparr>"

definition at_delivered :: "at_recipient \<Rightarrow> bool" where
  "at_delivered r \<longleftrightarrow> atStatus r = ''Success'' \<or> atStatusCode r = 101 \<or> atStatusCode r = 100 \<or> atStatusCode r = 102"

definition at_rejection :: "at_recipient \<Rightarrow> goerr" where
  "at_rejection r =
     Wrapf (error_text ErrMNORejected @ '': status='' @ atStatus r @ '' statusCode='' @ Itoa (atStatusCode r))
       ErrMNORejected"

text \<open>What the code does with the first recipient of an accepted response.\<close>

definition at_recipient_result ::
  "env \<Rightarrow> at_sender \<Rightarrow> message \<Rightarrow> string \<Rightarrow> int \<Rightarrow> at_recipient \<Rightarrow> at_world \<Rightarrow> send_result \<times> at_world" where
  "at_recipient_result e s msg responseStr latency first aw =
     (if at_delivered first then
        ((NewSuccessResult (time_Now e (snd aw)) msg responseStr latency)
           \<lparr>rExternalMessageID := atMessageID first, rNetworkCode := Itoa (atStatusCode first)\<rparr>, aw)
      else
        (let aw = (if atStatusCode first = 405 then tripBalanceCooldown e s aw else aw);
             now = time_Now e (snd aw);
             result = (if classifyATRejection (atStatusCode first) = ResultRetryable
                       then NewRetryableResult now msg (at_rejection first) latency
                       else NewPermanentResult now msg (at_rejection first) latency)
         in (result\<lparr>rNetworkCode := Itoa (atStatusCode first)\<rparr>, aw)))"

definition at_executeSend ::
  "env \<Rightarrow> at_sender \<Rightarrow> ctxid \<Rightarrow> message \<Rightarrow> int \<Rightarrow> at_world \<Rightarrow> send_result \<times> at_world" where
  "at_executeSend e s ctx msg start aw =
     (let (depleted, w) = aw in
      case newRequest e (fst (baseURLAndKey s)) of
        Some err \<Rightarrow> (NewPermanentResult (time_Now e w) msg err (time_Since e w start), depleted, w)
      | None \<Rightarrow>
     (case http_Do e ctx (at_request s msg) w of
        (HttpErr err, w) \<Rightarrow>
          (NewRetryableResult (time_Now e w) msg ErrMNOUnavailable (time_Since e w start), depleted, w)
      | (HttpResp status body, w) \<Rightarrow>
     (case bReadErr body of
        Some err \<Rightarrow> (NewRetryableResult (time_Now e w) msg err (time_Since e w start), depleted, w)
      | None \<Rightarrow>
          (let latency = time_Since e w start;
               responseStr = bText body;
               mnoErr = MNOError NetworkINTNL status responseStr None in
           if status \<noteq> 200 \<and> status \<noteq> 201 then
             (if MNOError_IsRetryable status None
              then (NewRetryableResult (time_Now e w) msg mnoErr latency, depleted, w)
              else (NewPermanentResult (time_Now e w) msg mnoErr latency, depleted, w))
           else
             (case unmarshal_body body of
                Inl err \<Rightarrow> (NewRetryableResult (time_Now e w) msg ErrMNOInvalidResponse latency, depleted, w)
              | Inr j \<Rightarrow>
             (case decode_at_response j of
                None \<Rightarrow> (NewRetryableResult (time_Now e w) msg ErrMNOInvalidResponse latency, depleted, w)
              | Some [] \<Rightarrow> (NewPermanentResult (time_Now e w) msg ErrMNOInvalidResponse latency, depleted, w)
              | Some (first # _) \<Rightarrow>
                  at_recipient_result e s msg responseStr latency first (depleted, w)))))))"

text \<open>The call through the breaker; a rejected call leaves the result nil.\<close>

definition at_through_breaker ::
  "env \<Rightarrow> network option \<Rightarrow> message \<Rightarrow> int \<Rightarrow> (at_world \<Rightarrow> send_result \<times> at_world) \<Rightarrow> at_world \<Rightarrow>
   send_result \<times> at_world" where
  "at_through_breaker e cb msg start exec aw =
     (case cb of
        None \<Rightarrow> exec aw
      | Some n \<Rightarrow>
          (let (depleted, w) = aw in
           case cb_Execute e n
                  (\<lambda>w. case exec (depleted, w) of (result, depleted, w) \<Rightarrow>
                     (((result, depleted), if IsSuccess result then None else rError result), w)) w of
             ((Some (result, depleted), _), w) \<Rightarrow> (result, depleted, w)
           | ((None, err), w) \<Rightarrow>
               (NewRetryableResult (time_Now e w) msg (case err of Some x \<Rightarrow> x | None \<Rightarrow> ErrCircuitOpen)
                  (time_Since e w start), depleted, w)))"

definition at_Send :: "env \<Rightarrow> at_sender \<Rightarrow> ctxid \<Rightarrow> message \<Rightarrow> at_world \<Rightarrow> send_result \<times> at_world" where
  "at_Send e s ctx msg aw =
     (let start = time_Now e (snd aw) in
      if balanceCooldownRemaining e aw > 0 then
        (NewPermanentResult (time_Now e (snd aw)) msg ErrInsufficientBalance (time_Since e (snd aw) start), aw)
      else if (case aBreaker s of None \<Rightarrow> False | Some n \<Rightarrow> cb_IsOpen e n (snd aw)) then
        (NewPermanentResult (time_Now e (snd aw)) msg ErrCircuitOpen (time_Since e (snd aw) start), aw)
      else
        (let (result, depleted, w) =
           at_through_breaker e (aBreaker s) msg start (at_executeSend e s ctx msg start) aw
         in (result, depleted, record_metrics e (aMetrics s) NetworkINTNL result w)))"

definition at_IsHealthy :: "env \<Rightarrow> at_sender \<Rightarrow> world \<Rightarrow> bool" where
  "at_IsHealthy e s w = (case aBreaker s of None \<Rightarrow> True | Some n \<Rightarrow> \<not> cb_IsOpen e n w)"

section \<open>Contract\<close>

lemma at_recipient_result_contract:
  "send_contract msg (fst (at_recipient_result e s msg resp l first aw))"
  "snd (snd (at_recipient_result e s msg resp l first aw)) = snd aw"
  by (auto simp: at_recipient_result_def Let_def send_simps tripBalanceCooldown_def)

lemma at_executeSend_contract:
  "send_contract msg (fst (at_executeSend e s ctx msg start aw))"
  "quiet sender_event (snd aw) (snd (snd (at_executeSend e s ctx msg start aw)))"
  by (cases aw; auto simp: at_executeSend_def http_Do_def Let_def send_simps at_recipient_result_contract
      split: option.splits http_outcome.splits sum.splits list.splits)+

lemma at_through_breaker_cases:
  assumes "at_through_breaker e cb msg start exec (d, w) = (r, d', w')"
  shows "(\<exists>w1. exec (d, w) = (r, d', w1) \<and> (w' = w1 \<or> (\<exists>n err. w' = emit e (EvBreaker n err) w1))) \<or>
         (\<exists>n err t l. r = NewRetryableResult t msg err l \<and> d' = d \<and> w' = emit e (EvBreakerReject n err) w)"
  using assms
  by (cases "exec (d, w)")
    (auto simp: at_through_breaker_def cb_Execute_def split: option.splits)

lemma at_breaker_contract:
  assumes "at_through_breaker e cb m st (at_executeSend e s ctx m st) (d, w) = (r, d', w')"
  shows "send_contract m r" and "quiet sender_event w w'"
  using at_through_breaker_cases [OF assms] at_executeSend_contract(1) [where msg = m and e = e and s = s and ctx = ctx and start = st and aw = "(d, w)"]
    at_executeSend_contract(2) [where msg = m and e = e and s = s and ctx = ctx and start = st and aw = "(d, w)"]
  by (auto simp: send_simps)

lemma at_Send_cases:
  assumes "at_Send e s ctx m (d, w) = (r, d', w')"
  shows "(balanceCooldownRemaining e (d, w) > 0 \<and> r = NewPermanentResult (time_Now e w) m ErrInsufficientBalance 0 \<and>
            d' = d \<and> w' = w) \<or>
         (balanceCooldownRemaining e (d, w) \<le> 0 \<and> \<not> at_IsHealthy e s w \<and>
            r = NewPermanentResult (time_Now e w) m ErrCircuitOpen 0 \<and> d' = d \<and> w' = w) \<or>
         (balanceCooldownRemaining e (d, w) \<le> 0 \<and> at_IsHealthy e s w \<and>
            (\<exists>w1. at_through_breaker e (aBreaker s) m (time_Now e w) (at_executeSend e s ctx m (time_Now e w)) (d, w) =
              (r, d', w1) \<and> w' = record_metrics e (aMetrics s) NetworkINTNL r w1))"
  using assms
  by (cases "aBreaker s")
    (auto simp: at_Send_def at_IsHealthy_def Let_def time_Since_def time_Now_def split: if_splits prod.splits)

text \<open>Sending as a function of the message and the world alone, for any state of the cooldown.\<close>

definition at_send_from :: "env \<Rightarrow> at_sender \<Rightarrow> ctxid \<Rightarrow> int option \<Rightarrow> message \<Rightarrow> world \<Rightarrow> send_result \<times> world" where
  "at_send_from e s ctx d m w = (case at_Send e s ctx m (d, w) of (r, d', w') \<Rightarrow> (r, w'))"

interpretation at: mno_sender "at_send_from e s ctx d" for e s ctx d
proof unfold_locales
  fix m w
  obtain r d' w' where s: "at_Send e s ctx m (d, w) = (r, d', w')" by (cases "at_Send e s ctx m (d, w)") auto
  have "send_contract m r \<and> quiet sender_event w w'"
    using at_Send_cases [OF s] at_breaker_contract [of e "aBreaker s" m "time_Now e w" s ctx d w r d']
    by (auto simp: send_simps)
  then show "send_contract m (fst (at_send_from e s ctx d m w))" "quiet sender_event w (snd (at_send_from e s ctx d m w))"
    by (simp_all add: at_send_from_def s)
qed

section \<open>Behaviour\<close>

text \<open>When an answer counts as an accepted message: status 200 or 201 and a first recipient that was
  delivered to.\<close>

definition at_first :: "http_body \<Rightarrow> at_recipient option" where
  "at_first body =
     (case unmarshal_body body of
        Inl err \<Rightarrow> None
      | Inr j \<Rightarrow> (case decode_at_response j of Some (first # _) \<Rightarrow> Some first | _ \<Rightarrow> None))"

fun at_first_of :: "http_outcome \<Rightarrow> at_recipient option" where
  "at_first_of (HttpResp status body) =
     (if bReadErr body = None \<and> (status = 200 \<or> status = 201) then at_first body else None)"
| "at_first_of (HttpErr err) = None"

definition at_accepted :: "http_outcome \<Rightarrow> bool" where
  "at_accepted out \<longleftrightarrow> (case at_first_of out of None \<Rightarrow> False | Some r \<Rightarrow> at_delivered r)"

definition at_depletes :: "http_outcome \<Rightarrow> bool" where
  "at_depletes out \<longleftrightarrow>
     (case at_first_of out of None \<Rightarrow> False | Some r \<Rightarrow> \<not> at_delivered r \<and> atStatusCode r = 405)"

text \<open>One call: no request and no success, or one request whose answer decides the result and the
  cooldown.\<close>

definition at_call ::
  "env \<Rightarrow> at_sender \<Rightarrow> message \<Rightarrow> send_result \<Rightarrow> int option \<Rightarrow> int option \<Rightarrow> world \<Rightarrow> world \<Rightarrow> bool" where
  "at_call e s msg r d d' w w' \<longleftrightarrow>
     (http_calls w w' = [] \<and> \<not> IsSuccess r \<and> d' = d) \<or>
     (\<exists>out t. http_calls w w' = [EvHttp (at_request s msg) out] \<and> IsSuccess r = at_accepted out \<and>
        d' = (if at_depletes out then Some (t + aBalanceCooldown s) else d))"

lemma at_executeSend_call:
  assumes "at_executeSend e s ctx msg start (d, w) = (r, d', w')"
  shows "at_call e s msg r d d' w w'"
proof (cases "newRequest e (fst (baseURLAndKey s))")
  case (Some err)
  then show ?thesis using assms by (auto simp: at_executeSend_def at_call_def IsSuccess_def)
next
  case None
  obtain out where out: "http_Do e ctx (at_request s msg) w = (out, emit e (EvHttp (at_request s msg) out) w)"
    by (auto simp: http_Do_def Let_def)
  let ?w1 = "emit e (EvHttp (at_request s msg) out) w"
  have ww: "w' = ?w1" and r: "IsSuccess r = at_accepted out"
    and d: "d' = (if at_depletes out then Some (time_Now e ?w1 + aBalanceCooldown s) else d)"
    using assms None out
    by (auto simp: at_executeSend_def at_recipient_result_def at_accepted_def at_depletes_def at_first_def
        tripBalanceCooldown_def Let_def IsSuccess_def
        split: http_outcome.splits option.splits sum.splits list.splits if_splits)
  have "http_calls w w' = [EvHttp (at_request s msg) out]" by (simp add: ww)
  with r d show ?thesis unfolding at_call_def by blast
qed

lemma at_Send_call:
  assumes "at_through_breaker e cb m st (at_executeSend e s ctx m st) (d, w) = (r, d', w1)"
  shows "at_call e s m r d d' w (record_metrics e b n r w1)"
proof -
  have le: "world_le w w1" using at_breaker_contract(2) [OF assms] by (rule quiet_le)
  have "at_call e s m r d d' w w1"
    using at_through_breaker_cases [OF assms]
  proof
    assume "\<exists>w2. at_executeSend e s ctx m st (d, w) = (r, d', w2) \<and> (w1 = w2 \<or> (\<exists>n err. w1 = emit e (EvBreaker n err) w2))"
    then obtain w2 where x: "at_executeSend e s ctx m st (d, w) = (r, d', w2)"
      and w1: "w1 = w2 \<or> (\<exists>n err. w1 = emit e (EvBreaker n err) w2)" by blast
    have "world_le w w2"
      using at_executeSend_contract(2) [where msg = m and e = e and s = s and ctx = ctx and start = st and aw = "(d, w)"] x
      by (simp add: quiet_le)
    then have "http_calls w w1 = http_calls w w2" using w1 by auto
    then show ?thesis using at_executeSend_call [OF x] by (simp add: at_call_def)
  qed (auto simp: at_call_def IsSuccess_def)
  then show ?thesis using le by (simp add: at_call_def)
qed

lemma at_Send_outcome:
  assumes "at_Send e s ctx m (d, w) = (r, d', w')"
  shows "if balanceCooldownRemaining e (d, w) > 0 then
       r = NewPermanentResult (time_Now e w) m ErrInsufficientBalance 0 \<and> d' = d \<and> w' = w
     else if \<not> at_IsHealthy e s w then
       r = NewPermanentResult (time_Now e w) m ErrCircuitOpen 0 \<and> d' = d \<and> w' = w
     else at_call e s m r d d' w w'"
  using at_Send_cases [OF assms] at_Send_call by fastforce

text \<open>C9. Sending over AfricasTalking makes at most one HTTP request, the one built for the message, and
  none while the balance cooldown runs or the breaker is open (the message then fails permanently).
  The result is a success exactly when that request was answered with status 200 or 201 and a first
  recipient with status \<^verbatim>\<open>Success\<close> or code 100, 101 or 102.\<close>

theorem at_Send_at_most_once:
  "let (r, d', w') = at_Send e s ctx msg (d, w) in
     if balanceCooldownRemaining e (d, w) > 0 then
       r = NewPermanentResult (time_Now e w) msg ErrInsufficientBalance 0 \<and> d' = d \<and> w' = w
     else if \<not> at_IsHealthy e s w then
       r = NewPermanentResult (time_Now e w) msg ErrCircuitOpen 0 \<and> d' = d \<and> w' = w
     else (http_calls w w' = [] \<and> \<not> IsSuccess r) \<or>
          (\<exists>out. http_calls w w' = [EvHttp (at_request s msg) out] \<and> IsSuccess r = at_accepted out)"
proof -
  obtain r d' w' where s: "at_Send e s ctx msg (d, w) = (r, d', w')" by (cases "at_Send e s ctx msg (d, w)") auto
  show ?thesis
    using at_Send_outcome [OF s] by (auto simp: s at_call_def split: if_splits)
qed

text \<open>The balance cooldown: it starts only when AfricasTalking answered with code 405 (insufficient
  balance), the message is then no success, and until the configured time has passed every further
  message fails permanently with \<^verbatim>\<open>ErrInsufficientBalance\<close> without any request; the configured
  time is positive.\<close>

theorem at_balance_cooldown:
  assumes "at_Send e (NewAfricasTalkingSender cfg) ctx m (d, w) = (r, d', w')" and "d' \<noteq> d"
  shows "\<not> IsSuccess r \<and> 0 < aBalanceCooldown (NewAfricasTalkingSender cfg) \<and>
    (\<exists>out. http_calls w w' = [EvHttp (at_request (NewAfricasTalkingSender cfg) m) out] \<and> at_depletes out) \<and>
    (\<exists>t. d' = Some (t + aBalanceCooldown (NewAfricasTalkingSender cfg)) \<and>
      (\<forall>m2 w2. time_Now e w2 < t + aBalanceCooldown (NewAfricasTalkingSender cfg) \<longrightarrow>
         at_Send e (NewAfricasTalkingSender cfg) ctx m2 (d', w2) =
           (NewPermanentResult (time_Now e w2) m2 ErrInsufficientBalance 0, d', w2)))"
proof -
  let ?s = "NewAfricasTalkingSender cfg"
  have "at_call e ?s m r d d' w w'" using at_Send_outcome [OF assms(1)] assms(2) by (auto split: if_splits)
  then obtain out t where o: "http_calls w w' = [EvHttp (at_request ?s m) out]" "IsSuccess r = at_accepted out"
    "at_depletes out" "d' = Some (t + aBalanceCooldown ?s)"
    using assms(2) by (auto simp: at_call_def split: if_splits)
  have "\<not> IsSuccess r" using o(2,3) by (auto simp: at_accepted_def at_depletes_def split: option.splits)
  moreover have "0 < aBalanceCooldown ?s" by (simp add: NewAfricasTalkingSender_def)
  moreover have "at_Send e ?s ctx m2 (d', w2) = (NewPermanentResult (time_Now e w2) m2 ErrInsufficientBalance 0, d', w2)"
    if "time_Now e w2 < t + aBalanceCooldown ?s" for m2 w2
    using that by (simp add: at_Send_def balanceCooldownRemaining_def o(4) Let_def time_Since_def time_Now_def)
  ultimately show ?thesis using o by blast
qed

definition sample_at :: at_sender where
  "sample_at = \<lparr>aSandboxURL = ''https://sandbox'', aProductionURL = ''https://live'', aMode = ''sandbox'',
     aApiKey = ''k'', aApiKeyProd = ''kp'', aUsername = ''u'', aBreaker = None, aMetrics = True, aBalanceCooldown = 0\<rparr>"

definition broke_env :: env where
  "broke_env = base_env\<lparr>httpDo := \<lambda>_ _ _. HttpResp 201 \<lparr>bText = [], bReadErr = None,
     bJson = Inr (JObj [(''SMSMessageData'', JObj [(''Recipients'', JArr [JObj [(''statusCode'', JInt 405)]])])]),
     bTrailing = False\<rparr>\<rparr>"

theorem at_balance_cooldown_witness:
  "\<exists>r d' w'. at_Send broke_env (NewAfricasTalkingSender sample_at) AppCtx sample_message (None, init_world) = (r, d', w') \<and>
     at_Send broke_env (NewAfricasTalkingSender sample_at) AppCtx sample_message (d', w') =
       (NewPermanentResult (time_Now broke_env w') sample_message ErrInsufficientBalance 0, d', w')"
proof -
  let ?s = "NewAfricasTalkingSender sample_at"
  obtain r d' w' where s: "at_Send broke_env ?s AppCtx sample_message (None, init_world) = (r, d', w')"
    by (cases "at_Send broke_env ?s AppCtx sample_message (None, init_world)") auto
  have "fst (snd (at_Send broke_env ?s AppCtx sample_message (None, init_world))) = Some (1 + 300000000000)"
    "time_Now broke_env (snd (snd (at_Send broke_env ?s AppCtx sample_message (None, init_world)))) = 3"
    by code_simp+
  then have d: "d' = Some (1 + 300000000000)" "time_Now broke_env w' = 3" by (simp_all add: s)
  have "aBalanceCooldown ?s = 300000000000" by (simp add: NewAfricasTalkingSender_def sample_at_def)
  with at_balance_cooldown [OF s] d show ?thesis using s by force
qed

end
