(* ===== verification/At_Reporter.thy ===== *)
theory At_Reporter
  imports At_Sender
begin

text \<open>
  \<^verbatim>\<open>internal/sms/adapters/httpapi/africas_talking_reporter.go\<close>: reports the outcome of a send
  to the PHP API, one POST request with a JSON body.
\<close>

record at_reporter =
  repURL :: string
  repToken :: string

record send_result_payload =
  plOutboxID :: int
  plSuccess :: bool
  plMessageID :: string
  plStatus :: string
  plNetworkCode :: string
  plMSISDN :: string
  plSender :: string

definition report_payload :: "send_result \<Rightarrow> send_result_payload" where
  "report_payload result =
     (let success = IsSuccess result;
          status = (case rError result of
              Some err \<Rightarrow> if \<not> success then error_text err else ''Success''
            | None \<Rightarrow> if success then ''Success'' else rNetworkCode result)
      in \<lparr>plOutboxID = OutboxID (rMessage result), plSuccess = success,
          plMessageID = (if success then rExternalMessageID result else []), plStatus = status,
          plNetworkCode = rNetworkCode result, plMSISDN = MSISDN (rMessage result),
          plSender = Sender (rMessage result)\<rparr>)"

text \<open>\<^verbatim>\<open>json.Marshal\<close> with \<^verbatim>\<open>omitempty\<close>.\<close>

definition omitempty :: "string \<Rightarrow> string \<Rightarrow> (string \<times> json) list" where
  "omitempty name v = (if v = [] then [] else [(name, JStr v)])"

definition marshal_payload :: "send_result_payload \<Rightarrow> json" where
  "marshal_payload p =
     JObj ([(''outboxId'', JInt (plOutboxID p)), (''success'', JBool (plSuccess p))] @
           omitempty ''id'' (plMessageID p) @ omitempty ''status'' (plStatus p) @
           omitempty ''networkCode'' (plNetworkCode p) @ omitempty ''msisdn'' (plMSISDN p) @
           omitempty ''sender'' (plSender p))"

definition report_request :: "at_reporter \<Rightarrow> send_result \<Rightarrow> http_request" where
  "report_request r result =
     \<lparr>hMethod = ''POST'', hURL = repURL r,
      hHeaders = [(''Content-Type'', ''application/json''), (''X-AT-Consumer-Token'', repToken r)],
      hBody = JsonBody (marshal_payload (report_payload result))\<rparr>"

definition Report :: "env \<Rightarrow> at_reporter \<Rightarrow> ctxid \<Rightarrow> send_result \<Rightarrow> world \<Rightarrow> goerr option \<times> world" where
  "Report e r ctx result w =
     (case newRequest e (repURL r) of
        Some err \<Rightarrow> (Some (Wrapf (''create send-result request: '' @ error_text err) err), w)
      | None \<Rightarrow>
          (case http_Do e ctx (report_request r result) w of
             (HttpErr err, w) \<Rightarrow> (Some (Wrapf (''send-result request failed: '' @ error_text err) err), w)
           | (HttpResp status body, w) \<Rightarrow>
               if status < 200 \<or> status \<ge> 300 then
                 (Some (ErrExternal (''send-result callback returned status '' @ Itoa status)), w)
               else (None, w)))"

section \<open>Behaviour\<close>

text \<open>A report that the API acknowledged.\<close>

fun reported :: "at_reporter \<Rightarrow> send_result \<Rightarrow> event \<Rightarrow> bool" where
  "reported r result (EvHttp req (HttpResp status body)) = (req = report_request r result \<and> is2xx status)"
| "reported r result _ = False"

lemma Report_facts:
  assumes "Report e r ctx result w = (err, w')"
  shows "quiet sender_event w w'"
    and "err = None \<Longrightarrow> \<exists>x. new_events w w' = [x] \<and> reported r result x"
    and "http_calls w w' = [] \<or> (\<exists>out. http_calls w w' = [EvHttp (report_request r result) out])"
  using assms
  by (auto simp: Report_def http_Do_def Let_def is2xx_def
      split: option.splits http_outcome.splits if_splits)

text \<open>What the API reads from the body: the fields of the payload, with the absent ones empty.\<close>

lemma report_fields:
  "json_members (marshal_payload p) = Some
     ([(''outboxId'', JInt (plOutboxID p)), (''success'', JBool (plSuccess p))] @
      omitempty ''id'' (plMessageID p) @ omitempty ''status'' (plStatus p) @
      omitempty ''networkCode'' (plNetworkCode p) @ omitempty ''msisdn'' (plMSISDN p) @
      omitempty ''sender'' (plSender p))"
  by (simp add: marshal_payload_def)

definition decode_payload :: "json \<Rightarrow> (int \<times> string \<times> string \<times> string \<times> string \<times> string) option" where
  "decode_payload j =
     (case json_members j of
        None \<Rightarrow> None
      | Some kvs \<Rightarrow>
          (case (int_field ''outboxId'' kvs, string_field ''id'' kvs, string_field ''status'' kvs,
                 string_field ''networkCode'' kvs, string_field ''msisdn'' kvs, string_field ''sender'' kvs) of
             (Some i, Some a, Some b, Some c, Some d, Some f) \<Rightarrow> Some (i, a, b, c, d, f)
           | _ \<Rightarrow> None))"

lemma json_field_append [simp]: "json_field n (xs @ ys) = json_field n xs @ json_field n ys"
  by (simp add: json_field_def)

lemma json_field_omitempty:
  "json_field n (omitempty k v) = (if ToUpper k = ToUpper n \<and> v \<noteq> [] then [JStr v] else [])"
  by (simp add: json_field_def omitempty_def)

lemma json_field_Cons:
  "json_field n ((k, v) # kvs) = (if ToUpper k = ToUpper n then [v] else []) @ json_field n kvs"
  "json_field n [] = []"
  by (simp_all add: json_field_def)

lemma payload_keys:
  "ToUpper ''outboxId'' = ''OUTBOXID''" "ToUpper ''success'' = ''SUCCESS''" "ToUpper ''id'' = ''ID''"
  "ToUpper ''status'' = ''STATUS''" "ToUpper ''networkCode'' = ''NETWORKCODE''" "ToUpper ''msisdn'' = ''MSISDN''"
  "ToUpper ''sender'' = ''SENDER''"
  by code_simp+

text \<open>The report carries the outcome: a reader of the JSON body gets back the outbox id, the message
  id (only for a success), the status text, the network code, the number and the sender id, whatever
  bytes they hold, although empty fields are left out of the body; a message id is never reported
  for a message that was not sent.\<close>

theorem report_roundtrip:
  assumes "int64 (OutboxID (rMessage result))"
  shows "decode_payload (marshal_payload (report_payload result)) =
     Some (OutboxID (rMessage result), if IsSuccess result then rExternalMessageID result else [],
       plStatus (report_payload result), rNetworkCode result, MSISDN (rMessage result), Sender (rMessage result))"
proof -
  let ?p = "report_payload result"
  let ?kvs = "[(''outboxId'', JInt (plOutboxID ?p)), (''success'', JBool (plSuccess ?p))] @
      omitempty ''id'' (plMessageID ?p) @ omitempty ''status'' (plStatus ?p) @
      omitempty ''networkCode'' (plNetworkCode ?p) @ omitempty ''msisdn'' (plMSISDN ?p) @
      omitempty ''sender'' (plSender ?p)"
  have f: "plOutboxID ?p = OutboxID (rMessage result)" "plMessageID ?p = (if IsSuccess result then rExternalMessageID result else [])"
    "plNetworkCode ?p = rNetworkCode result" "plMSISDN ?p = MSISDN (rMessage result)" "plSender ?p = Sender (rMessage result)"
    by (simp_all add: report_payload_def Let_def)
  have s: "decode_last decode_string [] (if v = [] then [] else [JStr v]) = Some v" for v :: string by simp
  note keys = json_field_Cons json_field_omitempty payload_keys
  have "int_field ''outboxId'' ?kvs = Some (plOutboxID ?p)"
    using assms by (simp add: int_field_def keys f(1))
  moreover have "string_field ''id'' ?kvs = Some (plMessageID ?p)" "string_field ''status'' ?kvs = Some (plStatus ?p)"
    "string_field ''networkCode'' ?kvs = Some (plNetworkCode ?p)" "string_field ''msisdn'' ?kvs = Some (plMSISDN ?p)"
    "string_field ''sender'' ?kvs = Some (plSender ?p)"
    by (simp_all add: string_field_def keys)
  ultimately show ?thesis unfolding decode_payload_def report_fields by (simp add: f)
qed

theorem report_roundtrip_witness:
  "int64 (OutboxID sample_message) \<and>
   decode_payload (marshal_payload (report_payload (NewPermanentResult 0 sample_message ErrMNORejected 0))) =
     Some (OutboxID sample_message, [], ''message rejected by MNO'', [], MSISDN sample_message, Sender sample_message)"
proof -
  let ?r = "NewPermanentResult 0 sample_message ErrMNORejected 0"
  have m: "OutboxID (rMessage ?r) = OutboxID sample_message" "MSISDN (rMessage ?r) = MSISDN sample_message"
    "Sender (rMessage ?r) = Sender sample_message" "\<not> IsSuccess ?r" "rNetworkCode ?r = []"
    "plStatus (report_payload ?r) = ''message rejected by MNO''"
    by (simp_all add: NewPermanentResult_def SetError_def IsSuccess_def report_payload_def Let_def)
  have i: "int64 (OutboxID sample_message)" by (simp add: sample_message_def)
  show ?thesis using report_roundtrip [of ?r] i m by simp
qed

end
