(* ===== verification/Token_Cache.thy ===== *)
theory Token_Cache
  imports World
begin

text \<open>
  \<^verbatim>\<open>internal/sms/adapters/redis/token_cache.go\<close>: the operator's bearer token in Redis. Redis
  itself is a parameter; \<open>redis_sound\<close> states what its documentation promises of \<^verbatim>\<open>GET\<close>: a value
  that is returned is the one last written and not deleted since (it may be gone, because it
  expired, and any command may fail).
\<close>

definition NewTokenCache :: "env \<Rightarrow> world \<Rightarrow> goerr option \<times> world" where
  "NewTokenCache e w =
     (case redis_Do e RPing w of (RErr err, w) \<Rightarrow> (Some err, w) | (_, w) \<Rightarrow> (None, w))"

definition tc_Get :: "env \<Rightarrow> string \<Rightarrow> world \<Rightarrow> (string \<times> bool \<times> goerr option) \<times> world" where
  "tc_Get e key w =
     (case redis_Do e (RGet key) w of
        (RNil, w) \<Rightarrow> (([], False, None), w)
      | (RErr err, w) \<Rightarrow> (([], False, Some err), w)
      | (RStr val, w) \<Rightarrow> ((val, True, None), w)
      | (_, w) \<Rightarrow> (([], False, Some (ErrExternal ''redis: unexpected reply'')), w))"

definition tc_Set :: "env \<Rightarrow> string \<Rightarrow> string \<Rightarrow> int \<Rightarrow> world \<Rightarrow> goerr option \<times> world" where
  "tc_Set e key token ttl w =
     (case redis_Do e (RSet key token ttl) w of
        (RErr err, w) \<Rightarrow> (Some err, w)
      | (_, w) \<Rightarrow> (None, w))"

definition tc_Delete :: "env \<Rightarrow> string \<Rightarrow> world \<Rightarrow> goerr option \<times> world" where
  "tc_Delete e key w =
     (case redis_Do e (RDel key) w of
        (RErr err, w) \<Rightarrow> (Some err, w)
      | (_, w) \<Rightarrow> (None, w))"

definition tc_Exists :: "env \<Rightarrow> string \<Rightarrow> world \<Rightarrow> (bool \<times> goerr option) \<times> world" where
  "tc_Exists e key w =
     (case redis_Do e (RExists key) w of
        (RErr err, w) \<Rightarrow> ((False, Some err), w)
      | (RInt n, w) \<Rightarrow> ((n > 0, None), w)
      | (_, w) \<Rightarrow> ((False, Some (ErrExternal ''redis: unexpected reply'')), w))"

section \<open>Redis as a store\<close>

fun store_step :: "event \<Rightarrow> (string \<rightharpoonup> string) \<Rightarrow> (string \<rightharpoonup> string)" where
  "store_step (EvRedis (RSet k v ttl) (RErr err)) m = m"
| "store_step (EvRedis (RSet k v ttl) rep) m = m(k \<mapsto> v)"
| "store_step (EvRedis (RDel k) (RErr err)) m = m"
| "store_step (EvRedis (RDel k) rep) m = m(k := None)"
| "store_step _ m = m"

definition stored :: "event list \<Rightarrow> (string \<rightharpoonup> string)" where
  "stored t = fold store_step t Map.empty"

definition redis_sound :: "env \<Rightarrow> bool" where
  "redis_sound e \<longleftrightarrow> (\<forall>t k v. redisDo e t (RGet k) = RStr v \<longrightarrow> stored t k = Some v)"

text \<open>An environment whose Redis is an ordinary store.\<close>

definition store_env :: env where
  "store_env = base_env\<lparr>redisDo := (\<lambda>t c. case c of
     RGet k \<Rightarrow> (case stored t k of None \<Rightarrow> RNil | Some v \<Rightarrow> RStr v) | RDel k \<Rightarrow> RInt 1 | _ \<Rightarrow> ROk)\<rparr>"

lemma redis_sound_store_env [simp]: "redis_sound store_env"
  by (simp add: redis_sound_def store_env_def split: option.split)

lemma stored_snoc [simp]: "stored (t @ [ev]) = store_step ev (stored t)"
  by (simp add: stored_def)

lemma tc_world:
  "snd (tc_Get e k w) = emit e (EvRedis (RGet k) (redisDo e (trace w) (RGet k))) w"
  "snd (tc_Set e k v ttl w) = emit e (EvRedis (RSet k v ttl) (redisDo e (trace w) (RSet k v ttl))) w"
  "snd (tc_Delete e k w) = emit e (EvRedis (RDel k) (redisDo e (trace w) (RDel k))) w"
  by (simp_all add: tc_Get_def tc_Set_def tc_Delete_def redis_Do_def Let_def split: redis_reply.split)

lemma tc_Delete_stored:
  "fst (tc_Delete e k w) = None \<Longrightarrow> stored (trace (snd (tc_Delete e k w))) = (stored (trace w))(k := None)"
  by (auto simp: tc_Delete_def redis_Do_def Let_def split: redis_reply.splits)

lemma tc_Set_stored:
  "fst (tc_Set e k v ttl w) = None \<Longrightarrow> stored (trace (snd (tc_Set e k v ttl w))) = (stored (trace w))(k \<mapsto> v)"
  by (auto simp: tc_Set_def redis_Do_def Let_def split: redis_reply.splits)

lemma tc_Get_sound:
  "\<lbrakk> redis_sound e; tc_Get e k w = ((v, True, err), w') \<rbrakk> \<Longrightarrow> stored (trace w) k = Some v"
  by (auto simp: tc_Get_def redis_Do_def redis_sound_def Let_def split: redis_reply.splits)

text \<open>The token cache reports errors instead of hiding them: \<^verbatim>\<open>Get\<close> answers \<^verbatim>\<open>found\<close> only
  together with a stored value and no error, a missing key is no error, and a failed command is
  reported as the error Redis gave. On a sound Redis a token that was deleted successfully is never
  found again before it is written.\<close>

theorem token_cache_reports_errors:
  assumes "redis_sound e" and "tc_Delete e key w = (None, w1)"
  shows "(\<exists>err w2. tc_Get e key w1 = (([], False, err), w2)) \<and>
    (case fst (tc_Get e key' w) of (val, found, err) \<Rightarrow>
       (found \<longleftrightarrow> redisDo e (trace w) (RGet key') = RStr val) \<and> (found \<longrightarrow> err = None) \<and>
       (redisDo e (trace w) (RGet key') = RNil \<longrightarrow> \<not> found \<and> err = None) \<and>
       (\<forall>x. redisDo e (trace w) (RGet key') = RErr x \<longrightarrow> err = Some x))"
proof -
  have "stored (trace w1) key = None"
    using tc_Delete_stored [of e key w] assms(2) by simp
  then have "redisDo e (trace w1) (RGet key) \<noteq> RStr v" for v
    using assms(1) by (auto simp: redis_sound_def)
  then show ?thesis
    by (auto simp: tc_Get_def redis_Do_def Let_def split: redis_reply.splits)
qed

theorem token_cache_reports_errors_witness:
  "\<exists>w0 w1 err w2. tc_Set store_env ''tok'' ''secret'' 60 init_world = (None, w0) \<and>
     tc_Delete store_env ''tok'' w0 = (None, w1) \<and>
     tc_Get store_env ''tok'' w1 = (([], False, err), w2)"
proof -
  obtain w0 where s: "tc_Set store_env ''tok'' ''secret'' 60 init_world = (None, w0)"
    by (simp add: tc_Set_def redis_Do_def Let_def store_env_def)
  obtain w1 where d: "tc_Delete store_env ''tok'' w0 = (None, w1)"
    by (simp add: tc_Delete_def redis_Do_def Let_def store_env_def)
  show ?thesis using token_cache_reports_errors [OF redis_sound_store_env d] s d by blast
qed

end
