(* ===== verification/Sdp_Sender.thy ===== *)
theory Sdp_Sender
  imports Smpp_Sender Token_Cache
begin

text \<open>
  \<^verbatim>\<open>internal/sms/adapters/mno/safaricom_sdp.go\<close>: Safaricom's JSON interface with a bearer token
  that is cached in Redis, single and batch sends. JSON request bodies are values of \<^typ>\<open>json\<close>;
  \<^verbatim>\<open>json.Marshal\<close> of these structs of strings and integers cannot fail. \<^verbatim>\<open>%q\<close> in the error text
  of a mixed batch is written as plain quotes.
\<close>

record sdp_config =
  dAuthURL :: string
  dSendURL :: string
  dAuthUsername :: string
  dCountryPrefix :: string
  dUsername :: string
  dPassword :: string
  dDlrURL :: string
  dDlrURLApiV2 :: string
  dTokenKey :: string
  dTokenTTL :: int
  dBatchSize :: int
  dBreaker :: "network option"
  dMetrics :: bool

definition NewSafaricomSDPSender :: "sdp_config \<Rightarrow> sdp_config" where
  "NewSafaricomSDPSender cfg =
     cfg\<lparr>dAuthUsername := (if dAuthUsername cfg = [] then dUsername cfg else dAuthUsername cfg),
         dBatchSize := (if dBatchSize cfg < 1 then 1 else dBatchSize cfg)\<rparr>"

definition resolveDLRURL :: "string \<Rightarrow> sdp_config \<Rightarrow> message \<Rightarrow> string" where
  "resolveDLRURL gq s msg =
     (if dDlrURLApiV2 s \<noteq> [] \<and> SourceQueue msg \<noteq> [] \<and> SourceQueue msg \<noteq> gq then dDlrURLApiV2 s
      else dDlrURL s)"

definition SDPSMSRecord :: "string \<Rightarrow> sdp_config \<Rightarrow> message \<Rightarrow> json" where
  "SDPSMSRecord gq s msg =
     JObj [(''userName'', JStr (dUsername s)), (''channel'', JStr ''sms''), (''package_id'', JInt 0),
           (''oa'', JStr (Sender msg)), (''msisdn'', JStr (NormalizeMSISDN msg)),
           (''message'', JStr (Content msg)), (''uniqueId'', JStr (Correlator msg)),
           (''actionResponseURL'', JStr (resolveDLRURL gq s msg))]"

definition SDPSendRequest :: "string \<Rightarrow> sdp_config \<Rightarrow> int \<Rightarrow> message list \<Rightarrow> json" where
  "SDPSendRequest gq s now msgs =
     JObj [(''timeStamp'', JInt (now div 10 ^ 9)), (''dataSet'', JArr (map (SDPSMSRecord gq s) msgs))]"

definition sdp_request :: "string \<Rightarrow> sdp_config \<Rightarrow> string \<Rightarrow> int \<Rightarrow> message list \<Rightarrow> http_request" where
  "sdp_request gq s token now msgs =
     \<lparr>hMethod = ''POST'', hURL = dSendURL s,
      hHeaders = [(''Content-Type'', ''application/json''), (''X-Authorization'', ''Bearer '' @ token)] @
        (if dCountryPrefix s \<noteq> [] then [(''X-Country'', dCountryPrefix s)] else []),
      hBody = JsonBody (SDPSendRequest gq s now msgs)\<rparr>"

section \<open>Tokens\<close>

definition auth_request :: "sdp_config \<Rightarrow> http_request" where
  "auth_request s =
     \<lparr>hMethod = ''POST'', hURL = dAuthURL s,
      hHeaders = [(''Content-Type'', ''application/json''), (''X-Requested-With'', ''XMLHttpRequest'')],
      hBody = JsonBody (JObj [(''username'', JStr (dAuthUsername s)), (''password'', JStr (dPassword s))])\<rparr>"

text \<open>Decoding of \<^verbatim>\<open>SDPAuthResponse\<close>; only the token is used.\<close>

definition decode_auth :: "json \<Rightarrow> string option" where
  "decode_auth j =
     (case json_members j of
        None \<Rightarrow> None
      | Some kvs \<Rightarrow>
          (case (string_field ''token'' kvs, int_field ''expiresIn'' kvs) of
             (Some token, Some _) \<Rightarrow> Some token
           | _ \<Rightarrow> None))"

definition fetchToken :: "env \<Rightarrow> sdp_config \<Rightarrow> ctxid \<Rightarrow> world \<Rightarrow> (goerr + string) \<times> world" where
  "fetchToken e s ctx w =
     (case newRequest e (dAuthURL s) of
        Some err \<Rightarrow> (Inl (Wrapf (''failed to create auth request: '' @ error_text err) err), w)
      | None \<Rightarrow>
          (case http_Do e ctx (auth_request s) w of
             (HttpErr err, w) \<Rightarrow> (Inl (Wrapf (''auth request failed: '' @ error_text err) err), w)
           | (HttpResp status body, w) \<Rightarrow>
               if status \<noteq> 200 then
                 (Inl (ErrExternal (''auth failed with status '' @ Itoa status @ '': '' @ bText body)), w)
               else
                 (case bJson body of
                    Inl err \<Rightarrow> (Inl (Wrapf (''failed to decode auth response: '' @ error_text err) err), w)
                  | Inr j \<Rightarrow>
                      (case decode_auth j of
                         None \<Rightarrow> (Inl (ErrExternal ''failed to decode auth response''), w)
                       | Some token \<Rightarrow>
                           if token = [] then (Inl (ErrExternal ''received empty token from SDP''), w)
                           else (Inr token, w)))))"

text \<open>The loop of \<^verbatim>\<open>getToken\<close>: attempt \<open>i\<close> with \<open>n\<close> attempts left. After a failed attempt the
  \<^verbatim>\<open>select\<close> waits for \<open>i + 1\<close> seconds unless the context is done before or gets done meanwhile.\<close>

fun fetchLoop ::
  "env \<Rightarrow> sdp_config \<Rightarrow> ctxid \<Rightarrow> nat \<Rightarrow> nat \<Rightarrow> goerr \<Rightarrow> world \<Rightarrow> (goerr + string) \<times> world" where
  "fetchLoop e s ctx i 0 lastErr w =
     (Inl (Wrapf (''failed to fetch token after 10 attempts: '' @ error_text lastErr) lastErr), w)"
| "fetchLoop e s ctx i (Suc n) lastErr w =
     (case fetchToken e s ctx w of
        (Inr token, w) \<Rightarrow>
          (case tc_Set e (dTokenKey s) token (dTokenTTL s) w of (_, w) \<Rightarrow> (Inr token, w))
      | (Inl err, w) \<Rightarrow>
          (let cancelled =
             Inl (Wrapf (''token fetch cancelled after '' @ Itoa (int i + 1) @ '' attempts: context canceled'')
               (ErrContext ''context canceled''))
           in if ctxdone w ctx then (cancelled, w)
              else (let w = emit e (EvSleep ((int i + 1) * 10 ^ 9)) w in
                    if ctxdone w ctx then (cancelled, w)
                    else fetchLoop e s ctx (Suc i) n err w)))"

definition getToken :: "env \<Rightarrow> sdp_config \<Rightarrow> ctxid \<Rightarrow> world \<Rightarrow> (goerr + string) \<times> world" where
  "getToken e s ctx w =
     (case tc_Get e (dTokenKey s) w of
        ((token, found, err), w) \<Rightarrow>
          if found \<and> token \<noteq> [] then (Inr token, w)
          else fetchLoop e s ctx 0 10 (ErrExternal []) w)"

section \<open>Sending\<close>

definition sdp_executeSend ::
  "env \<Rightarrow> string \<Rightarrow> sdp_config \<Rightarrow> ctxid \<Rightarrow> message \<Rightarrow> int \<Rightarrow> world \<Rightarrow> send_result \<times> world" where
  "sdp_executeSend e gq s ctx msg start w =
     (case getToken e s ctx w of
        (Inl err, w) \<Rightarrow> (NewRetryableResult (time_Now e w) msg ErrTokenFetchFail (time_Since e w start), w)
      | (Inr token, w) \<Rightarrow>
     (case newRequest e (dSendURL s) of
        Some err \<Rightarrow> (NewPermanentResult (time_Now e w) msg err (time_Since e w start), w)
      | None \<Rightarrow>
     (case http_Do e ctx (sdp_request gq s token (time_Now e w) [msg]) w of
        (HttpErr err, w) \<Rightarrow>
          (NewRetryableResult (time_Now e w) msg ErrMNOUnavailable (time_Since e w start), w)
      | (HttpResp status body, w) \<Rightarrow>
     (case bReadErr body of
        Some err \<Rightarrow> (NewRetryableResult (time_Now e w) msg err (time_Since e w start), w)
      | None \<Rightarrow>
          (let responseStr = bText body;
               latency = time_Since e w start;
               mnoErr = MNOError NetworkSafaricom status responseStr None in
           if is2xx status then (NewSuccessResult (time_Now e w) msg responseStr latency, w)
           else if status = 401 then
             (case tc_Delete e (dTokenKey s) w of
                (_, w) \<Rightarrow> (NewRetryableResult (time_Now e w) msg ErrTokenExpired latency, w))
           else if status = 404 then
             (case tc_Delete e (dTokenKey s) w of
                (_, w) \<Rightarrow> (NewRetryableResult (time_Now e w) msg ErrTokenExpired latency, w))
           else if MNOError_IsRetryable status None then
             (NewRetryableResult (time_Now e w) msg mnoErr latency, w)
           else (NewPermanentResult (time_Now e w) msg mnoErr latency, w))))))"

definition sdp_Send ::
  "env \<Rightarrow> string \<Rightarrow> sdp_config \<Rightarrow> ctxid \<Rightarrow> message \<Rightarrow> world \<Rightarrow> send_result \<times> world" where
  "sdp_Send e gq s ctx msg w =
     (let start = time_Now e w in
      if (case dBreaker s of None \<Rightarrow> False | Some n \<Rightarrow> cb_IsOpen e n w) then
        (NewPermanentResult (time_Now e w) msg ErrCircuitOpen (time_Since e w start), w)
      else
        (let (result, w) =
           through_breaker e (dBreaker s) msg start (sdp_executeSend e gq s ctx msg start) w
         in (result, record_metrics e (dMetrics s) NetworkSafaricom result w)))"

text \<open>One result and one counter per message of a batch; \<open>allRetryable\<close> and \<open>allPermanent\<close> are its
  instances, and so is the loop over a successful batch.\<close>

fun each_result ::
  "env \<Rightarrow> sdp_config \<Rightarrow> string \<Rightarrow> (int \<Rightarrow> message \<Rightarrow> send_result) \<Rightarrow> message list \<Rightarrow> world \<Rightarrow> send_result list \<times> world" where
  "each_result e s status mk [] w = ([], w)"
| "each_result e s status mk (msg # msgs) w =
     (let r = mk (time_Now e w) msg;
          w = metric e (dMetrics s) (IncMessagesProcessed NetworkSafaricom status) w;
          (rs, w) = each_result e s status mk msgs w
      in (r # rs, w))"

definition allRetryable ::
  "env \<Rightarrow> sdp_config \<Rightarrow> message list \<Rightarrow> goerr \<Rightarrow> int \<Rightarrow> world \<Rightarrow> send_result list \<times> world" where
  "allRetryable e s msgs err latency w =
     each_result e s ''failed'' (\<lambda>now msg. NewRetryableResult now msg err latency) msgs w"

definition allPermanent ::
  "env \<Rightarrow> sdp_config \<Rightarrow> message list \<Rightarrow> goerr \<Rightarrow> int \<Rightarrow> world \<Rightarrow> send_result list \<times> world" where
  "allPermanent e s msgs err latency w =
     each_result e s ''failed'' (\<lambda>now msg. NewPermanentResult now msg err latency) msgs w"

text \<open>The first message, from index \<open>i\<close> on, whose sender differs.\<close>

fun findMixed :: "string \<Rightarrow> nat \<Rightarrow> message list \<Rightarrow> (nat \<times> string) option" where
  "findMixed first i [] = None"
| "findMixed first i (m # ms) = (if Sender m \<noteq> first then Some (i, Sender m) else findMixed first (Suc i) ms)"

definition mixedErr :: "string \<Rightarrow> string \<Rightarrow> nat \<Rightarrow> goerr" where
  "mixedErr firstSender other i =
     ErrExternal (''SDP batch contains mixed senders: '' @ [CHR 0x22] @ firstSender @ [CHR 0x22] @
       '' (index 0) vs '' @ [CHR 0x22] @ other @ [CHR 0x22] @ '' (index '' @ Itoa (int i) @ '') '' @
       [CHR 0xE2, CHR 0x80, CHR 0x94] @ '' each DataSet must use a single oa value'')"

definition SendBatch ::
  "env \<Rightarrow> string \<Rightarrow> sdp_config \<Rightarrow> ctxid \<Rightarrow> message list \<Rightarrow> world \<Rightarrow> send_result list \<times> world" where
  "SendBatch e gq s ctx msgs w =
     (let start = time_Now e w in
      case msgs of
        [] \<Rightarrow> ([], w)
      | m0 # rest \<Rightarrow>
     (case findMixed (Sender m0) 1 rest of
        Some (i, other) \<Rightarrow> allPermanent e s msgs (mixedErr (Sender m0) other i) (time_Since e w start) w
      | None \<Rightarrow>
      if (case dBreaker s of None \<Rightarrow> False | Some n \<Rightarrow> cb_IsOpen e n w) then
        allRetryable e s msgs ErrCircuitOpen (time_Since e w start) w
      else
     (case getToken e s ctx w of
        (Inl err, w) \<Rightarrow> allRetryable e s msgs ErrTokenFetchFail (time_Since e w start) w
      | (Inr token, w) \<Rightarrow>
     (case newRequest e (dSendURL s) of
        Some err \<Rightarrow> allPermanent e s msgs err (time_Since e w start) w
      | None \<Rightarrow>
     (case http_Do e ctx (sdp_request gq s token (time_Now e w) msgs) w of
        (HttpErr err, w) \<Rightarrow> allRetryable e s msgs ErrMNOUnavailable (time_Since e w start) w
      | (HttpResp status body, w) \<Rightarrow>
          (let responseStr = bText body;
               latency = time_Since e w start;
               mnoErr = MNOError NetworkSafaricom status responseStr None in
           if is2xx status then
             each_result e s ''success'' (\<lambda>now msg. NewSuccessResult now msg responseStr latency) msgs w
           else if status = 401 then
             (case tc_Delete e (dTokenKey s) w of
                (_, w) \<Rightarrow> allRetryable e s msgs ErrTokenExpired latency w)
           else if status = 404 then
             (case tc_Delete e (dTokenKey s) w of
                (_, w) \<Rightarrow> allRetryable e s msgs ErrTokenExpired latency w)
           else if MNOError_IsRetryable status None then allRetryable e s msgs mnoErr latency w
           else send_all (\<lambda>msg w. sdp_executeSend e gq s ctx msg (time_Now e w) w) msgs w))))))"

definition sdp_IsHealthy :: "env \<Rightarrow> sdp_config \<Rightarrow> world \<Rightarrow> bool" where
  "sdp_IsHealthy e s w = (case dBreaker s of None \<Rightarrow> True | Some n \<Rightarrow> \<not> cb_IsOpen e n w)"

definition classifyHTTPError :: "goerr option \<Rightarrow> string" where
  "classifyHTTPError err =
     (case err of
        None \<Rightarrow> []
      | Some x \<Rightarrow>
          (let msg = error_text x in
           if Contains msg ''GOAWAY'' then ''http2_goaway''
           else if Contains msg ''timeout awaiting response headers'' then ''response_header_timeout''
           else if Contains msg ''context deadline exceeded'' then ''request_timeout''
           else if Contains msg ''connection refused'' then ''connection_refused''
           else if Contains msg ''connection reset'' then ''connection_reset''
           else if Contains msg ''EOF'' then ''connection_closed''
           else if Contains msg ''no such host'' then ''dns_error''
           else if Contains msg ''TLS'' \<or> Contains msg ''tls'' then ''tls_error''
           else ''transport_error''))"

section \<open>What the operator accepted\<close>

text \<open>The records of a send request that was answered with a 2xx status, and all records that were
  accepted between two worlds.\<close>

definition request_records :: "http_request \<Rightarrow> json list" where
  "request_records req =
     (case hBody req of JsonBody (JObj [_, (_, JArr rs)]) \<Rightarrow> rs | _ \<Rightarrow> [])"

fun sdp_records :: "event \<Rightarrow> json list" where
  "sdp_records (EvHttp req (HttpResp status body)) = (if is2xx status then request_records req else [])"
| "sdp_records _ = []"

definition accepted_records :: "world \<Rightarrow> world \<Rightarrow> json list" where
  "accepted_records w w' = concat (map sdp_records (new_events w w'))"

lemma accepted_records_same [simp]: "accepted_records w w = []"
  by (simp add: accepted_records_def)

lemma accepted_records_emit [simp]:
  "world_le w w' \<Longrightarrow> accepted_records w (emit e ev w') = accepted_records w w' @ sdp_records ev"
  by (simp add: accepted_records_def new_events_emit_trans)

lemma accepted_records_metric [simp]:
  "world_le w w' \<Longrightarrow> accepted_records w (metric e b m w') = accepted_records w w'"
  by (simp add: metric_def)

lemma accepted_records_trans:
  "\<lbrakk> world_le a b; world_le b c \<rbrakk> \<Longrightarrow> accepted_records a c = accepted_records a b @ accepted_records b c"
  using new_events_trans [of a b c] by (simp add: accepted_records_def)

lemma request_records_sdp [simp]:
  "request_records (sdp_request gq s tok now ms) = map (SDPSMSRecord gq s) ms"
  by (simp add: request_records_def sdp_request_def SDPSendRequest_def)

lemma auth_request_simps [simp]: "request_records (auth_request s) = []" "hURL (auth_request s) = dAuthURL s"
  by (simp_all add: request_records_def auth_request_def)

section \<open>Facts on tokens\<close>

fun sleep_of :: "event \<Rightarrow> int" where
  "sleep_of (EvSleep d) = d"
| "sleep_of _ = 0"

definition slept :: "world \<Rightarrow> world \<Rightarrow> int" where
  "slept w w' = sum_list (map sleep_of (new_events w w'))"

lemma slept_same [simp]: "slept w w = 0"
  by (simp add: slept_def)

lemma slept_emit [simp]: "world_le w w' \<Longrightarrow> slept w (emit e ev w') = slept w w' + sleep_of ev"
  by (simp add: slept_def new_events_emit_trans)

lemma slept_trans: "\<lbrakk> world_le a b; world_le b c \<rbrakk> \<Longrightarrow> slept a c = slept a b + slept b c"
  using new_events_trans [of a b c] by (simp add: slept_def)

lemma tc_quiet:
  "tc_Get e k w = (r, w1) \<Longrightarrow>
     quiet sender_event w w1 \<and> http_calls w w1 = [] \<and> slept w w1 = 0 \<and> accepted_records w w1 = []"
  "tc_Set e k v ttl w = (r', w1) \<Longrightarrow>
     quiet sender_event w w1 \<and> http_calls w w1 = [] \<and> slept w w1 = 0 \<and> accepted_records w w1 = []"
  "tc_Delete e k w = (r', w1) \<Longrightarrow>
     quiet sender_event w w1 \<and> http_calls w w1 = [] \<and> slept w w1 = 0 \<and> accepted_records w w1 = []"
  by (auto simp: tc_Get_def tc_Set_def tc_Delete_def redis_Do_def Let_def split: redis_reply.splits)

lemma fetchToken_contract:
  assumes "fetchToken e s ctx w = (r, w1)"
  shows "quiet sender_event w w1 \<and> slept w w1 = 0 \<and> accepted_records w w1 = [] \<and>
    (http_calls w w1 = [] \<or> (\<exists>x. http_calls w w1 = [x] \<and> http_url x = dAuthURL s)) \<and>
    (\<forall>tok. r = Inr tok \<longrightarrow> tok \<noteq> [])"
  using assms
  by (auto simp: fetchToken_def http_Do_def Let_def
      split: option.splits http_outcome.splits if_splits sum.splits)

text \<open>What a run of the token loop did: \<open>n\<close> requests at most, all to the authentication URL.\<close>

definition token_run :: "sdp_config \<Rightarrow> nat \<Rightarrow> int \<Rightarrow> world \<Rightarrow> world \<Rightarrow> bool" where
  "token_run s n d w w' \<longleftrightarrow>
     quiet sender_event w w' \<and> length (http_calls w w') \<le> n \<and> slept w w' \<le> d \<and>
     list_all (\<lambda>x. http_url x = dAuthURL s) (http_calls w w') \<and> accepted_records w w' = []"

lemma token_run_trans:
  "\<lbrakk> token_run s n d a b; token_run s n' d' b c \<rbrakk> \<Longrightarrow> token_run s (n + n') (d + d') a c"
  using http_calls_trans [OF quiet_le quiet_le, of sender_event a b sender_event c]
    slept_trans [OF quiet_le quiet_le, of sender_event a b sender_event c]
    accepted_records_trans [OF quiet_le quiet_le, of sender_event a b sender_event c]
    quiet_trans [of sender_event a b c]
  by (simp add: token_run_def)

lemma token_run_mono: "\<lbrakk> token_run s n d a b; n \<le> n'; d \<le> d' \<rbrakk> \<Longrightarrow> token_run s n' d' a b"
  by (auto simp: token_run_def)

lemma fetchToken_run: "fetchToken e s ctx w = (r, w1) \<Longrightarrow> token_run s 1 0 w w1"
  using fetchToken_contract [of e s ctx w r w1] by (auto simp: token_run_def)

lemma token_run_sleep: "0 \<le> d \<Longrightarrow> token_run s 0 d w (emit e (EvSleep d) w)"
  by (simp add: token_run_def)

text \<open>The waits of the loop from attempt \<open>i\<close> on, with \<open>n\<close> attempts left.\<close>

fun backoff :: "nat \<Rightarrow> nat \<Rightarrow> int" where
  "backoff i 0 = 0"
| "backoff i (Suc n) = (int i + 1) * 10 ^ 9 + backoff (Suc i) n"

lemma backoff_nonneg [simp]: "0 \<le> backoff i n"
  by (induction n arbitrary: i) auto

lemma fetchLoop_contract:
  assumes "fetchLoop e s ctx i n err w = (r, w')"
  shows "token_run s n (backoff i n) w w' \<and> (\<forall>tok. r = Inr tok \<longrightarrow> tok \<noteq> [])"
  using assms
proof (induction n arbitrary: i err w)
  case 0
  then show ?case by (auto simp: token_run_def)
next
  case (Suc n)
  let ?d = "(int i + 1) * 10 ^ 9"
  have pos: "0 \<le> ?d" "0 \<le> backoff (Suc i) n" by simp_all
  obtain r1 w1 where f: "fetchToken e s ctx w = (r1, w1)" by (cases "fetchToken e s ctx w")
  note run1 = fetchToken_run [OF f]
  show ?case
  proof (cases r1)
    case (Inr tok)
    obtain r2 w2 where set: "tc_Set e (dTokenKey s) tok (dTokenTTL s) w1 = (r2, w2)"
      by (cases "tc_Set e (dTokenKey s) tok (dTokenTTL s) w1")
    have "token_run s 0 0 w1 w2" using tc_quiet(2) [OF set] by (simp add: token_run_def)
    from token_run_trans [OF run1 this] show ?thesis
      using Suc.prems f Inr set fetchToken_contract [OF f] pos
      by (auto intro: token_run_mono)
  next
    case (Inl err')
    let ?w2 = "emit e (EvSleep ?d) w1"
    have run2: "token_run s (Suc 0) ?d w ?w2"
      using token_run_trans [OF run1 token_run_sleep [OF pos(1), of s w1 e]] by simp
    consider (stop) "ctxdone w1 ctx" | (stop2) "\<not> ctxdone w1 ctx" "ctxdone ?w2 ctx"
      | (go) "\<not> ctxdone w1 ctx" "\<not> ctxdone ?w2 ctx" by blast
    then show ?thesis
    proof cases
      case stop
      then show ?thesis
        using Suc.prems f Inl token_run_mono [OF run1, of "Suc n" "backoff i (Suc n)"] by auto
    next
      case stop2
      then show ?thesis
        using Suc.prems f Inl token_run_mono [OF run2, of "Suc n" "backoff i (Suc n)"]
        by (auto simp: Let_def)
    next
      case go
      then have "fetchLoop e s ctx (Suc i) n err' ?w2 = (r, w')"
        using Suc.prems f Inl by (simp add: Let_def)
      from Suc.IH [OF this] token_run_trans [OF run2] show ?thesis
        by auto
    qed
  qed
qed

lemma getToken_contract:
  assumes "getToken e s ctx w = (r, w')"
  shows "token_run s 10 (55 * 10 ^ 9) w w' \<and> (\<forall>tok. r = Inr tok \<longrightarrow> tok \<noteq> [])"
proof -
  obtain tok found err w1 where g: "tc_Get e (dTokenKey s) w = ((tok, found, err), w1)"
    by (cases "tc_Get e (dTokenKey s) w") auto
  have run1: "token_run s 0 0 w w1" using tc_quiet(1) [OF g] by (simp add: token_run_def)
  show ?thesis
  proof (cases "found \<and> tok \<noteq> []")
    case True
    then show ?thesis
      using assms g token_run_mono [OF run1, of 10 "55 * 10 ^ 9"] by (auto simp: getToken_def)
  next
    case False
    then have f: "fetchLoop e s ctx 0 10 (ErrExternal []) w1 = (r, w')"
      using assms g by (auto simp: getToken_def)
    have "backoff 0 10 = 55 * 10 ^ 9" by code_simp
    with fetchLoop_contract [OF f] token_run_trans [OF run1, of 10 "55 * 10 ^ 9" w'] show ?thesis
      by auto
  qed
qed

text \<open>Getting a token always ends: at most ten requests, all to the authentication URL, and at
  most 55 seconds of waiting between them; a token that is returned is never empty, and nothing but
  these requests, the cache and the waits happens.\<close>

theorem getToken_bounded:
  "let (r, w') = getToken e s ctx w in
     length (http_calls w w') \<le> 10 \<and> list_all (\<lambda>x. http_url x = dAuthURL s) (http_calls w w') \<and>
     slept w w' \<le> 55 * 10 ^ 9 \<and> r \<noteq> Inr [] \<and> quiet sender_event w w'"
  using getToken_contract [of e s ctx w] by (cases "getToken e s ctx w") (auto simp: token_run_def)

section \<open>Facts on sending\<close>

text \<open>The contract of one send: besides the result, what the operator accepted is the record of this
  message or nothing, and it is the record when the result is a success.\<close>

definition sdp_sent :: "string \<Rightarrow> sdp_config \<Rightarrow> message list \<Rightarrow> world \<Rightarrow> send_result list \<times> world \<Rightarrow> bool" where
  "sdp_sent gq s ms w out \<longleftrightarrow>
     list_all2 send_contract ms (fst out) \<and> quiet sender_event w (snd out) \<and>
     subseq (accepted_records w (snd out)) (map (SDPSMSRecord gq s) ms) \<and>
     subseq (map (SDPSMSRecord gq s \<circ> fst) (filter (IsSuccess \<circ> snd) (zip ms (fst out))))
       (accepted_records w (snd out))"

lemma subseq_singleton: "subseq xs [y] \<longleftrightarrow> xs = [] \<or> xs = [y]"
  by (cases xs) (auto simp: subseq_singleton_left dest: list_emb_length)

lemma sdp_sent_single:
  "sdp_sent gq s [m] w ([r], w') \<longleftrightarrow>
     send_contract m r \<and> quiet sender_event w w' \<and>
     (accepted_records w w' = [] \<and> \<not> IsSuccess r \<or> accepted_records w w' = [SDPSMSRecord gq s m])"
  by (auto simp: sdp_sent_def subseq_singleton)

lemma IsSuccess_new [simp]:
  "IsSuccess (NewSuccessResult now m resp l)" "\<not> IsSuccess (NewRetryableResult now m err l)"
  "\<not> IsSuccess (NewPermanentResult now m err l)"
  by (simp_all add: IsSuccess_def)

lemma sdp_executeSend_sent:
  assumes "sdp_executeSend e gq s ctx msg start w = (r, w')"
  shows "sdp_sent gq s [msg] w ([r], w')"
proof -
  obtain t w1 where g: "getToken e s ctx w = (t, w1)" by (cases "getToken e s ctx w")
  have run: "quiet sender_event w w1" "accepted_records w w1 = []"
    using getToken_contract [OF g] by (simp_all add: token_run_def)
  then have le: "world_le w w1" by (simp add: quiet_le)
  note facts = assms g run le
  show ?thesis
  proof (cases t)
    case (Inl err)
    then show ?thesis using facts by (auto simp: sdp_executeSend_def sdp_sent_single send_simps)
  next
    case (Inr tok)
    show ?thesis
    proof (cases "newRequest e (dSendURL s)")
      case (Some err)
      then show ?thesis using facts Inr by (auto simp: sdp_executeSend_def sdp_sent_single send_simps)
    next
      case None
      let ?req = "sdp_request gq s tok (time_Now e w1) [msg]"
      show ?thesis
      proof (cases "httpDo e (trace w1) ctx ?req")
        case (HttpErr err)
        then show ?thesis
          using facts Inr None
          by (auto simp: sdp_executeSend_def sdp_sent_single send_simps http_Do_def Let_def)
      next
        case (HttpResp status body)
        then show ?thesis
          using facts Inr None
          by (cases "bReadErr body"; cases "is2xx status")
            (auto simp: sdp_executeSend_def sdp_sent_single send_simps http_Do_def Let_def
              tc_Delete_def redis_Do_def split: redis_reply.splits if_splits)
      qed
    qed
  qed
qed

interpretation sdp_exec: mno_sender "\<lambda>m w. sdp_executeSend e gq s ctx m (time_Now e w) w" for e gq s ctx
  using sdp_executeSend_sent
  by unfold_locales (metis prod.collapse sdp_sent_single)+

lemma subseq_successes:
  "length rs = length ms \<Longrightarrow> subseq (map (f \<circ> fst) (filter P (zip ms rs))) (map f ms)"
  using subseq_map [OF subseq_filter_left, of "f \<circ> fst" P "zip ms rs"]
  by (simp add: flip: map_map)

lemma each_result_facts:
  assumes "each_result e s status mk ms w = (rs, w')"
  shows "list_all2 (\<lambda>m r. \<exists>now. r = mk now m) ms rs \<and> quiet sender_event w w' \<and> accepted_records w w' = []"
  using assms
proof (induction ms arbitrary: w rs)
  case (Cons m ms)
  let ?w1 = "metric e (dMetrics s) (IncMessagesProcessed NetworkSafaricom status) w"
  obtain rs' where e: "each_result e s status mk ms ?w1 = (rs', w')" "rs = mk (time_Now e w) m # rs'"
    using Cons.prems by (auto simp: Let_def split: prod.splits)
  have "quiet sender_event w ?w1" by simp
  moreover have "accepted_records w ?w1 = []" by simp
  ultimately show ?case
    using Cons.IH [OF e(1)] e(2) quiet_trans [of sender_event w ?w1 w']
      accepted_records_trans [OF quiet_le quiet_le, of sender_event w ?w1 sender_event w'] by auto
qed simp

lemma each_result_quiet: "quiet sender_event w (snd (each_result e s status mk ms w))"
  using each_result_facts [of e s status mk ms w "fst (each_result e s status mk ms w)"
      "snd (each_result e s status mk ms w)"] by simp

text \<open>Uniform results after a prefix \<open>w \<dots> w1\<close> in which either nothing or the whole batch was
  accepted.\<close>

lemma each_result_sent:
  assumes "quiet sender_event w w1"
    and "\<And>now m. send_contract m (mk now m)"
    and "accepted_records w w1 = [] \<and> (\<forall>now m. \<not> IsSuccess (mk now m)) \<or>
         accepted_records w w1 = map (SDPSMSRecord gq s) ms"
  shows "sdp_sent gq s ms w (each_result e s status mk ms w1)"
proof -
  obtain rs w' where er: "each_result e s status mk ms w1 = (rs, w')"
    by (cases "each_result e s status mk ms w1")
  note f = each_result_facts [OF er]
  have q: "quiet sender_event w w'" using quiet_trans [OF assms(1)] f by blast
  have acc: "accepted_records w w' = accepted_records w w1"
    using accepted_records_trans [OF quiet_le [OF assms(1)] quiet_le, of sender_event w'] f by simp
  have rs: "list_all2 send_contract ms rs" "length rs = length ms"
    using f assms(2) by (auto elim!: list_all2_mono dest: list_all2_lengthD)
  have none: "filter (IsSuccess \<circ> snd) (zip ms rs) = []" if "\<forall>now m. \<not> IsSuccess (mk now m)"
    using f that by (auto simp: filter_empty_conv list_all2_iff)
  show ?thesis
    using assms(3) q acc rs none subseq_successes [OF rs(2)] by (auto simp: er sdp_sent_def)
qed

lemma send_all_sent:
  "sdp_sent gq s ms w (send_all (\<lambda>m w. sdp_executeSend e gq s ctx m (time_Now e w) w) ms w)"
proof (induction ms arbitrary: w)
  case (Cons m ms)
  let ?f = "\<lambda>m w. sdp_executeSend e gq s ctx m (time_Now e w) w"
  obtain r w1 where x: "?f m w = (r, w1)" by (cases "?f m w")
  obtain rs w2 where xs: "send_all ?f ms w1 = (rs, w2)" by (cases "send_all ?f ms w1")
  have 1: "sdp_sent gq s [m] w ([r], w1)" using x by (rule sdp_executeSend_sent)
  have 2: "sdp_sent gq s ms w1 (rs, w2)" using Cons.IH [of w1] xs by simp
  have le: "world_le w w1" "world_le w1 w2"
    using 1 2 by (auto simp: sdp_sent_def intro: quiet_le)
  have app: "accepted_records w w2 = accepted_records w w1 @ accepted_records w1 w2"
    using le by (rule accepted_records_trans)
  have q: "quiet sender_event w w2"
    using 1 2 by (auto simp: sdp_sent_def intro: quiet_trans)
  have sub: "subseq (accepted_records w w1 @ accepted_records w1 w2) ([SDPSMSRecord gq s m] @ map (SDPSMSRecord gq s) ms)"
    by (rule list_emb_append_mono) (use 1 2 in \<open>auto simp: sdp_sent_def\<close>)
  have "subseq (map (SDPSMSRecord gq s \<circ> fst) (filter (IsSuccess \<circ> snd) (zip [m] [r])) @
      map (SDPSMSRecord gq s \<circ> fst) (filter (IsSuccess \<circ> snd) (zip ms rs)))
      (accepted_records w w1 @ accepted_records w1 w2)"
    by (rule list_emb_append_mono) (use 1 2 in \<open>auto simp: sdp_sent_def\<close>)
  moreover have "send_contract m r" "list_all2 send_contract ms rs"
    using 1 2 by (auto simp: sdp_sent_def)
  ultimately show ?case
    using q sub by (cases "IsSuccess r") (simp_all add: sdp_sent_def app x xs)
qed (simp add: sdp_sent_def)

lemma SendBatch_nonempty:
  "ms \<noteq> [] \<Longrightarrow> SendBatch e gq s ctx ms w =
     (let start = time_Now e w in
      case findMixed (Sender (hd ms)) 1 (tl ms) of
        Some (i, other) \<Rightarrow> allPermanent e s ms (mixedErr (Sender (hd ms)) other i) (time_Since e w start) w
      | None \<Rightarrow>
      if \<not> sdp_IsHealthy e s w then allRetryable e s ms ErrCircuitOpen (time_Since e w start) w
      else
     (case getToken e s ctx w of
        (Inl err, w) \<Rightarrow> allRetryable e s ms ErrTokenFetchFail (time_Since e w start) w
      | (Inr token, w) \<Rightarrow>
     (case newRequest e (dSendURL s) of
        Some err \<Rightarrow> allPermanent e s ms err (time_Since e w start) w
      | None \<Rightarrow>
     (case http_Do e ctx (sdp_request gq s token (time_Now e w) ms) w of
        (HttpErr err, w) \<Rightarrow> allRetryable e s ms ErrMNOUnavailable (time_Since e w start) w
      | (HttpResp status body, w) \<Rightarrow>
          (if is2xx status then
             each_result e s ''success''
               (\<lambda>now msg. NewSuccessResult now msg (bText body) (time_Since e w start)) ms w
           else if status = 401 \<or> status = 404 then
             allRetryable e s ms ErrTokenExpired (time_Since e w start) (snd (tc_Delete e (dTokenKey s) w))
           else if MNOError_IsRetryable status None then
             allRetryable e s ms (MNOError NetworkSafaricom status (bText body) None) (time_Since e w start) w
           else send_all (\<lambda>msg w. sdp_executeSend e gq s ctx msg (time_Now e w) w) ms w)))))"
  by (cases ms)
    (simp_all add: SendBatch_def sdp_IsHealthy_def Let_def case_prod_beta split: option.split sum.split http_outcome.split)

text \<open>What remains after the request of a batch was answered.\<close>

lemma sdp_sent_after:
  assumes "quiet sender_event w w1" "accepted_records w w1 = []" "sdp_sent gq s ms w1 out"
  shows "sdp_sent gq s ms w out"
  using assms quiet_trans [OF assms(1), of "snd out"]
    accepted_records_trans [OF quiet_le [OF assms(1)] quiet_le, of sender_event "snd out"]
  by (simp add: sdp_sent_def)

lemma SendBatch_sent: "sdp_sent gq s ms w (SendBatch e gq s ctx ms w)"
proof (cases "ms = []")
  case True
  then show ?thesis by (simp add: SendBatch_def sdp_sent_def)
next
  case False
  note sb = SendBatch_nonempty [OF False, of e gq s ctx w]
  have fail: "sdp_sent gq s ms w (allRetryable e s ms err l w1)" "sdp_sent gq s ms w (allPermanent e s ms err l w1)"
    if "quiet sender_event w w1" "accepted_records w w1 = []" for err l w1
    unfolding allRetryable_def allPermanent_def by (rule each_result_sent; use that in \<open>simp add: send_simps\<close>)+
  obtain t w1 where g: "getToken e s ctx w = (t, w1)" by (cases "getToken e s ctx w")
  have run: "quiet sender_event w w1" "accepted_records w w1 = []"
    using getToken_contract [OF g] by (simp_all add: token_run_def)
  have le: "world_le w w1" using run(1) by (rule quiet_le)
  have early: ?thesis
    if "findMixed (Sender (hd ms)) (Suc 0) (tl ms) \<noteq> None \<or> \<not> sdp_IsHealthy e s w \<or> (\<exists>err. t = Inl err) \<or>
        newRequest e (dSendURL s) \<noteq> None"
    using that by (cases t) (auto simp: sb g Let_def run intro!: fail split: option.split)
  show ?thesis
  proof (cases "findMixed (Sender (hd ms)) (Suc 0) (tl ms) = None \<and> sdp_IsHealthy e s w \<and> (\<exists>tok. t = Inr tok) \<and>
        newRequest e (dSendURL s) = None")
    case False
    then show ?thesis using early by (cases t) auto
  next
    case True
    then obtain tok where posted: "t = Inr tok" "findMixed (Sender (hd ms)) (Suc 0) (tl ms) = None"
      "sdp_IsHealthy e s w" "newRequest e (dSendURL s) = None" by blast
    let ?req = "sdp_request gq s tok (time_Now e w1) ms"
    let ?out = "httpDo e (trace w1) ctx ?req"
    let ?w2 = "emit e (EvHttp ?req ?out) w1"
    have w2: "quiet sender_event w ?w2" "accepted_records w ?w2 = sdp_records (EvHttp ?req ?out)"
      using run le by simp_all
    note eqs = sb g [unfolded posted(1)] posted(2-) http_Do_def Let_def
    show ?thesis
    proof (cases ?out)
      case (HttpErr err)
      then show ?thesis using w2 by (auto simp: eqs intro!: fail)
    next
      case (HttpResp status body)
      show ?thesis
      proof (cases "is2xx status")
        case True
        have "accepted_records w ?w2 = map (SDPSMSRecord gq s) ms" using w2(2) HttpResp True by simp
        with w2(1) HttpResp True show ?thesis
          by (auto simp: eqs send_simps intro!: each_result_sent)
      next
        case False
        then have acc: "accepted_records w ?w2 = []" using w2(2) HttpResp by simp
        with w2(1) HttpResp False show ?thesis
          by (auto simp: eqs quiet_le tc_world intro!: fail sdp_sent_after [OF _ _ send_all_sent])
      qed
    qed
  qed
qed

interpretation sdp: batch_sender "sdp_Send e gq s ctx" "SendBatch e gq s ctx" for e gq s ctx
proof unfold_locales
  fix m w ms
  have x: "send_contract m (fst (sdp_executeSend e gq s ctx m (time_Now e w) w))"
    "quiet sender_event w (snd (sdp_executeSend e gq s ctx m (time_Now e w) w))"
    by (rule sdp_exec.send_result sdp_exec.send_quiet)+
  note c = through_breaker_contract [where exec = "sdp_executeSend e gq s ctx m (time_Now e w)", OF x]
  show "send_contract m (fst (sdp_Send e gq s ctx m w))"
    using c(1) by (simp add: sdp_Send_def Let_def case_prod_beta send_simps)
  show "quiet sender_event w (snd (sdp_Send e gq s ctx m w))"
    using c(2) by (simp add: sdp_Send_def Let_def case_prod_beta)
  show "list_all2 send_contract ms (fst (SendBatch e gq s ctx ms w))"
    "quiet sender_event w (snd (SendBatch e gq s ctx ms w))"
    using SendBatch_sent [of gq s ms w e ctx] by (simp_all add: sdp_sent_def)
qed

text \<open>C7. A batch send answers every message, in order, with a result that meets the sender contract;
  no record is accepted by the operator more often than its message occurs in the batch (the
  fall-back to single sends never repeats an accepted batch), and a message is reported as sent only
  when a request that carries its record was answered with a 2xx status.\<close>

theorem SendBatch_faithful:
  "let (rs, w') = SendBatch e gq s ctx msgs w in
     list_all2 send_contract msgs rs \<and>
     subseq (accepted_records w w') (map (SDPSMSRecord gq s) msgs) \<and>
     subseq (map (SDPSMSRecord gq s \<circ> fst) (filter (IsSuccess \<circ> snd) (zip msgs rs))) (accepted_records w w') \<and>
     quiet sender_event w w'"
  using SendBatch_sent [of gq s msgs w e ctx] by (simp add: sdp_sent_def case_prod_beta)

lemma findMixed_None: "findMixed first i ms = None \<longleftrightarrow> list_all (\<lambda>m. Sender m = first) ms"
  by (induction ms arbitrary: i) auto

lemma allPermanent_facts:
  "length (fst (allPermanent e s ms err l w)) = length ms \<and>
   list_all IsPermanent (fst (allPermanent e s ms err l w)) \<and>
   http_calls w (snd (allPermanent e s ms err l w)) = []"
  unfolding allPermanent_def
proof (induction ms arbitrary: w)
  case (Cons m ms)
  let ?w1 = "metric e (dMetrics s) (IncMessagesProcessed NetworkSafaricom ''failed'') w"
  let ?x = "each_result e s ''failed'' (\<lambda>now msg. NewPermanentResult now msg err l) ms ?w1"
  have "world_le ?w1 (snd ?x)" by (rule quiet_le [OF each_result_quiet])
  then have "http_calls w (snd ?x) = http_calls w ?w1 @ http_calls ?w1 (snd ?x)"
    by (intro http_calls_trans) simp_all
  then show ?case using Cons.IH [of ?w1] by (simp add: Let_def case_prod_beta IsPermanent_def)
qed simp

text \<open>A batch with two different sender ids never reaches the operator: all of its messages fail
  permanently and no request is made.\<close>

theorem SendBatch_mixed_senders_rejected:
  assumes "\<not> list_all (\<lambda>m. Sender m = Sender (hd msgs)) msgs"
  shows "let (rs, w') = SendBatch e gq s ctx msgs w in
     length rs = length msgs \<and> list_all IsPermanent rs \<and> http_calls w w' = []"
proof -
  have ne: "msgs \<noteq> []" using assms by auto
  then have "\<not> list_all (\<lambda>m. Sender m = Sender (hd msgs)) (tl msgs)" using assms by (cases msgs) auto
  then obtain i other where "findMixed (Sender (hd msgs)) 1 (tl msgs) = Some (i, other)"
    using findMixed_None by (metis not_None_eq surj_pair)
  then have sb: "\<exists>err l. SendBatch e gq s ctx msgs w = allPermanent e s msgs err l w"
    using SendBatch_nonempty [OF ne, of e gq s ctx w] by (auto simp: Let_def)
  then obtain err l where "SendBatch e gq s ctx msgs w = allPermanent e s msgs err l w" by blast
  then show ?thesis using allPermanent_facts [of e s msgs err l w] by (simp add: case_prod_beta)
qed

theorem SendBatch_mixed_senders_rejected_witness:
  "\<not> list_all (\<lambda>m. Sender m = Sender (hd [sample_message, sample_message\<lparr>Sender := ''OTHER''\<rparr>]))
       [sample_message, sample_message\<lparr>Sender := ''OTHER''\<rparr>] \<and>
   (\<forall>s. let (rs, w') = SendBatch base_env [] s AppCtx [sample_message, sample_message\<lparr>Sender := ''OTHER''\<rparr>] init_world
        in list_all IsPermanent rs \<and> http_calls init_world w' = [])"
proof -
  let ?ms = "[sample_message, sample_message\<lparr>Sender := ''OTHER''\<rparr>]"
  have h: "\<not> list_all (\<lambda>m. Sender m = Sender (hd ?ms)) ?ms" by (simp add: sample_message_def)
  then show ?thesis using SendBatch_mixed_senders_rejected [OF h] by (simp add: case_prod_beta)
qed

text \<open>Token expiry: when the operator answers 401 or 404, the message is retryable with
  \<^verbatim>\<open>ErrTokenExpired\<close> and the last thing done is to delete the cached token; unless that deletion
  failed, a sound Redis does not hand out the old token again, so the next send starts by fetching a
  fresh one.\<close>

theorem expired_token_not_reused:
  assumes "redis_sound e" and "getToken e s ctx w = (Inr tok, w1)" and "newRequest e (dSendURL s) = None"
    and "httpDo e (trace w1) ctx (sdp_request gq s tok (time_Now e w1) [msg]) = HttpResp status body"
    and "bReadErr body = None" and "status = 401 \<or> status = 404"
  shows "\<exists>r w' rep. sdp_executeSend e gq s ctx msg start w = (r, w') \<and> IsRetryable r \<and>
     rError r = Some ErrTokenExpired \<and> last (trace w') = EvRedis (RDel (dTokenKey s)) rep \<and>
     (case rep of RErr x \<Rightarrow> True
      | _ \<Rightarrow> \<exists>w2. getToken e s ctx w' = fetchLoop e s ctx 0 10 (ErrExternal []) w2 \<and> world_le w' w2)"
proof -
  let ?w2 = "emit e (EvHttp (sdp_request gq s tok (time_Now e w1) [msg]) (HttpResp status body)) w1"
  let ?d = "tc_Delete e (dTokenKey s) ?w2"
  let ?rep = "redisDo e (trace ?w2) (RDel (dTokenKey s))"
  have no2xx: "\<not> is2xx status" using assms(6) by (auto simp: is2xx_def)
  have run: "\<exists>r. sdp_executeSend e gq s ctx msg start w = (r, snd ?d) \<and> IsRetryable r \<and> rError r = Some ErrTokenExpired"
    using assms no2xx
    by (auto simp: sdp_executeSend_def http_Do_def Let_def case_prod_beta IsRetryable_def)
  have fresh: "\<exists>w2. getToken e s ctx (snd ?d) = fetchLoop e s ctx 0 10 (ErrExternal []) w2 \<and> world_le (snd ?d) w2"
    if "fst ?d = None"
  proof -
    have no: "stored (trace (snd ?d)) (dTokenKey s) = None" using tc_Delete_stored [OF that] by simp
    obtain v f x w3 where g: "tc_Get e (dTokenKey s) (snd ?d) = ((v, f, x), w3)"
      by (cases "tc_Get e (dTokenKey s) (snd ?d)") auto
    have "\<not> f" using tc_Get_sound [OF assms(1), of "dTokenKey s" "snd ?d" v x w3] g no by (cases f) auto
    then have "getToken e s ctx (snd ?d) = fetchLoop e s ctx 0 10 (ErrExternal []) w3"
      using g by (simp add: getToken_def)
    then show ?thesis using tc_quiet(1) [OF g] quiet_le by blast
  qed
  have "last (trace (snd ?d)) = EvRedis (RDel (dTokenKey s)) ?rep" by (simp add: tc_world)
  moreover have "case ?rep of RErr x \<Rightarrow> True | _ \<Rightarrow>
      \<exists>w2. getToken e s ctx (snd ?d) = fetchLoop e s ctx 0 10 (ErrExternal []) w2 \<and> world_le (snd ?d) w2"
    using fresh by (cases ?rep) (simp_all add: tc_Delete_def redis_Do_def Let_def)
  ultimately show ?thesis using run by blast
qed

definition sample_sdp :: sdp_config where
  "sample_sdp =
     \<lparr>dAuthURL = ''auth'', dSendURL = ''send'', dAuthUsername = ''u'', dCountryPrefix = [], dUsername = ''u'',
      dPassword = ''p'', dDlrURL = ''dlr'', dDlrURLApiV2 = [], dTokenKey = ''tok'', dTokenTTL = 60,
      dBatchSize = 100, dBreaker = None, dMetrics = False\<rparr>"

text \<open>An operator that issues tokens and answers every send with 401.\<close>

definition expired_env :: env where
  "expired_env = store_env\<lparr>httpDo := (\<lambda>_ _ req.
     if hURL req = ''auth'' then
       HttpResp 200 \<lparr>bText = [], bReadErr = None, bJson = Inr (JObj [(''token'', JStr ''t1'')]), bTrailing = False\<rparr>
     else HttpResp 401 \<lparr>bText = [], bReadErr = None, bJson = Inr JNull, bTrailing = False\<rparr>)\<rparr>"

theorem expired_token_not_reused_witness:
  "\<exists>r w' rep. sdp_executeSend expired_env [] sample_sdp AppCtx sample_message 0 init_world = (r, w') \<and>
     rError r = Some ErrTokenExpired \<and> last (trace w') = EvRedis (RDel ''tok'') rep"
proof -
  have s: "redis_sound expired_env"
    by (simp add: redis_sound_def expired_env_def store_env_def split: option.split)
  have "fst (getToken expired_env sample_sdp AppCtx init_world) = Inr ''t1''" by code_simp
  then obtain w1 where w1: "getToken expired_env sample_sdp AppCtx init_world = (Inr ''t1'', w1)"
    by (metis prod.collapse)
  have nr: "newRequest expired_env (dSendURL sample_sdp) = None"
    by (simp add: expired_env_def store_env_def base_env_def)
  have h: "httpDo expired_env (trace w1) AppCtx (sdp_request [] sample_sdp ''t1'' (time_Now expired_env w1) [sample_message]) =
      HttpResp 401 \<lparr>bText = [], bReadErr = None, bJson = Inr JNull, bTrailing = False\<rparr>"
    by (simp add: expired_env_def sdp_request_def sample_sdp_def)
  show ?thesis
    using expired_token_not_reused [OF s w1 nr h, of 0] by (simp add: sample_sdp_def) blast
qed

end
