(* ===== verification/Mno_Factory.thy ===== *)
theory Mno_Factory
  imports Sdp_Sender
begin

text \<open>
  \<^verbatim>\<open>internal/sms/adapters/mno/factory.go\<close> and \<^verbatim>\<open>internal/sms/service/router.go\<close>: the senders of
  the gateway and the choice of a sender for a message. A sender is a value of \<open>sender\<close>; the type
  assertion to \<^verbatim>\<open>ports.BatchSender\<close> succeeds for the SDP sender only.
\<close>

datatype sender = SdpSender sdp_config | SmppSender smpp_sender

fun sender_Send ::
  "env \<Rightarrow> string \<Rightarrow> sender \<Rightarrow> ctxid \<Rightarrow> message \<Rightarrow> world \<Rightarrow> send_result \<times> world" where
  "sender_Send e gq (SdpSender s) ctx msg w = sdp_Send e gq s ctx msg w"
| "sender_Send e gq (SmppSender s) ctx msg w = smpp_Send e gq s ctx msg w"

fun sender_IsHealthy :: "env \<Rightarrow> sender \<Rightarrow> world \<Rightarrow> bool" where
  "sender_IsHealthy e (SdpSender s) w = sdp_IsHealthy e s w"
| "sender_IsHealthy e (SmppSender s) w = smpp_IsHealthy e s w"

fun sender_Network :: "sender \<Rightarrow> network" where
  "sender_Network (SdpSender s) = NetworkSafaricom"
| "sender_Network (SmppSender s) = sNetwork s"

fun sender_Name :: "sender \<Rightarrow> string" where
  "sender_Name (SdpSender s) = ''Safaricom SDP''"
| "sender_Name (SmppSender s) = sName s"

fun asBatchSender :: "sender \<Rightarrow> sdp_config option" where
  "asBatchSender (SdpSender s) = Some s"
| "asBatchSender (SmppSender s) = None"

record factory =
  safaricomSDP :: sdp_config
  safaricomSMPP :: smpp_sender
  airtel :: smpp_sender
  airtelPromo :: smpp_sender
  telkom :: smpp_sender
  equitel :: smpp_sender
  cm :: smpp_sender

record factory_config =
  fcSDP :: sdp_config
  fcSafaricomSMPP :: smpp_cfg
  fcAirtel :: smpp_cfg
  fcAirtelPromo :: smpp_cfg
  fcTelkom :: smpp_cfg
  fcEquitel :: smpp_cfg
  fcCM :: smpp_cfg
  fcGatewayQueueName :: string
  fcBreakers :: breaker_registry
  fcMetrics :: bool

definition get_breaker :: "breaker_registry \<Rightarrow> network \<Rightarrow> network option" where
  "get_breaker reg n = (case cb_Get reg n of Inl _ \<Rightarrow> None | Inr cb \<Rightarrow> Some cb)"

text \<open>\<^verbatim>\<open>NewFactory\<close> also sets the package variable with the name of the gateway queue, which is
  the second component of the result.\<close>

definition NewFactory :: "factory_config \<Rightarrow> string \<Rightarrow> factory \<times> string" where
  "NewFactory c gq =
     (let gq = SetGatewayQueueName (fcGatewayQueueName c) gq;
          safCB = get_breaker (fcBreakers c) NetworkSafaricom;
          airCB = get_breaker (fcBreakers c) NetworkAirtel;
          telCB = get_breaker (fcBreakers c) NetworkTelkom;
          equCB = get_breaker (fcBreakers c) NetworkEquitel;
          cmCB = get_breaker (fcBreakers c) NetworkCM;
          m = fcMetrics c
      in (\<lparr>safaricomSDP = NewSafaricomSDPSender ((fcSDP c)\<lparr>dBreaker := safCB, dMetrics := m\<rparr>),
           safaricomSMPP = NewSafaricomSMPPSender (fcSafaricomSMPP c) safCB m,
           airtel = NewAirtelSender (fcAirtel c) airCB m,
           airtelPromo = NewAirtelSender (fcAirtelPromo c) airCB m,
           telkom = NewTelkomSender (fcTelkom c) telCB m,
           equitel = NewEquitelSender (fcEquitel c) equCB m,
           cm = NewCMSender (fcCM c) cmCB m\<rparr>, gq))"

fun GetSenderByNetwork :: "factory \<Rightarrow> network \<Rightarrow> goerr + sender" where
  "GetSenderByNetwork f NetworkSafaricom = Inr (SdpSender (safaricomSDP f))"
| "GetSenderByNetwork f NetworkAirtel = Inr (SmppSender (airtel f))"
| "GetSenderByNetwork f NetworkTelkom = Inr (SmppSender (telkom f))"
| "GetSenderByNetwork f NetworkEquitel = Inr (SmppSender (equitel f))"
| "GetSenderByNetwork f NetworkCM = Inr (SmppSender (cm f))"
| "GetSenderByNetwork f NetworkINTNL = Inr (SmppSender (cm f))"
| "GetSenderByNetwork f NetworkUnknown =
     Inl (Wrapf (error_text ErrUnknownNetwork @ '': '' @ network_String NetworkUnknown) ErrUnknownNetwork)"

definition GetSender :: "factory \<Rightarrow> message \<Rightarrow> goerr + sender" where
  "GetSender f msg =
     (let network = msg_Network msg in
      if IsSafaricom network \<and> IsTransactional msg then Inr (SmppSender (safaricomSMPP f))
      else if network = NetworkAirtel then
        (if IsTransactional msg then Inr (SmppSender (airtel f)) else Inr (SmppSender (airtelPromo f)))
      else GetSenderByNetwork f network)"

definition ListSenders :: "factory \<Rightarrow> sender list" where
  "ListSenders f =
     [SdpSender (safaricomSDP f), SmppSender (safaricomSMPP f), SmppSender (airtel f),
      SmppSender (airtelPromo f), SmppSender (telkom f), SmppSender (equitel f), SmppSender (cm f)]"

text \<open>\<^verbatim>\<open>Router\<close> (router.go) passes on what the factory answers.\<close>

definition router_GetSender :: "factory \<Rightarrow> message \<Rightarrow> goerr + sender" where
  "router_GetSender f msg =
     (case GetSender f msg of Inl err \<Rightarrow> Inl err | Inr sender \<Rightarrow> Inr sender)"

definition router_GetSenderByNetwork :: "factory \<Rightarrow> network \<Rightarrow> goerr + sender" where
  "router_GetSenderByNetwork f network = GetSenderByNetwork f network"

definition IsNetworkHealthy :: "env \<Rightarrow> factory \<Rightarrow> network \<Rightarrow> world \<Rightarrow> bool" where
  "IsNetworkHealthy e f network w =
     (case GetSenderByNetwork f network of Inl err \<Rightarrow> False | Inr sender \<Rightarrow> sender_IsHealthy e sender w)"

section \<open>Facts\<close>

interpretation senders: mno_sender "sender_Send e gq s ctx" for e gq s ctx
proof unfold_locales
  fix m w
  show "send_contract m (fst (sender_Send e gq s ctx m w))"
    by (cases s) (simp_all add: smpp.send_result sdp.send_result)
  show "quiet sender_event w (snd (sender_Send e gq s ctx m w))"
    by (cases s) (simp_all add: smpp.send_quiet sdp.send_quiet)
qed

lemma router_GetSender_eq [simp]: "router_GetSender f m = GetSender f m"
  by (simp add: router_GetSender_def split: sum.split)

lemma GetSender_Inr: "GetSender f m = Inr s \<Longrightarrow> s \<in> set (ListSenders f)"
  by (cases "msg_Network m")
    (auto simp: GetSender_def ListSenders_def IsSafaricom_def Let_def split: if_splits)

lemma GetSender_batch:
  "GetSender f m = Inr s \<Longrightarrow> asBatchSender s = Some d \<Longrightarrow> d = safaricomSDP f"
  by (cases "msg_Network m")
    (auto simp: GetSender_def IsSafaricom_def Let_def split: if_splits)

text \<open>Choice of a sender: in the factory the gateway builds, every message of a known network gets
  a sender of its network (the CM sender for international ones), the SDP sender exactly for
  non-transactional Safaricom messages, and the only messages without a sender are those of an
  unknown network, which get \<^verbatim>\<open>ErrUnknownNetwork\<close>; in particular a message that passes
  \<^verbatim>\<open>Validate\<close> always has a sender.\<close>

theorem GetSender_total:
  "case router_GetSender (fst (NewFactory c gq)) m of
     Inr s \<Rightarrow>
       sender_Network s = (if IsInternational (msg_Network m) then NetworkCM else msg_Network m) \<and>
       network_IsValid (msg_Network m) \<and>
       (asBatchSender s \<noteq> None) = (IsSafaricom (msg_Network m) \<and> \<not> IsTransactional m)
   | Inl err \<Rightarrow> msg_Network m = NetworkUnknown \<and> errors_Is err ErrUnknownNetwork \<and> Validate m \<noteq> None"
  by (cases "msg_Network m")
    (auto simp: GetSender_def NewFactory_def IsSafaricom_def IsInternational_def network_IsValid_def
      NewSafaricomSMPPSender_def NewAirtelSender_def NewTelkomSender_def NewEquitelSender_def NewCMSender_def
      NewBaseSMPPSender_def Validate_def Let_def)

text \<open>Every sender of the gateway keeps the contract of \<^verbatim>\<open>MNOSender.Send\<close>: the result carries
  the message it was given with only status fields changed; a success has no error, an error comes
  with a failed status, and exactly the retryable results count one more retry. A send touches only
  the operator, the token cache, the breaker and the metrics.\<close>

theorem sender_Send_contract:
  "send_contract msg (fst (sender_Send e gq s ctx msg w)) \<and>
   quiet sender_event w (snd (sender_Send e gq s ctx msg w))"
  by (simp add: senders.send_result senders.send_quiet)

end
