(* ===== verification/Rate_Limiter.thy ===== *)
theory Rate_Limiter
  imports World
begin

text \<open>
  \<^verbatim>\<open>internal/common/ratelimit/limiter.go\<close>: one token bucket per network for the input queues and
  one for the retry queues. The buckets (\<^verbatim>\<open>rate.Limiter\<close>) are a parameter: \<open>rateWait\<close> answers
  a wait for \<open>n\<close> tokens. A missing bucket is a nil pointer, and waiting on it panics.
\<close>

record limiter =
  main :: "network \<rightharpoonup> rate_limiter"
  retry :: "network \<rightharpoonup> rate_limiter"
  defaults :: "network \<rightharpoonup> int"

record rl_config =
  cfgSafaricom :: int
  cfgAirtel :: int
  cfgTelkom :: int
  cfgEquitel :: int
  cfgCM :: int
  cfgDefault :: int

record rl_retry_config =
  rcSafaricomSDP :: int
  rcSafaricomSMPP :: int
  rcAirtel :: int
  rcEquitel :: int
  rcTelkom :: int
  rcCM :: int
  rcBurstFactor :: int

definition rl_DefaultConfig :: rl_config where
  "rl_DefaultConfig =
     \<lparr>cfgSafaricom = 200, cfgAirtel = 50, cfgTelkom = 100, cfgEquitel = 20, cfgCM = 20,
      cfgDefault = 20\<rparr>"

definition setMainLimiter :: "network \<Rightarrow> int \<Rightarrow> limiter \<Rightarrow> limiter" where
  "setMainLimiter network ratePerSecond l =
     l\<lparr>main := (main l)(network \<mapsto> \<lparr>rlLimit = ratePerSecond, rlBurst = ratePerSecond\<rparr>),
       defaults := (defaults l)(network \<mapsto> ratePerSecond)\<rparr>"

definition rl_New :: "rl_config option \<Rightarrow> limiter" where
  "rl_New cfg =
     (let cfg = (case cfg of None \<Rightarrow> rl_DefaultConfig | Some c \<Rightarrow> c);
          l = \<lparr>main = Map.empty, retry = Map.empty, defaults = Map.empty\<rparr>;
          l = setMainLimiter NetworkSafaricom (cfgSafaricom cfg) l;
          l = setMainLimiter NetworkAirtel (cfgAirtel cfg) l;
          l = setMainLimiter NetworkTelkom (cfgTelkom cfg) l;
          l = setMainLimiter NetworkEquitel (cfgEquitel cfg) l;
          l = setMainLimiter NetworkCM (cfgCM cfg) l;
          l = setMainLimiter NetworkINTNL (cfgCM cfg) l
      in setMainLimiter NetworkUnknown (cfgDefault cfg) l)"

definition setRetry :: "int \<Rightarrow> network \<Rightarrow> int \<Rightarrow> limiter \<Rightarrow> limiter" where
  "setRetry burst network rps l =
     (let rps = (if rps \<le> 0 then 1 else rps) in
      l\<lparr>retry := (retry l)(network \<mapsto> \<lparr>rlLimit = rps, rlBurst = wrap64 (rps * burst)\<rparr>)\<rparr>)"

definition WithRetryConfig :: "rl_retry_config option \<Rightarrow> limiter \<Rightarrow> limiter" where
  "WithRetryConfig cfg l =
     (case cfg of
        None \<Rightarrow> l
      | Some cfg \<Rightarrow>
          (let burst = (if rcBurstFactor cfg < 1 then 1 else rcBurstFactor cfg);
               safaricomRetry = (if rcSafaricomSMPP cfg > rcSafaricomSDP cfg then rcSafaricomSMPP cfg
                                 else rcSafaricomSDP cfg);
               l = setRetry burst NetworkSafaricom safaricomRetry l;
               l = setRetry burst NetworkAirtel (rcAirtel cfg) l;
               l = setRetry burst NetworkTelkom (rcTelkom cfg) l;
               l = setRetry burst NetworkEquitel (rcEquitel cfg) l;
               l = setRetry burst NetworkCM (rcCM cfg) l;
               l = setRetry burst NetworkINTNL (rcCM cfg) l
           in setRetry burst NetworkUnknown 1 l))"

definition getMainLimiter :: "limiter \<Rightarrow> network \<Rightarrow> rate_limiter option" where
  "getMainLimiter l network =
     (case main l network of None \<Rightarrow> main l NetworkUnknown | Some r \<Rightarrow> Some r)"

definition getRetryLimiter :: "limiter \<Rightarrow> network \<Rightarrow> rate_limiter option" where
  "getRetryLimiter l network =
     (case retry l network of None \<Rightarrow> retry l NetworkUnknown | Some r \<Rightarrow> Some r)"

definition bucket_WaitN ::
  "env \<Rightarrow> ctxid \<Rightarrow> budget \<Rightarrow> network \<Rightarrow> rate_limiter option \<Rightarrow> int \<Rightarrow> world \<Rightarrow> goerr option \<times> world" where
  "bucket_WaitN e ctx b network r n w =
     (case r of
        None \<Rightarrow> (Some (ErrExternal ''invalid memory address or nil pointer dereference''), crash w)
      | Some rl \<Rightarrow>
          (let err = rateWait e (trace w) ctx b network rl n
           in (err, emit e (EvRateWait b network n err) w)))"

definition rl_Wait :: "env \<Rightarrow> limiter \<Rightarrow> ctxid \<Rightarrow> network \<Rightarrow> world \<Rightarrow> goerr option \<times> world" where
  "rl_Wait e l ctx network w = bucket_WaitN e ctx MainBudget network (getMainLimiter l network) 1 w"

definition rl_WaitRetry :: "env \<Rightarrow> limiter \<Rightarrow> ctxid \<Rightarrow> network \<Rightarrow> world \<Rightarrow> goerr option \<times> world" where
  "rl_WaitRetry e l ctx network w = bucket_WaitN e ctx RetryBudget network (getRetryLimiter l network) 1 w"

definition rl_WaitN :: "env \<Rightarrow> limiter \<Rightarrow> ctxid \<Rightarrow> network \<Rightarrow> int \<Rightarrow> world \<Rightarrow> goerr option \<times> world" where
  "rl_WaitN e l ctx network n w = bucket_WaitN e ctx MainBudget network (getMainLimiter l network) n w"

definition rl_WaitRetryN :: "env \<Rightarrow> limiter \<Rightarrow> ctxid \<Rightarrow> network \<Rightarrow> int \<Rightarrow> world \<Rightarrow> goerr option \<times> world" where
  "rl_WaitRetryN e l ctx network n w = bucket_WaitN e ctx RetryBudget network (getRetryLimiter l network) n w"

definition SetRate :: "network \<Rightarrow> int \<Rightarrow> limiter \<Rightarrow> limiter" where
  "SetRate network ratePerSecond l =
     (case main l network of
        None \<Rightarrow> l
      | Some r \<Rightarrow>
          l\<lparr>main := (main l)(network \<mapsto> r\<lparr>rlLimit := ratePerSecond, rlBurst := ratePerSecond\<rparr>),
            defaults := (defaults l)(network \<mapsto> ratePerSecond)\<rparr>)"

definition GetRate :: "limiter \<Rightarrow> network \<Rightarrow> int" where
  "GetRate l network =
     (case defaults l network of
        Some rps \<Rightarrow> rps
      | None \<Rightarrow> (case defaults l NetworkUnknown of Some rps \<Rightarrow> rps | None \<Rightarrow> 0))"

definition rl_Reset :: "limiter \<Rightarrow> limiter" where
  "rl_Reset l =
     l\<lparr>main := (\<lambda>n. case defaults l n of
          Some rps \<Rightarrow> Some \<lparr>rlLimit = rps, rlBurst = rps\<rparr>
        | None \<Rightarrow> main l n)\<rparr>"

text \<open>One round of the loop of \<^verbatim>\<open>WatchDynamicConfig\<close>; \<open>getInt field default\<close> reads the
  namespace \<^verbatim>\<open>rate_limits\<close>.\<close>

definition applyDynamicRates :: "(string \<Rightarrow> int \<Rightarrow> int) \<Rightarrow> limiter \<Rightarrow> limiter" where
  "applyDynamicRates getInt l =
     (let l = SetRate NetworkSafaricom (getInt ''safaricom'' (GetRate l NetworkSafaricom)) l;
          l = SetRate NetworkAirtel (getInt ''airtel'' (GetRate l NetworkAirtel)) l;
          l = SetRate NetworkTelkom (getInt ''telkom'' (GetRate l NetworkTelkom)) l;
          l = SetRate NetworkEquitel (getInt ''equitel'' (GetRate l NetworkEquitel)) l;
          cmRate = getInt ''cm'' (GetRate l NetworkCM);
          l = SetRate NetworkCM cmRate l;
          l = SetRate NetworkINTNL cmRate l
      in SetRate NetworkUnknown (getInt ''default'' (GetRate l NetworkUnknown)) l)"

section \<open>Invariant and facts\<close>

text \<open>Every network has a bucket of its own whose rate and burst are the recorded rate.\<close>

definition limiter_wf :: "limiter \<Rightarrow> bool" where
  "limiter_wf l \<longleftrightarrow>
     (\<forall>n. \<exists>r. main l n = Some r \<and> defaults l n = Some (rlLimit r) \<and> rlBurst r = rlLimit r)"

definition has_retry :: "limiter \<Rightarrow> bool" where
  "has_retry l \<longleftrightarrow> retry l NetworkUnknown \<noteq> None"

lemma limiter_wf_New [simp]: "limiter_wf (rl_New cfg)"
proof -
  have "\<exists>r. main (rl_New cfg) n = Some r \<and> defaults (rl_New cfg) n = Some (rlLimit r) \<and>
      rlBurst r = rlLimit r" for n
    by (cases n) (simp_all add: rl_New_def setMainLimiter_def Let_def)
  then show ?thesis by (simp add: limiter_wf_def)
qed

lemma limiter_wf_WithRetry: "limiter_wf l \<Longrightarrow> limiter_wf (WithRetryConfig cfg l)"
  by (auto simp: limiter_wf_def WithRetryConfig_def setRetry_def Let_def split: option.splits)

lemma limiter_wf_SetRate: "limiter_wf l \<Longrightarrow> limiter_wf (SetRate n r l)"
  by (auto simp: limiter_wf_def SetRate_def split: option.splits)

interpretation rates: settings SetRate GetRate "\<lambda>l _. limiter_wf l"
proof unfold_locales
  fix l k v j
  assume wf: "limiter_wf l"
  then show "limiter_wf (SetRate k v l)" by (rule limiter_wf_SetRate)
  from wf obtain r where "main l k = Some r" by (auto simp: limiter_wf_def)
  then show "GetRate (SetRate k v l) k = v" by (simp add: SetRate_def GetRate_def)
  from wf obtain rj :: rate_limiter where "defaults l j = Some (rlLimit rj)" unfolding limiter_wf_def by blast
  then show "k \<noteq> j \<Longrightarrow> GetRate (SetRate k v l) j = GetRate l j"
    by (auto simp: SetRate_def GetRate_def split: option.splits)
qed

lemma bucket_WaitN_world_le [simp]: "world_le w (snd (bucket_WaitN e ctx b n r k w))"
  by (auto simp: bucket_WaitN_def Let_def split: option.splits)

lemma rl_waits_world_le [simp]:
  "world_le w (snd (rl_Wait e l ctx n w))" "world_le w (snd (rl_WaitRetry e l ctx n w))"
  "world_le w (snd (rl_WaitN e l ctx n k w))" "world_le w (snd (rl_WaitRetryN e l ctx n k w))"
  by (simp_all add: rl_Wait_def rl_WaitRetry_def rl_WaitN_def rl_WaitRetryN_def)

lemma has_retry_getRetryLimiter: "has_retry l \<Longrightarrow> getRetryLimiter l n \<noteq> None"
  by (auto simp: has_retry_def getRetryLimiter_def split: option.splits)

lemma retry_WithRetryConfig:
  "cfg \<noteq> None \<Longrightarrow> has_retry (WithRetryConfig cfg l)"
  by (auto simp: has_retry_def WithRetryConfig_def setRetry_def Let_def)

text \<open>Rate limits are live: after any sequence of rate changes the limiter is still well formed
  (every network has its own bucket, burst and recorded rate agree with its limit), the rate of a
  network is the last one that was set for it, and resetting the limiter keeps all rates.\<close>

theorem SetRate_sequence:
  assumes "limiter_wf l"
  shows "limiter_wf (fold (\<lambda>(n, r). SetRate n r) changes l) \<and>
         GetRate (fold (\<lambda>(n, r). SetRate n r) changes l) n =
           (case map_of (rev changes) n of None \<Rightarrow> GetRate l n | Some r \<Rightarrow> r) \<and>
         GetRate (rl_Reset (fold (\<lambda>(n, r). SetRate n r) changes l)) n =
           GetRate (fold (\<lambda>(n, r). SetRate n r) changes l) n \<and>
         limiter_wf (rl_Reset (fold (\<lambda>(n, r). SetRate n r) changes l))"
proof -
  let ?l = "fold (\<lambda>(n, r). SetRate n r) changes l"
  have wf: "limiter_wf ?l" using rates.ok_writes [OF assms] by simp
  have "limiter_wf (rl_Reset ?l)"
    using wf by (force simp: limiter_wf_def rl_Reset_def)
  moreover have "GetRate (rl_Reset ?l) n = GetRate ?l n"
    by (simp add: GetRate_def rl_Reset_def split: option.split)
  ultimately show ?thesis using wf rates.get_writes [OF assms] by simp
qed

theorem SetRate_sequence_witness:
  "GetRate (fold (\<lambda>(n, r). SetRate n r) [(NetworkAirtel, 7), (NetworkAirtel, 9)] (rl_New None))
     NetworkAirtel = 9"
  using SetRate_sequence [OF limiter_wf_New [of None], of "[(NetworkAirtel, 7), (NetworkAirtel, 9)]" NetworkAirtel]
  by simp

text \<open>The rate reserved for retries of a network, as \<^verbatim>\<open>RetryConfig\<close> documents it.\<close>

definition reserved_rps :: "rl_retry_config \<Rightarrow> network \<Rightarrow> int" where
  "reserved_rps c n =
     (case n of
        NetworkSafaricom \<Rightarrow> max (rcSafaricomSDP c) (rcSafaricomSMPP c)
      | NetworkAirtel \<Rightarrow> rcAirtel c | NetworkTelkom \<Rightarrow> rcTelkom c
      | NetworkEquitel \<Rightarrow> rcEquitel c | NetworkCM \<Rightarrow> rcCM c | NetworkINTNL \<Rightarrow> rcCM c
      | NetworkUnknown \<Rightarrow> 1)"

text \<open>Attaching a retry configuration gives every network a retry bucket with its reserved rate
  (at least 1) and a burst of rate times factor (at least 1), so that a wait on the retry budget
  never panics; without \<^verbatim>\<open>WithRetryConfig\<close> every wait on the retry budget dereferences a nil
  bucket.\<close>

theorem retry_budget_safe:
  "(\<exists>b. getRetryLimiter (WithRetryConfig (Some c) l) n = Some b \<and>
        rlLimit b = max 1 (reserved_rps c n) \<and>
        rlBurst b = wrap64 (rlLimit b * max 1 (rcBurstFactor c))) \<and>
   crashed (snd (rl_WaitRetryN e (WithRetryConfig (Some c) l) ctx n k w)) = crashed w \<and>
   crashed (snd (rl_WaitRetry e (rl_New m) ctx n w)) \<and>
   crashed (snd (rl_WaitRetryN e (rl_New m) ctx n k w))"
proof -
  have "getRetryLimiter (WithRetryConfig (Some c) l) n \<noteq> None"
    by (rule has_retry_getRetryLimiter) (simp add: retry_WithRetryConfig)
  then have "crashed (snd (rl_WaitRetryN e (WithRetryConfig (Some c) l) ctx n k w)) = crashed w"
    by (auto simp: rl_WaitRetryN_def bucket_WaitN_def Let_def)
  moreover have "\<exists>b. getRetryLimiter (WithRetryConfig (Some c) l) n = Some b \<and>
        rlLimit b = max 1 (reserved_rps c n) \<and>
        rlBurst b = wrap64 (rlLimit b * max 1 (rcBurstFactor c))"
    by (cases n) (auto simp: getRetryLimiter_def WithRetryConfig_def setRetry_def reserved_rps_def
        max_def Let_def)
  moreover have "getRetryLimiter (rl_New m) n = None"
    by (simp add: getRetryLimiter_def rl_New_def setMainLimiter_def Let_def)
  then have "crashed (snd (rl_WaitRetryN e (rl_New m) ctx n k w))"
    "crashed (snd (rl_WaitRetry e (rl_New m) ctx n w))"
    by (simp_all add: rl_WaitRetryN_def rl_WaitRetry_def bucket_WaitN_def)
  ultimately show ?thesis by blast
qed

end
