(* ===== verification/Publisher.thy ===== *)
theory Publisher
  imports World "HOL-Library.Sublist"
begin

text \<open>
  \<^verbatim>\<open>internal/sms/adapters/rabbitmq/publisher.go\<close>: publishing messages and results to the output
  queues over one dedicated channel. The mutex makes every \<^verbatim>\<open>publish\<close> atomic, so a publish is
  one function here; \<open>channelClosed\<close> says whether the channel is unusable at that moment.

  \<^verbatim>\<open>json.Marshal\<close> of a message cannot fail for messages that were decoded from JSON (no NaN cost);
  what it writes is the message without \<^verbatim>\<open>SourceQueue\<close>, whose tag is \<^verbatim>\<open>json:"-"\<close>.
\<close>

record publisher =
  SaveToDBQueue :: string
  RetryQueue :: string
  DeadLetterQueue :: string
  TransactionalDelayQueue :: string
  TransactionalRetryQueue :: string
  PromotionalDelayQueue :: string
  PromotionalRetryQueue :: string
  gatewayQueueName :: string
  pubTransactionalDelayMs :: int
  pubPromotionalDelayMs :: int

definition wire :: "message \<Rightarrow> message" where
  "wire m = m\<lparr>SourceQueue := []\<rparr>"

definition wrap32 :: "int \<Rightarrow> int" where
  "wrap32 x = (x + 2 ^ 31) mod 2 ^ 32 - 2 ^ 31"

definition sample_publisher :: publisher where
  "sample_publisher =
     \<lparr>SaveToDBQueue = ''SAVE_TO_DB'', RetryQueue = ''RETRY'', DeadLetterQueue = ''DLQ'',
      TransactionalDelayQueue = ''TX_DELAY'', TransactionalRetryQueue = ''TX_RETRY'',
      PromotionalDelayQueue = ''PROMO_DELAY'', PromotionalRetryQueue = ''PROMO_RETRY'',
      gatewayQueueName = ''GATEWAY'', pubTransactionalDelayMs = 30000,
      pubPromotionalDelayMs = 300000\<rparr>"

section \<open>Opening the publisher\<close>

definition DeclareQueueWithArgs ::
  "env \<Rightarrow> string \<Rightarrow> (int \<times> string) option \<Rightarrow> world \<Rightarrow> goerr option \<times> world" where
  "DeclareQueueWithArgs e name args w =
     (let err = queueDeclare e (trace w) name args in (err, emit e (EvDeclare name args err) w))"

definition DeclareQueue :: "env \<Rightarrow> string \<Rightarrow> world \<Rightarrow> goerr option \<times> world" where
  "DeclareQueue e name w = DeclareQueueWithArgs e name None w"

fun declareAll :: "env \<Rightarrow> string list \<Rightarrow> world \<Rightarrow> goerr option \<times> world" where
  "declareAll e [] w = (None, w)"
| "declareAll e (q # qs) w =
     (case DeclareQueue e q w of
        (Some err, w) \<Rightarrow> (Some err, w)
      | (None, w) \<Rightarrow> declareAll e qs w)"

definition conn_NewChannel :: "env \<Rightarrow> world \<Rightarrow> goerr option \<times> world" where
  "conn_NewChannel e w = (let err = newChannel e (trace w) in (err, emit e (EvChannel err) w))"

definition NewPublisher :: "env \<Rightarrow> publisher \<Rightarrow> world \<Rightarrow> (goerr + publisher) \<times> world" where
  "NewPublisher e cfg w =
     (case conn_NewChannel e w of
        (Some err, w) \<Rightarrow> (Inl (Wrapf (''open publisher channel: '' @ error_text err) err), w)
      | (None, w) \<Rightarrow>
     (case declareAll e [SaveToDBQueue cfg, RetryQueue cfg, DeadLetterQueue cfg] w of
        (Some err, w) \<Rightarrow> (Inl err, w)
      | (None, w) \<Rightarrow>
     (case declareAll e [TransactionalRetryQueue cfg, PromotionalRetryQueue cfg] w of
        (Some err, w) \<Rightarrow> (Inl err, w)
      | (None, w) \<Rightarrow>
     (case DeclareQueueWithArgs e (TransactionalDelayQueue cfg)
             (Some (wrap32 (pubTransactionalDelayMs cfg), TransactionalRetryQueue cfg)) w of
        (Some err, w) \<Rightarrow> (Inl err, w)
      | (None, w) \<Rightarrow>
     (case DeclareQueueWithArgs e (PromotionalDelayQueue cfg)
             (Some (wrap32 (pubPromotionalDelayMs cfg), PromotionalRetryQueue cfg)) w of
        (Some err, w) \<Rightarrow> (Inl err, w)
      | (None, w) \<Rightarrow> (Inr cfg, w))))))"

section \<open>Publishing\<close>

definition getChannel :: "env \<Rightarrow> world \<Rightarrow> goerr option \<times> world" where
  "getChannel e w =
     (if \<not> channelClosed e (trace w) then (None, w)
      else case conn_NewChannel e w of
             (Some err, w) \<Rightarrow> (Some (Wrapf (''reopen publisher channel: '' @ error_text err) err), w)
           | (None, w) \<Rightarrow> (None, w))"

definition publish :: "env \<Rightarrow> ctxid \<Rightarrow> string \<Rightarrow> amqp_body \<Rightarrow> world \<Rightarrow> goerr option \<times> world" where
  "publish e ctx queueName body w =
     (case getChannel e w of
        (Some err, w) \<Rightarrow> (Some err, w)
      | (None, w) \<Rightarrow>
          (let err = amqpPublish e (trace w) ctx queueName body
           in (err, emit e (EvPublish queueName body err) w)))"

definition Publish :: "env \<Rightarrow> ctxid \<Rightarrow> string \<Rightarrow> message \<Rightarrow> world \<Rightarrow> goerr option \<times> world" where
  "Publish e ctx queueName msg w = publish e ctx queueName (BodyObject (wire msg)) w"

text \<open>The callers never pass a nil slice, which would marshal to \<^verbatim>\<open>null\<close>.\<close>

definition PublishBatch :: "env \<Rightarrow> ctxid \<Rightarrow> string \<Rightarrow> message list \<Rightarrow> world \<Rightarrow> goerr option \<times> world" where
  "PublishBatch e ctx queueName msgs w =
     publish e ctx queueName (BodyArray (map (\<lambda>m. Some (wire m)) msgs)) w"

definition PublishResult ::
  "env \<Rightarrow> publisher \<Rightarrow> ctxid \<Rightarrow> send_result \<Rightarrow> world \<Rightarrow> goerr option \<times> world" where
  "PublishResult e p ctx result w =
     (let queueName =
        (case rType result of
           ResultSuccess \<Rightarrow> SaveToDBQueue p
         | ResultRetryable \<Rightarrow>
             if IsPromotional (rMessage result) (gatewayQueueName p) then PromotionalDelayQueue p
             else TransactionalDelayQueue p
         | ResultPermanent \<Rightarrow> DeadLetterQueue p)
      in case Publish e ctx queueName (rMessage result) w of
           (Some err, w) \<Rightarrow> (Some err, w)
         | (None, w) \<Rightarrow>
             if rType result = ResultPermanent then
               (case Publish e ctx (SaveToDBQueue p) (rMessage result) w of
                  (Some err, w) \<Rightarrow> (Some err, w)
                | (None, w) \<Rightarrow> (None, w))
             else (None, w))"

fun publishSuccessful ::
  "env \<Rightarrow> publisher \<Rightarrow> ctxid \<Rightarrow> send_result list \<Rightarrow> world \<Rightarrow> goerr option \<times> world" where
  "publishSuccessful e p ctx [] w = (None, w)"
| "publishSuccessful e p ctx (result # rs) w =
     (case Publish e ctx (SaveToDBQueue p) (rMessage result) w of
        (Some err, w) \<Rightarrow> (Some err, w)
      | (None, w) \<Rightarrow> publishSuccessful e p ctx rs w)"

text \<open>The grouping loop of \<^verbatim>\<open>PublishBatchResults\<close>: (transactional, promotional).\<close>

definition groupRetries :: "publisher \<Rightarrow> send_result list \<Rightarrow> message list \<times> message list" where
  "groupRetries p rs =
     foldl (\<lambda>(tr, pr) result.
       if IsPromotional (rMessage result) (gatewayQueueName p) then (tr, pr @ [rMessage result])
       else (tr @ [rMessage result], pr)) ([], []) rs"

definition PublishBatchResults ::
  "env \<Rightarrow> publisher \<Rightarrow> ctxid \<Rightarrow> batch_result \<Rightarrow> world \<Rightarrow> goerr option \<times> world" where
  "PublishBatchResults e p ctx results w =
     (case publishSuccessful e p ctx (Successful results) w of
        (Some err, w) \<Rightarrow> (Some err, w)
      | (None, w) \<Rightarrow>
     (let (transactionalRetries, promotionalRetries) = groupRetries p (Retryable results) in
      case (if length transactionalRetries > 0
            then PublishBatch e ctx (TransactionalDelayQueue p) transactionalRetries w
            else (None, w)) of
        (Some err, w) \<Rightarrow> (Some err, w)
      | (None, w) \<Rightarrow>
     (case (if length promotionalRetries > 0
            then PublishBatch e ctx (PromotionalDelayQueue p) promotionalRetries w
            else (None, w)) of
        (Some err, w) \<Rightarrow> (Some err, w)
      | (None, w) \<Rightarrow>
          if length (Failed results) > 0 then
            (let failedMsgs = map rMessage (Failed results) in
             case PublishBatch e ctx (DeadLetterQueue p) failedMsgs w of
               (Some err, w) \<Rightarrow> (Some err, w)
             | (None, w) \<Rightarrow>
                 (case PublishBatch e ctx (SaveToDBQueue p) failedMsgs w of
                    (Some err, w) \<Rightarrow> (Some err, w)
                  | (None, w) \<Rightarrow> (None, w)))
          else (None, w))))"

section \<open>Publication plans\<close>

text \<open>
  The abstract specification of a publisher: a plan, the list of bodies with their queues, that is
  published in order up to the first error.
\<close>

type_synonym plan = "(string \<times> amqp_body) list"

fun run_plan :: "env \<Rightarrow> ctxid \<Rightarrow> plan \<Rightarrow> world \<Rightarrow> goerr option \<times> world" where
  "run_plan e ctx [] w = (None, w)"
| "run_plan e ctx ((q, b) # ps) w =
     (case publish e ctx q b w of
        (Some err, w) \<Rightarrow> (Some err, w)
      | (None, w) \<Rightarrow> run_plan e ctx ps w)"

definition array_of :: "message list \<Rightarrow> amqp_body" where
  "array_of ms = BodyArray (map (\<lambda>m. Some (wire m)) ms)"

definition plan_array :: "string \<Rightarrow> message list \<Rightarrow> plan" where
  "plan_array q ms = (if ms = [] then [] else [(q, array_of ms)])"

definition results_plan :: "publisher \<Rightarrow> batch_result \<Rightarrow> plan" where
  "results_plan p b =
     map (\<lambda>r. (SaveToDBQueue p, BodyObject (wire (rMessage r)))) (Successful b) @
     plan_array (TransactionalDelayQueue p)
       (filter (\<lambda>m. \<not> IsPromotional m (gatewayQueueName p)) (map rMessage (Retryable b))) @
     plan_array (PromotionalDelayQueue p)
       (filter (\<lambda>m. IsPromotional m (gatewayQueueName p)) (map rMessage (Retryable b))) @
     plan_array (DeadLetterQueue p) (map rMessage (Failed b)) @
     plan_array (SaveToDBQueue p) (map rMessage (Failed b))"

definition result_plan :: "publisher \<Rightarrow> send_result \<Rightarrow> plan" where
  "result_plan p r =
     (let b = BodyObject (wire (rMessage r)) in
      case rType r of
        ResultSuccess \<Rightarrow> [(SaveToDBQueue p, b)]
      | ResultRetryable \<Rightarrow>
          [(if IsPromotional (rMessage r) (gatewayQueueName p) then PromotionalDelayQueue p
            else TransactionalDelayQueue p, b)]
      | ResultPermanent \<Rightarrow> [(DeadLetterQueue p, b), (SaveToDBQueue p, b)])"

text \<open>The bodies that the broker accepted, in order.\<close>

fun accepted1 :: "event \<Rightarrow> plan" where
  "accepted1 (EvPublish q b None) = [(q, b)]"
| "accepted1 _ = []"

definition accepted :: "event list \<Rightarrow> plan" where
  "accepted es = concat (map accepted1 es)"

fun publisher_event :: "event \<Rightarrow> bool" where
  "publisher_event (EvPublish q b r) = True"
| "publisher_event (EvChannel r) = True"
| "publisher_event _ = False"

lemma accepted_simps [simp]:
  "accepted [] = []" "accepted (x # es) = accepted1 x @ accepted es"
  "accepted (as @ bs) = accepted as @ accepted bs"
  by (simp_all add: accepted_def)

lemma run_plan_append:
  "run_plan e ctx (ps @ qs) w =
     (case run_plan e ctx ps w of
        (Some err, w) \<Rightarrow> (Some err, w)
      | (None, w) \<Rightarrow> run_plan e ctx qs w)"
  by (induction ps arbitrary: w) (auto split: prod.splits option.splits)

lemma publishSuccessful_plan:
  "publishSuccessful e p ctx rs w =
     run_plan e ctx (map (\<lambda>r. (SaveToDBQueue p, BodyObject (wire (rMessage r)))) rs) w"
  by (induction rs arbitrary: w) (simp_all add: Publish_def split: prod.splits option.splits)

lemma groupRetries_filter:
  "groupRetries p rs =
     (filter (\<lambda>m. \<not> IsPromotional m (gatewayQueueName p)) (map rMessage rs),
      filter (\<lambda>m. IsPromotional m (gatewayQueueName p)) (map rMessage rs))"
proof -
  have "foldl (\<lambda>(tr, pr) result.
       if IsPromotional (rMessage result) (gatewayQueueName p) then (tr, pr @ [rMessage result])
       else (tr @ [rMessage result], pr)) (a, b) rs =
     (a @ filter (\<lambda>m. \<not> IsPromotional m (gatewayQueueName p)) (map rMessage rs),
      b @ filter (\<lambda>m. IsPromotional m (gatewayQueueName p)) (map rMessage rs))" for a b
    by (induction rs arbitrary: a b) auto
  then show ?thesis by (simp add: groupRetries_def)
qed

lemma PublishBatch_plan: "PublishBatch e ctx q ms w = run_plan e ctx [(q, array_of ms)] w"
  by (simp add: PublishBatch_def array_of_def split: prod.splits option.splits)

lemma plan_array_run:
  "(if length ms > 0 then PublishBatch e ctx q ms w else (None, w)) = run_plan e ctx (plan_array q ms) w"
  by (simp add: PublishBatch_plan plan_array_def)

lemma PublishBatchResults_plan:
  "PublishBatchResults e p ctx b w = run_plan e ctx (results_plan p b) w"
  unfolding PublishBatchResults_def results_plan_def publishSuccessful_plan groupRetries_filter
    prod.case Let_def plan_array_run run_plan_append
  by (auto simp: PublishBatch_plan plan_array_def split: prod.splits option.splits)

lemma PublishResult_plan: "PublishResult e p ctx r w = run_plan e ctx (result_plan p r) w"
  by (auto simp: PublishResult_def result_plan_def Publish_def Let_def
      split: prod.splits option.splits result_type.splits)

section \<open>The contract of a publisher\<close>

text \<open>What every client of \<^verbatim>\<open>ports.QueuePublisher\<close> relies on: publishing adds only publisher
  events and never panics, success means that the whole plan was accepted in order, and an error
  means that a proper prefix of it was.\<close>

locale queue_publisher =
  fixes pub :: "'x \<Rightarrow> world \<Rightarrow> goerr option \<times> world" and plan_of :: "'x \<Rightarrow> plan"
  assumes pub_frame: "frame publisher_event w (snd (pub x w))"
    and pub_crash: "crashed (snd (pub x w)) = crashed w"
    and pub_ok: "fst (pub x w) = None \<Longrightarrow> accepted (new_events w (snd (pub x w))) = plan_of x"
    and pub_err: "fst (pub x w) \<noteq> None \<Longrightarrow>
      strict_prefix (accepted (new_events w (snd (pub x w)))) (plan_of x)"
begin

lemma pub_le: "world_le w (snd (pub x w))"
  using pub_frame by (rule frame_world_le)

lemma pub_prefix: "prefix (accepted (new_events w (snd (pub x w)))) (plan_of x)"
  using pub_ok [of x w] pub_err [of x w] by (cases "fst (pub x w) = None") auto

lemma pub_complete:
  "fst (pub x w) = None \<longleftrightarrow> accepted (new_events w (snd (pub x w))) = plan_of x"
  using pub_ok [of x w] pub_err [of x w] by (metis strict_prefix_def)

lemma pub_outcome:
  "if fst (pub x w) = None then accepted (new_events w (snd (pub x w))) = plan_of x
   else strict_prefix (accepted (new_events w (snd (pub x w)))) (plan_of x)"
  by (simp add: pub_ok pub_err)

end

lemma conn_NewChannel_frame [simp]:
  "frame publisher_event w (snd (conn_NewChannel e w))"
  "crashed (snd (conn_NewChannel e w)) = crashed w"
  "accepted (new_events w (snd (conn_NewChannel e w))) = []"
  by (simp_all add: conn_NewChannel_def Let_def)

lemma getChannel_frame:
  "frame publisher_event w (snd (getChannel e w))"
  "crashed (snd (getChannel e w)) = crashed w"
  "accepted (new_events w (snd (getChannel e w))) = []"
  by (auto simp: getChannel_def conn_NewChannel_def Let_def split: option.splits)

lemma publish_contract:
  "frame publisher_event w (snd (publish e ctx q b w)) \<and>
   crashed (snd (publish e ctx q b w)) = crashed w \<and>
   accepted (new_events w (snd (publish e ctx q b w))) =
     (if fst (publish e ctx q b w) = None then [(q, b)] else [])"
proof (cases "getChannel e w")
  case (Pair r w1)
  have g: "frame publisher_event w w1" "crashed w1 = crashed w" "accepted (new_events w w1) = []"
    using getChannel_frame [where e = e and w = w] Pair by simp_all
  then have le: "world_le w w1" by (simp add: frame_def)
  show ?thesis
    using g frame_trans [OF g(1)] new_events_emit_trans [OF le]
    by (cases r; cases "amqpPublish e (trace w1) ctx q b") (simp_all add: publish_def Pair Let_def)
qed

lemma run_plan_contract:
  "frame publisher_event w (snd (run_plan e ctx ps w)) \<and>
   crashed (snd (run_plan e ctx ps w)) = crashed w \<and>
   (if fst (run_plan e ctx ps w) = None then accepted (new_events w (snd (run_plan e ctx ps w))) = ps
    else strict_prefix (accepted (new_events w (snd (run_plan e ctx ps w)))) ps)"
proof (induction ps arbitrary: w)
  case (Cons p ps)
  obtain q b where p: "p = (q, b)" by (cases p)
  obtain r w1 where pub: "publish e ctx q b w = (r, w1)" by (cases "publish e ctx q b w")
  have c: "frame publisher_event w w1" "crashed w1 = crashed w"
    "accepted (new_events w w1) = (if r = None then [(q, b)] else [])"
    using publish_contract [of w e ctx q b] pub by simp_all
  have le: "world_le w w1" "world_le w1 (snd (run_plan e ctx ps w1))"
    using c(1) Cons.IH [of w1] by (simp_all add: frame_def)
  show ?case
    using c Cons.IH [of w1] frame_trans [OF c(1)] new_events_trans [OF le]
    by (cases r) (auto simp: p pub)
qed simp

interpretation planner: queue_publisher "run_plan e ctx" "\<lambda>ps. ps" for e ctx
  using run_plan_contract by unfold_locales (auto split: if_splits)

interpretation batch_results: queue_publisher "PublishBatchResults e p ctx" "results_plan p" for e p ctx
  unfolding PublishBatchResults_plan
  by unfold_locales (use planner.pub_frame planner.pub_crash planner.pub_ok planner.pub_err in blast)+

interpretation single_result: queue_publisher "PublishResult e p ctx" "result_plan p" for e p ctx
  unfolding PublishResult_plan
  by unfold_locales (use planner.pub_frame planner.pub_crash planner.pub_ok planner.pub_err in blast)+

interpretation batches: queue_publisher
  "\<lambda>(q, ms). PublishBatch e ctx q ms" "\<lambda>(q, ms). [(q, array_of ms)]" for e ctx
  unfolding PublishBatch_plan case_prod_beta
  by unfold_locales (rule planner.pub_frame planner.pub_crash planner.pub_ok planner.pub_err; assumption?)+

interpretation singles: queue_publisher
  "\<lambda>(q, m). Publish e ctx q m" "\<lambda>(q, m). [(q, BodyObject (wire m))]" for e ctx
  using publish_contract
  by unfold_locales (auto simp: Publish_def split: if_splits)

section \<open>Where messages end up\<close>

fun body_messages :: "amqp_body \<Rightarrow> message list" where
  "body_messages (BodyObject m) = [m]"
| "body_messages (BodyArray ms) = concat (map (\<lambda>m. case m of None \<Rightarrow> [] | Some x \<Rightarrow> [x]) ms)"
| "body_messages _ = []"

definition queue_msgs :: "string \<Rightarrow> plan \<Rightarrow> message list" where
  "queue_msgs q ps = concat (map (\<lambda>(q', b). if q' = q then body_messages b else []) ps)"

lemma body_messages_array [simp]: "body_messages (array_of ms) = map wire ms"
  unfolding array_of_def by (induction ms) simp_all

lemma queue_msgs_simps [simp]:
  "queue_msgs q [] = []"
  "queue_msgs q ((q', b) # ps) = (if q' = q then body_messages b else []) @ queue_msgs q ps"
  "queue_msgs q (ps @ qs) = queue_msgs q ps @ queue_msgs q qs"
  by (simp_all add: queue_msgs_def)

lemma queue_msgs_plan_array [simp]:
  "queue_msgs q (plan_array q' ms) = (if q' = q then map wire ms else [])"
  by (simp add: plan_array_def)

lemma queue_msgs_map_objects [simp]:
  "queue_msgs q (map (\<lambda>r. (q', BodyObject (f r))) rs) = (if q' = q then map f rs else [])"
  by (induction rs) auto



text \<open>\<^verbatim>\<open>PublishBatchResults\<close> implements its plan: it publishes the bodies of the plan in order,
  an error means that it stopped at a proper prefix, and it is silent otherwise: whatever it did
  is publishing, and it never panics.\<close>

theorem PublishBatchResults_refines_plan:
  "PublishBatchResults e p ctx b w = run_plan e ctx (results_plan p b) w \<and>
   (if fst (PublishBatchResults e p ctx b w) = None
    then accepted (new_events w (snd (PublishBatchResults e p ctx b w))) = results_plan p b
    else strict_prefix (accepted (new_events w (snd (PublishBatchResults e p ctx b w)))) (results_plan p b)) \<and>
   frame publisher_event w (snd (PublishBatchResults e p ctx b w)) \<and>
   crashed (snd (PublishBatchResults e p ctx b w)) = crashed w"
  using batch_results.pub_outcome batch_results.pub_frame batch_results.pub_crash
    PublishBatchResults_plan by blast


end
