(* ===== verification/Dynamic_Config.thy ===== *)
theory Dynamic_Config
  imports World
begin

text \<open>
  \<^verbatim>\<open>internal/sms/adapters/redis/dynamic_config.go\<close>: live configuration kept in Redis hashes and
  mirrored in a local cache, behind a read-write lock. \<open>GetInt\<close> models the lock by the number of
  readers: \<^verbatim>\<open>RUnlock\<close> without a reader ends the process (\<open>None\<close>). The watcher goroutines are
  event loops around \<open>refreshNamespace\<close>; the watchers' clients are modelled with the clients.
  Maps that the code iterates over in arbitrary order are lists of pairs in some order.
\<close>

abbreviation NSRetry :: string where "NSRetry \<equiv> ''retry''"
abbreviation NSRateLimits :: string where "NSRateLimits \<equiv> ''rate_limits''"
abbreviation NSSchedulerPromotional :: string where "NSSchedulerPromotional \<equiv> ''scheduler:promotional''"

abbreviation dynConfigKeyPrefix :: string where "dynConfigKeyPrefix \<equiv> ''sms:config:''"
abbreviation dynConfigChannel :: string where "dynConfigChannel \<equiv> ''sms:config:__changes__''"

record dyn_config =
  dcCache :: "string \<rightharpoonup> (string \<rightharpoonup> string)"

definition RUnlock :: "nat \<Rightarrow> nat option" where
  "RUnlock readers = (if readers = 0 then None else Some (readers - 1))"

text \<open>\<open>GetInt dc readers ns field def\<close>: the value and the number of readers left, with \<open>readers\<close>
  other readers holding the lock.\<close>

definition GetInt :: "dyn_config \<Rightarrow> nat \<Rightarrow> string \<Rightarrow> string \<Rightarrow> int \<Rightarrow> (int \<times> nat) option" where
  "GetInt dc readers namespace field defaultVal =
     (let locked = Suc readers;
          unlock_default = (\<lambda>l. case RUnlock l of None \<Rightarrow> None | Some l' \<Rightarrow> Some (defaultVal, l'))
      in case dcCache dc namespace of
           None \<Rightarrow> unlock_default locked
         | Some ns \<Rightarrow>
             (case ns field of
                None \<Rightarrow> unlock_default locked
              | Some raw \<Rightarrow>
                  (case RUnlock locked of
                     None \<Rightarrow> None
                   | Some l \<Rightarrow>
                       (case ParseInt raw of
                          Some v \<Rightarrow> Some (v, l)
                        | None \<Rightarrow> unlock_default l))))"

definition refreshNamespace :: "env \<Rightarrow> string \<Rightarrow> dyn_config \<Rightarrow> world \<Rightarrow> (goerr option \<times> dyn_config) \<times> world" where
  "refreshNamespace e namespace dc w =
     (case redis_Do e (RHGetAll (dynConfigKeyPrefix @ namespace)) w of
        (RErr err, w') \<Rightarrow> ((Some err, dc), w')
      | (RHash kvs, w') \<Rightarrow> ((None, dc\<lparr>dcCache := (dcCache dc)(namespace \<mapsto> map_of kvs)\<rparr>), w')
      | (_, w') \<Rightarrow> ((Some (ErrExternal ''unexpected reply''), dc), w'))"

fun refreshAll :: "env \<Rightarrow> string list \<Rightarrow> dyn_config \<Rightarrow> world \<Rightarrow> dyn_config \<times> world" where
  "refreshAll e [] dc w = (dc, w)"
| "refreshAll e (ns # nss) dc w =
     (case refreshNamespace e ns dc w of ((_, dc'), w') \<Rightarrow> refreshAll e nss dc' w')"

definition NewDynamicConfig :: "env \<Rightarrow> world \<Rightarrow> dyn_config \<times> world" where
  "NewDynamicConfig e w =
     refreshAll e [NSRetry, NSRateLimits, NSSchedulerPromotional] \<lparr>dcCache = Map.empty\<rparr> w"

definition reply_err :: "redis_reply \<Rightarrow> goerr option" where
  "reply_err r = (case r of RErr err \<Rightarrow> Some err | _ \<Rightarrow> None)"

text \<open>The cached copy that \<^verbatim>\<open>SetInt\<close> writes when the namespace is cached.\<close>

definition cache_SetInt :: "string \<Rightarrow> string \<Rightarrow> int \<Rightarrow> dyn_config \<Rightarrow> dyn_config" where
  "cache_SetInt namespace field v dc =
     (case dcCache dc namespace of
        None \<Rightarrow> dc
      | Some ns \<Rightarrow> dc\<lparr>dcCache := (dcCache dc)(namespace \<mapsto> ns(field \<mapsto> Itoa v))\<rparr>)"

definition SetInt :: "env \<Rightarrow> string \<Rightarrow> string \<Rightarrow> int \<Rightarrow> dyn_config \<Rightarrow> world \<Rightarrow>
    (goerr option \<times> dyn_config) \<times> world" where
  "SetInt e namespace field v dc w =
     (let (rep, w) = redis_Do e (RHSet (dynConfigKeyPrefix @ namespace) [(field, Itoa v)]) w in
      case reply_err rep of
        Some err \<Rightarrow> ((Some err, dc), w)
      | None \<Rightarrow>
          (let dc = cache_SetInt namespace field v dc;
               (rep, w) = redis_Do e (RPublish dynConfigChannel namespace) w
           in ((reply_err rep, dc), w)))"

definition GetAll :: "env \<Rightarrow> string \<Rightarrow> world \<Rightarrow> redis_reply \<times> world" where
  "GetAll e namespace w = redis_Do e (RHGetAll (dynConfigKeyPrefix @ namespace)) w"

definition SetAll :: "env \<Rightarrow> string \<Rightarrow> (string \<times> string) list \<Rightarrow> dyn_config \<Rightarrow> world \<Rightarrow>
    (goerr option \<times> dyn_config) \<times> world" where
  "SetAll e namespace kvs dc w =
     (let (rep, w) = redis_Do e (RHSet (dynConfigKeyPrefix @ namespace) kvs) w in
      case reply_err rep of
        Some err \<Rightarrow> ((Some err, dc), w)
      | None \<Rightarrow>
          (let ((_, dc), w) = refreshNamespace e namespace dc w;
               (rep, w) = redis_Do e (RPublish dynConfigChannel namespace) w
           in ((reply_err rep, dc), w)))"

text \<open>The pipeline of \<^verbatim>\<open>Seed\<close>: every command is sent, the first error is reported.\<close>

fun seed_pipeline :: "env \<Rightarrow> string \<Rightarrow> (string \<times> string) list \<Rightarrow> world \<Rightarrow> goerr option \<times> world" where
  "seed_pipeline e key [] w = (None, w)"
| "seed_pipeline e key ((f, v) # kvs) w =
     (let (rep, w) = redis_Do e (RHSetNX key f v) w;
          (err, w) = seed_pipeline e key kvs w
      in (case reply_err rep of Some x \<Rightarrow> Some x | None \<Rightarrow> err, w))"

definition Seed :: "env \<Rightarrow> string \<Rightarrow> (string \<times> string) list \<Rightarrow> dyn_config \<Rightarrow> world \<Rightarrow>
    (goerr option \<times> dyn_config) \<times> world" where
  "Seed e namespace defs dc w =
     (case seed_pipeline e (dynConfigKeyPrefix @ namespace) defs w of
        (Some err, w) \<Rightarrow> ((Some err, dc), w)
      | (None, w) \<Rightarrow> refreshNamespace e namespace dc w)"

text \<open>The value that a caller of \<^verbatim>\<open>GetInt\<close> gets when no other reader holds the lock.\<close>

definition dyn_value :: "dyn_config \<Rightarrow> string \<Rightarrow> string \<Rightarrow> int \<Rightarrow> int option" where
  "dyn_value dc namespace field defaultVal = map_option fst (GetInt dc 0 namespace field defaultVal)"

section \<open>Facts\<close>

lemma dyn_value_eq:
  "dyn_value dc ns f d =
     (case dcCache dc ns of
        None \<Rightarrow> Some d
      | Some m \<Rightarrow> (case m f of None \<Rightarrow> Some d | Some raw \<Rightarrow> ParseInt raw))"
  by (auto simp: dyn_value_def GetInt_def RUnlock_def split: option.splits)

lemma dyn_value_cache_SetInt:
  assumes "int64 v"
  shows "dyn_value (cache_SetInt ns f v dc) ns' f' d =
     (if dcCache dc ns \<noteq> None \<and> ns' = ns \<and> f' = f then Some v else dyn_value dc ns' f' d)"
  using assms ParseInt_Itoa [OF assms]
  by (auto simp: dyn_value_eq cache_SetInt_def split: option.splits)

lemma cache_SetInt_cached [simp]:
  "(dcCache (cache_SetInt ns f v dc) ns' = None) = (dcCache dc ns' = None)"
  by (auto simp: cache_SetInt_def split: option.splits)

lemma sint64_range: "int64 (sint (v :: 64 word))"
  using sint_ge [of v] sint_lt [of v] by simp

text \<open>Writes of 64-bit integers to cached namespaces are settings in the sense of the prelude.\<close>

interpretation dyn: settings
  "\<lambda>k (v :: 64 word) dc. cache_SetInt (fst k) (snd k) (sint v) dc"
  "\<lambda>dc k. word_of_int (the (dyn_value dc (fst k) (snd k) 0))"
  "\<lambda>dc k. dcCache dc (fst k) \<noteq> None"
  by unfold_locales (auto simp: dyn_value_cache_SetInt [OF sint64_range] prod_eq_iff)

text \<open>Complete behaviour of \<^verbatim>\<open>GetInt\<close>: an unset field yields the default and a number its
  value, with the lock released exactly once. A field whose text is not a 64-bit integer releases
  the read lock twice: with no other reader the process is killed by the runtime, and otherwise
  another reader's lock is taken away.\<close>

theorem GetInt_behaviour:
  "GetInt dc readers ns f d =
     (case Option.bind (dcCache dc ns) (\<lambda>m. m f) of
        None \<Rightarrow> Some (d, readers)
      | Some raw \<Rightarrow>
          (case ParseInt raw of
             Some v \<Rightarrow> Some (v, readers)
           | None \<Rightarrow> if readers = 0 then None else Some (d, readers - 1)))"
  by (auto simp: GetInt_def RUnlock_def Let_def split: option.splits)

text \<open>Read your writes: when Redis accepts the write of a field of a cached namespace, every
  later \<^verbatim>\<open>GetInt\<close> of that field returns the written value and every other field is unchanged,
  even when the notification of the other pods fails; when Redis refuses the write the cache does
  not change.\<close>

theorem SetInt_GetInt:
  assumes "SetInt e ns f v dc w = ((err, dc'), w')" and "int64 v" and "dcCache dc ns \<noteq> None"
  shows "(case fst (redis_Do e (RHSet (dynConfigKeyPrefix @ ns) [(f, Itoa v)]) w) of
            RErr x \<Rightarrow> err = Some x \<and> dc' = dc
          | _ \<Rightarrow> dyn_value dc' ns f d = Some v \<and>
                (\<forall>ns' f' d'. (ns', f') \<noteq> (ns, f) \<longrightarrow>
                   dyn_value dc' ns' f' d' = dyn_value dc ns' f' d'))"
  using assms
  by (auto simp: SetInt_def Let_def reply_err_def dyn_value_cache_SetInt
      split: prod.splits option.splits redis_reply.splits)

theorem SetInt_GetInt_witness:
  "\<exists>dc' w'. SetInt base_env ''retry'' ''max'' 7 \<lparr>dcCache = [''retry'' \<mapsto> Map.empty]\<rparr> init_world =
     ((None, dc'), w') \<and> dyn_value dc' ''retry'' ''max'' 0 = Some 7"
proof -
  let ?e = base_env
  let ?dc = "\<lparr>dcCache = [''retry'' \<mapsto> Map.empty]\<rparr>"
  obtain dc' w' where r: "SetInt ?e ''retry'' ''max'' 7 ?dc init_world = ((None, dc'), w')"
    by (auto simp: SetInt_def redis_Do_def reply_err_def Let_def base_env_def)
  have "dyn_value dc' ''retry'' ''max'' 0 = Some 7"
    using SetInt_GetInt [OF r] by (simp add: redis_Do_def base_env_def)
  with r show ?thesis by blast
qed

end
