(* ===== verification/Result_Handler.thy ===== *)
theory Result_Handler
  imports Publisher Dynamic_Config
begin

text \<open>
  \<^verbatim>\<open>internal/sms/service/result_handler.go\<close>: turns retryable results that used up their retries
  into permanent ones and publishes results. \<^verbatim>\<open>HandleBatchResults\<close> changes the batch it is given
  through its pointer, so the model returns it. A live limit that is not a number ends the process
  (see \<open>GetInt_behaviour\<close>): \<open>maxRetries\<close> is then \<open>None\<close>. The live configuration is read as it
  is when the call starts.
\<close>

record result_handler =
  rhPublisher :: publisher
  rhMetrics :: bool
  maxRetriesTransactional :: int
  maxRetriesPromotional :: int
  rhDynConfig :: "dyn_config option"

abbreviation FieldMaxRetriesTransactional :: string where
  "FieldMaxRetriesTransactional \<equiv> ''max_retries_transactional''"
abbreviation FieldMaxRetriesPromotional :: string where
  "FieldMaxRetriesPromotional \<equiv> ''max_retries_promotional''"

definition maxRetries :: "result_handler \<Rightarrow> message \<Rightarrow> int option" where
  "maxRetries h msg =
     (if IsTransactional msg then
        (case rhDynConfig h of
           Some dc \<Rightarrow> dyn_value dc NSRetry FieldMaxRetriesTransactional (maxRetriesTransactional h)
         | None \<Rightarrow> Some (maxRetriesTransactional h))
      else
        (case rhDynConfig h of
           Some dc \<Rightarrow> dyn_value dc NSRetry FieldMaxRetriesPromotional (maxRetriesPromotional h)
         | None \<Rightarrow> Some (maxRetriesPromotional h)))"

text \<open>The two assignments that turn an exhausted result into a permanent one.\<close>

definition expire :: "send_result \<Rightarrow> send_result" where
  "expire r = r\<lparr>rType := ResultPermanent, rMessage := SetError ErrMaxRetriesExceeded (rMessage r)\<rparr>"

definition panicked :: "goerr" where
  "panicked = ErrExternal ''panic''"

text \<open>Logging a failed result calls \<^verbatim>\<open>result.Error.Error()\<close>, which panics on a nil error.\<close>

definition HandleResult ::
  "env \<Rightarrow> result_handler \<Rightarrow> ctxid \<Rightarrow> send_result \<Rightarrow> world \<Rightarrow> (goerr option \<times> send_result) \<times> world" where
  "HandleResult e h ctx result w =
     (let network = msg_Network (rMessage result) in
      case maxRetries h (rMessage result) of
        None \<Rightarrow> ((Some panicked, result), crash w)
      | Some limit \<Rightarrow>
          (let publish = (\<lambda>result w. case PublishResult e (rhPublisher h) ctx result w of
                            (err, w) \<Rightarrow> ((err, result), w))
           in case rType result of
                ResultSuccess \<Rightarrow>
                  publish result (metric e (rhMetrics h) (IncMessagesProcessed network ''success'') w)
              | ResultRetryable \<Rightarrow>
                  if rError result = None then ((Some panicked, result), crash w)
                  else if RetryCount (rMessage result) \<ge> limit then
                    publish (expire result) (metric e (rhMetrics h) (IncDeadLetters network) w)
                  else publish result (metric e (rhMetrics h) (IncRetries network) w)
              | ResultPermanent \<Rightarrow>
                  if rError result = None then ((Some panicked, result), crash w)
                  else publish result
                    (metric e (rhMetrics h) (IncMessagesProcessed network ''failed'')
                      (metric e (rhMetrics h) (IncDeadLetters network) w))))"

text \<open>The loop \<^verbatim>\<open>for i := len(results.Retryable) - 1; i >= 0; i--\<close>; the first argument is
  \<open>i + 1\<close>.\<close>

fun expireRetries :: "result_handler \<Rightarrow> nat \<Rightarrow> batch_result \<Rightarrow> batch_result option" where
  "expireRetries h 0 b = Some b"
| "expireRetries h (Suc i) b =
     (let result = Retryable b ! i in
      case maxRetries h (rMessage result) of
        None \<Rightarrow> None
      | Some limit \<Rightarrow>
          if RetryCount (rMessage result) \<ge> limit then
            expireRetries h i
              (b\<lparr>Failed := Failed b @ [expire result],
                 Retryable := take i (Retryable b) @ drop (Suc i) (Retryable b)\<rparr>)
          else expireRetries h i b)"

definition HandleBatchResults ::
  "env \<Rightarrow> result_handler \<Rightarrow> ctxid \<Rightarrow> batch_result \<Rightarrow> world \<Rightarrow> (goerr option \<times> batch_result) \<times> world" where
  "HandleBatchResults e h ctx results w =
     (case expireRetries h (length (Retryable results)) results of
        None \<Rightarrow> ((Some panicked, results), crash w)
      | Some results \<Rightarrow>
          (case PublishBatchResults e (rhPublisher h) ctx results w of
             (err, w) \<Rightarrow> ((err, results), w)))"

section \<open>Expiring retries\<close>

text \<open>Specification: keep the results below their limit, append the others to the failed ones,
  last first.\<close>

definition limits_ok :: "result_handler \<Rightarrow> bool" where
  "limits_ok h \<longleftrightarrow> (\<forall>m. maxRetries h m \<noteq> None)"

definition exhausted :: "result_handler \<Rightarrow> send_result \<Rightarrow> bool" where
  "exhausted h r \<longleftrightarrow> (case maxRetries h (rMessage r) of None \<Rightarrow> False | Some l \<Rightarrow> RetryCount (rMessage r) \<ge> l)"

definition expire_spec :: "result_handler \<Rightarrow> batch_result \<Rightarrow> batch_result" where
  "expire_spec h b =
     b\<lparr>Retryable := filter (\<lambda>r. \<not> exhausted h r) (Retryable b),
       Failed := Failed b @ rev (map expire (filter (exhausted h) (Retryable b)))\<rparr>"

lemma limits_ok_static: "rhDynConfig h = None \<Longrightarrow> limits_ok h"
  by (simp add: limits_ok_def maxRetries_def)

lemma expireRetries_gen:
  assumes "limits_ok h"
  shows "Retryable b = xs @ ys \<Longrightarrow>
    expireRetries h (length xs) b =
      Some (b\<lparr>Retryable := filter (\<lambda>r. \<not> exhausted h r) xs @ ys,
              Failed := Failed b @ rev (map expire (filter (exhausted h) xs))\<rparr>)"
proof (induction xs arbitrary: b ys rule: rev_induct)
  case (snoc x xs)
  obtain l where l: "maxRetries h (rMessage x) = Some l"
    using assms by (auto simp: limits_ok_def)
  show ?case
  proof (cases "l \<le> RetryCount (rMessage x)")
    case True
    let ?b = "b\<lparr>Failed := Failed b @ [expire x],
        Retryable := take (length xs) (Retryable b) @ drop (Suc (length xs)) (Retryable b)\<rparr>"
    have "Retryable ?b = xs @ ys" using snoc.prems by simp
    from snoc.IH [OF this] show ?thesis
      using True snoc.prems l by (simp add: Let_def exhausted_def nth_append)
  next
    case False
    have "Retryable b = xs @ (x # ys)" using snoc.prems by simp
    from snoc.IH [OF this] show ?thesis
      using False snoc.prems l by (simp add: Let_def exhausted_def nth_append)
  qed
qed simp

lemma expireRetries_spec:
  "limits_ok h \<Longrightarrow> expireRetries h (length (Retryable b)) b = Some (expire_spec h b)"
  using expireRetries_gen [of h b "Retryable b" "[]"] by (simp add: expire_spec_def)

lemma expire_fields [simp]:
  "rType (expire r) = ResultPermanent" "core (rMessage (expire r)) = core (rMessage r)"
  "Status (rMessage (expire r)) = StatusFailed" "RetryCount (rMessage (expire r)) = RetryCount (rMessage r)"
  "LastError (rMessage (expire r)) = ''maximum retry count exceeded''"
  by (simp_all add: expire_def SetError_def core_def)

lemma mset_expire_spec:
  "image_mset f (mset (batch_all (expire_spec h b))) = image_mset f (mset (batch_all b))"
  if "\<And>r. f (expire r) = f r"
proof -
  have "image_mset f (mset (filter (\<lambda>r. \<not> exhausted h r) rs)) +
      image_mset f (mset (map expire (filter (exhausted h) rs))) = image_mset f (mset rs)" for rs
    by (induction rs) (simp_all add: that)
  from this [of "Retryable b"] show ?thesis by (simp add: batch_all_def expire_spec_def ac_simps)
qed

lemma batch_wf_expire: "batch_wf b \<Longrightarrow> batch_wf (expire_spec h b)"
proof -
  assume b: "batch_wf b"
  have "length (batch_all (expire_spec h b)) = length (batch_all b)"
    using arg_cong [OF mset_expire_spec [of "\<lambda>_. ()" h b], of size] by simp
  then show ?thesis
    using b by (auto simp: batch_wf_def expire_spec_def list_all_iff IsPermanent_def)
qed

lemma HandleBatchResults_eq:
  "limits_ok h \<Longrightarrow> HandleBatchResults e h ctx b w =
     (let (err, w') = PublishBatchResults e (rhPublisher h) ctx (expire_spec h b) w
      in ((err, expire_spec h b), w'))"
  by (simp add: HandleBatchResults_def expireRetries_spec)

text \<open>C5. \<^verbatim>\<open>HandleBatchResults\<close> implements its specification: the in-place loop keeps, in order,
  the retryable results whose retry count is below the limit of their message type, moves every
  other one, marked as permanently failed with \<^verbatim>\<open>ErrMaxRetriesExceeded\<close>, behind the failed
  results, keeps the batch well formed and the multiset of messages (up to their status) the same,
  and publishes exactly the resulting batch.\<close>

theorem HandleBatchResults_refines:
  assumes "limits_ok h" and "batch_wf b"
  shows "HandleBatchResults e h ctx b w =
      (let (err, w') = PublishBatchResults e (rhPublisher h) ctx (expire_spec h b) w
       in ((err, expire_spec h b), w')) \<and>
    batch_wf (expire_spec h b) \<and>
    image_mset (\<lambda>r. core (rMessage r)) (mset (batch_all (expire_spec h b))) =
    image_mset (\<lambda>r. core (rMessage r)) (mset (batch_all b))"
  using assms by (simp add: HandleBatchResults_eq batch_wf_expire mset_expire_spec)

definition sample_handler :: result_handler where
  "sample_handler = \<lparr>rhPublisher = sample_publisher, rhMetrics = True, maxRetriesTransactional = 3,
     maxRetriesPromotional = 1, rhDynConfig = None\<rparr>"

theorem HandleBatchResults_refines_witness:
  "\<exists>w'. HandleBatchResults base_env sample_handler AppCtx NewBatchResult init_world =
     ((None, NewBatchResult), w')"
proof -
  have "expire_spec sample_handler NewBatchResult = NewBatchResult"
    by (simp add: expire_spec_def NewBatchResult_def)
  moreover have "PublishBatchResults base_env sample_publisher AppCtx NewBatchResult init_world = (None, init_world)"
    by (simp add: PublishBatchResults_def NewBatchResult_def groupRetries_def)
  ultimately show ?thesis
    using HandleBatchResults_refines [of sample_handler NewBatchResult base_env AppCtx init_world]
    by (simp add: sample_handler_def limits_ok_static)
qed

text \<open>Handling one result: the published result is the given one unless it is retryable with
  its retries used up, in which case it is the expired one; the same decision, result by result, is
  taken by the batch handler.\<close>

theorem HandleResult_decision:
  assumes "limits_ok h" and "rError r \<noteq> None \<or> rType r = ResultSuccess"
  shows "snd (fst (HandleResult e h ctx r w)) =
      (if IsRetryable r \<and> exhausted h r then expire r else r) \<and>
    crashed (snd (HandleResult e h ctx r w)) = crashed w \<and>
    mset (batch_all (expire_spec h (AddResult NewBatchResult r))) =
      {# snd (fst (HandleResult e h ctx r w)) #}"
proof -
  obtain l where l: "maxRetries h (rMessage r) = Some l" using assms by (auto simp: limits_ok_def)
  have c: "crashed (snd (PublishResult e (rhPublisher h) ctx x w1)) = crashed w1" for x w1
    by (rule single_result.pub_crash)
  show ?thesis
    using assms(2) l
    by (cases "rType r")
      (auto simp: HandleResult_def Let_def IsRetryable_def exhausted_def case_prod_beta c expire_spec_def
        batch_all_def AddResult_def NewBatchResult_def)
qed

theorem HandleResult_decision_witness:
  "snd (fst (HandleResult base_env sample_handler AppCtx
     (NewRetryableResult 0 (sample_message\<lparr>RetryCount := 2\<rparr>) ErrMNOTimeout 0) init_world)) =
   expire (NewRetryableResult 0 (sample_message\<lparr>RetryCount := 2\<rparr>) ErrMNOTimeout 0)"
proof -
  let ?r = "NewRetryableResult 0 (sample_message\<lparr>RetryCount := 2\<rparr>) ErrMNOTimeout 0"
  have "exhausted sample_handler ?r" by code_simp
  then show ?thesis
    using HandleResult_decision [of sample_handler ?r base_env AppCtx init_world]
    by (simp add: limits_ok_static sample_handler_def IsRetryable_def)
qed

end
