(* ===== verification/Consumer.thy ===== *)
theory Consumer
  imports Publisher
begin

text \<open>
  \<^verbatim>\<open>internal/sms/adapters/rabbitmq/consumer.go\<close>: decoding of AMQP bodies, deliveries with manual
  acknowledgement, and the loop that drains one AMQP channel. The loop is a step relation: its two
  \<^verbatim>\<open>select\<close> statements may take any ready case, and the context may be cancelled at any time.
  Reopening a closed channel (\<^verbatim>\<open>Consume\<close>) starts the same loop again on a fresh channel, on which
  the broker redelivers what was not settled.
\<close>

section \<open>Decoding\<close>

text \<open>\<open>None\<close> is the panic of writing \<^verbatim>\<open>SourceQueue\<close> through the nil pointer that a \<^verbatim>\<open>null\<close>
  entry of an array decodes to.\<close>

definition parseMessages :: "amqp_body \<Rightarrow> string \<Rightarrow> (goerr + message list) option" where
  "parseMessages body queueName =
     (let stamp = (\<lambda>m. m\<lparr>SourceQueue := queueName\<rparr>) in
      case body of
        BodyArray entries \<Rightarrow>
          if None \<in> set entries then None else Some (Inr (map (stamp \<circ> the) entries))
      | BodyNull \<Rightarrow> Some (Inr [])
      | BodyObject m \<Rightarrow> Some (Inr [stamp m])
      | BodyInvalid err \<Rightarrow> Some (Inl (ErrExternal err)))"

section \<open>Deliveries\<close>

record delivery =
  dTag :: nat
  dMessages :: "message list"

definition d_Ack :: "env \<Rightarrow> delivery \<Rightarrow> world \<Rightarrow> goerr option \<times> world" where
  "d_Ack e d w = (let err = amqpAck e (trace w) (dTag d) in (err, emit e (EvAck (dTag d) err) w))"

definition amqp_Nack :: "env \<Rightarrow> nat \<Rightarrow> bool \<Rightarrow> world \<Rightarrow> goerr option \<times> world" where
  "amqp_Nack e tag requeue w =
     (let err = amqpNack e (trace w) tag requeue in (err, emit e (EvNack tag requeue err) w))"

definition d_Nack :: "env \<Rightarrow> delivery \<Rightarrow> bool \<Rightarrow> world \<Rightarrow> goerr option \<times> world" where
  "d_Nack e d requeue w = amqp_Nack e (dTag d) requeue w"

section \<open>Draining a channel\<close>

datatype drain_pc = Draining | Handing delivery | ChannelClosed | Stopped | Panicked nat

record drain_state =
  incoming :: "(nat \<times> amqp_body) list"
  handed :: "delivery list"
  drainPc :: drain_pc
  drainWorld :: world

inductive drain_step :: "env \<Rightarrow> ctxid \<Rightarrow> string \<Rightarrow> drain_state \<Rightarrow> drain_state \<Rightarrow> bool"
  for e :: env and ctx :: ctxid and queueName :: string where
  stop: "\<lbrakk> drainPc s = Draining; ctxdone (drainWorld s) ctx \<rbrakk> \<Longrightarrow>
     drain_step e ctx queueName s (s\<lparr>drainPc := Stopped\<rparr>)"
| closed: "\<lbrakk> drainPc s = Draining; incoming s = [] \<rbrakk> \<Longrightarrow>
     drain_step e ctx queueName s (s\<lparr>drainPc := ChannelClosed\<rparr>)"
| bad: "\<lbrakk> drainPc s = Draining; incoming s = (tag, body) # rest;
     parseMessages body queueName = Some (Inl err) \<rbrakk> \<Longrightarrow>
     drain_step e ctx queueName s
       (s\<lparr>incoming := rest, drainWorld := snd (amqp_Nack e tag False (drainWorld s))\<rparr>)"
| panic: "\<lbrakk> drainPc s = Draining; incoming s = (tag, body) # rest; parseMessages body queueName = None \<rbrakk> \<Longrightarrow>
     drain_step e ctx queueName s
       (s\<lparr>incoming := rest, drainPc := Panicked tag, drainWorld := crash (drainWorld s)\<rparr>)"
| parsed: "\<lbrakk> drainPc s = Draining; incoming s = (tag, body) # rest;
     parseMessages body queueName = Some (Inr messages) \<rbrakk> \<Longrightarrow>
     drain_step e ctx queueName s
       (s\<lparr>incoming := rest, drainPc := Handing \<lparr>dTag = tag, dMessages = messages\<rparr>\<rparr>)"
| hand: "drainPc s = Handing d \<Longrightarrow>
     drain_step e ctx queueName s (s\<lparr>handed := handed s @ [d], drainPc := Draining\<rparr>)"
| hand_stop: "\<lbrakk> drainPc s = Handing d; ctxdone (drainWorld s) ctx \<rbrakk> \<Longrightarrow>
     drain_step e ctx queueName s
       (s\<lparr>drainPc := Stopped, drainWorld := snd (amqp_Nack e (dTag d) True (drainWorld s))\<rparr>)"
| cancel: "\<not> ctxdone (drainWorld s) ctx \<Longrightarrow>
     drain_step e ctx queueName s (s\<lparr>drainWorld := cancelContext ctx (drainWorld s)\<rparr>)"

definition drain_init :: "(nat \<times> amqp_body) list \<Rightarrow> world \<Rightarrow> drain_state" where
  "drain_init msgs w = \<lparr>incoming = msgs, handed = [], drainPc = Draining, drainWorld = w\<rparr>"

section \<open>Facts\<close>

lemma parseMessages_wire:
  "parseMessages (BodyObject (wire m)) q = Some (Inr [m\<lparr>SourceQueue := q\<rparr>])"
  "parseMessages (array_of ms) q = Some (Inr (map (\<lambda>m. m\<lparr>SourceQueue := q\<rparr>) ms))"
  by (auto simp: parseMessages_def wire_def array_of_def)

lemma parseMessages_source:
  "parseMessages b q = Some (Inr ms) \<Longrightarrow> list_all (\<lambda>m. SourceQueue m = q) ms"
  by (auto simp: parseMessages_def Let_def list_all_iff split: amqp_body.splits if_splits)

text \<open>Publishing and consuming are inverse: what a consumer of queue \<open>q\<close> decodes from a message or
  a batch that the publisher wrote is exactly the published messages, stamped with \<open>q\<close>; their retry
  counts and all other fields survive.\<close>

theorem publish_consume_roundtrip:
  "parseMessages (BodyObject (wire m)) q = Some (Inr [m\<lparr>SourceQueue := q\<rparr>]) \<and>
   parseMessages (array_of ms) q = Some (Inr (map (\<lambda>m. m\<lparr>SourceQueue := q\<rparr>) ms))"
  by (simp add: parseMessages_wire)

text \<open>Tags that were rejected between two worlds.\<close>

fun nacked1 :: "event \<Rightarrow> (nat \<times> bool) list" where
  "nacked1 (EvNack t r err) = [(t, r)]"
| "nacked1 _ = []"

definition nacked :: "world \<Rightarrow> world \<Rightarrow> (nat \<times> bool) list" where
  "nacked w w' = concat (map nacked1 (new_events w w'))"

lemma nacked_same [simp]: "nacked w w = []"
  by (simp add: nacked_def)

lemma nacked_emit [simp]: "world_le w w' \<Longrightarrow> nacked w (emit e ev w') = nacked w w' @ nacked1 ev"
  by (simp add: nacked_def new_events_emit_trans)

lemma nacked_unchanged [simp]:
  "nacked w (crash w') = nacked w w'" "nacked w (cancelContext c w') = nacked w w'"
  by (simp_all add: nacked_def new_events_def)

lemma amqp_Nack_world [simp]:
  "snd (amqp_Nack e t r w) = emit e (EvNack t r (amqpNack e (trace w) t r)) w"
  by (simp add: amqp_Nack_def Let_def)

definition pc_tags :: "drain_pc \<Rightarrow> nat list" where
  "pc_tags pc = (case pc of Handing d \<Rightarrow> [dTag d] | Panicked t \<Rightarrow> [t] | _ \<Rightarrow> [])"

text \<open>Every message the channel delivered is accounted for, and for the right reason.\<close>

definition drain_inv :: "(nat \<times> amqp_body) list \<Rightarrow> world \<Rightarrow> ctxid \<Rightarrow> string \<Rightarrow> drain_state \<Rightarrow> bool" where
  "drain_inv msgs w0 ctx q s \<longleftrightarrow>
     world_le w0 (drainWorld s) \<and>
     mset (map fst msgs) =
       mset (map fst (incoming s)) + mset (map dTag (handed s)) + mset (pc_tags (drainPc s)) +
       mset (map fst (nacked w0 (drainWorld s))) \<and>
     set (incoming s) \<subseteq> set msgs \<and>
     list_all (\<lambda>(t, r). if r then drainPc s = Stopped \<and> ctxdone (drainWorld s) ctx
                        else \<exists>b err. (t, b) \<in> set msgs \<and> parseMessages b q = Some (Inl err))
       (nacked w0 (drainWorld s)) \<and>
     list_all (\<lambda>d. \<exists>b. (dTag d, b) \<in> set msgs \<and> parseMessages b q = Some (Inr (dMessages d)))
       (handed s @ (case drainPc s of Handing d \<Rightarrow> [d] | _ \<Rightarrow> []))"

lemma drain_inv_init: "drain_inv msgs w ctx q (drain_init msgs w)"
  by (simp add: drain_inv_def drain_init_def pc_tags_def)

lemma drain_inv_step: "drain_step e ctx q s s' \<Longrightarrow> drain_inv msgs w0 ctx q s \<Longrightarrow> drain_inv msgs w0 ctx q s'"
proof (induction rule: drain_step.induct)
  case (bad s tag body rest err)
  then have "(tag, body) \<in> set msgs" by (auto simp: drain_inv_def)
  with bad show ?case by (fastforce simp: drain_inv_def pc_tags_def list_all_iff)
next
  case (panic s tag body rest)
  then show ?case by (auto simp: drain_inv_def pc_tags_def list_all_iff)
next
  case (parsed s tag body rest messages)
  then have "(tag, body) \<in> set msgs" by (auto simp: drain_inv_def)
  with parsed show ?case by (auto simp: drain_inv_def pc_tags_def list_all_iff)
next
  case (hand s d)
  then show ?case by (auto simp: drain_inv_def pc_tags_def list_all_iff)
next
  case (hand_stop s d)
  then show ?case by (auto simp: drain_inv_def pc_tags_def list_all_iff split: if_splits)
next
  case (stop s)
  then show ?case by (auto simp: drain_inv_def pc_tags_def list_all_iff)
next
  case (closed s)
  then show ?case by (auto simp: drain_inv_def pc_tags_def list_all_iff)
next
  case (cancel s)
  then show ?case
    by (auto simp: drain_inv_def list_all_iff)
qed

lemma drain_inv_reach:
  "(drain_step e ctx q)\<^sup>*\<^sup>* (drain_init msgs w) s \<Longrightarrow> drain_inv msgs w ctx q s"
  by (induction rule: rtranclp_induct) (auto simp: drain_inv_init intro: drain_inv_step)



text \<open>Decoding panics exactly on an array with a \<^verbatim>\<open>null\<close> entry (the stamp is written through a
  nil pointer); every other body yields messages or an error.\<close>

theorem parseMessages_panics_iff:
  "parseMessages b q = None \<longleftrightarrow> (\<exists>entries. b = BodyArray entries \<and> None \<in> set entries)"
  by (auto simp: parseMessages_def Let_def split: amqp_body.splits)

end
