(* ===== verification/Worker_Pool.thy ===== *)
theory Worker_Pool
  imports Go_Prelude
begin

text \<open>
  The goroutine pool that \<^verbatim>\<open>Processor.processRegular\<close> (processor.go) and
  \<^verbatim>\<open>TransactionalHandler.ProcessBatch\<close> (transactional_handler.go) both run: a feeder goroutine
  that fills a buffered channel and closes it, a fixed number of workers that take a message,
  process it and put the result on a second buffered channel, a goroutine that closes the result
  channel once every worker has returned, and the caller, which ranges over the results.

  \<open>pool_step\<close> is the step relation, one rule per communication of the source;
  \<open>pool_succs\<close> enumerates the successors of a state and \<open>run_pool\<close> executes the pool under a
  scheduler \<open>pick\<close>. Both channels have room for all messages, so no send blocks. Processing one
  message is one step. Cancellation of the context may come at any moment
  (rule \<open>cancel\<close>), and a \<^verbatim>\<open>select\<close> with several ready cases may take any of them.
\<close>

datatype 'r worker_pc = WIdle | WBusy 'r | WExited

datatype feeder_pc = Feeding | FeederReturned | FeederClosed

record ('m, 'r, 'w) pool_cfg =
  proc :: "'m \<Rightarrow> 'w \<Rightarrow> 'r \<times> 'w"
  ctxDone :: "'w \<Rightarrow> bool"
  cancelCtx :: "'w \<Rightarrow> 'w"
  watchCtx :: bool \<comment> \<open>whether feeder and workers select on \<^verbatim>\<open>ctx.Done()\<close>\<close>

record ('m, 'r, 'w) pool =
  feed :: "'m list"
  feeder :: feeder_pc
  msgChan :: "'m list"
  pworkers :: "'r worker_pc list"
  resultChan :: "'r list"
  rclosed :: bool
  collected :: "'r list"
  mayCancel :: bool
  pworld :: 'w

definition pool_init :: "'m list \<Rightarrow> nat \<Rightarrow> bool \<Rightarrow> 'w \<Rightarrow> ('m, 'r, 'w) pool" where
  "pool_init msgs n canc w =
     \<lparr>feed = msgs, feeder = Feeding, msgChan = [], pworkers = replicate n WIdle, resultChan = [],
      rclosed = False, collected = [], mayCancel = canc, pworld = w\<rparr>"

text \<open>\<^verbatim>\<open>TransactionalHandler.ProcessBatch\<close> fills and closes its channel before it starts the
  workers, so its pool starts with the feeder done.\<close>

definition pool_prefilled :: "'m list \<Rightarrow> nat \<Rightarrow> bool \<Rightarrow> 'w \<Rightarrow> ('m, 'r, 'w) pool" where
  "pool_prefilled msgs n canc w =
     (pool_init [] n canc w)\<lparr>feeder := FeederClosed, msgChan := msgs\<rparr>"

text \<open>The context is done and the goroutines of this pool look at it.\<close>

definition seesDone :: "('m, 'r, 'w) pool_cfg \<Rightarrow> ('m, 'r, 'w) pool \<Rightarrow> bool" where
  "seesDone c s \<longleftrightarrow> watchCtx c \<and> ctxDone c (pworld s)"

inductive pool_step ::
  "('m, 'r, 'w) pool_cfg \<Rightarrow> ('m, 'r, 'w) pool \<Rightarrow> ('m, 'r, 'w) pool \<Rightarrow> bool"
  for c :: "('m, 'r, 'w) pool_cfg" where
  feed: "\<lbrakk> feeder s = Feeding; feed s = m # ms \<rbrakk> \<Longrightarrow>
     pool_step c s (s\<lparr>feed := ms, msgChan := msgChan s @ [m]\<rparr>)"
| feed_cancel: "\<lbrakk> feeder s = Feeding; feed s \<noteq> []; seesDone c s \<rbrakk> \<Longrightarrow>
     pool_step c s (s\<lparr>feeder := FeederReturned\<rparr>)"
| feed_close: "\<lbrakk> feeder s = Feeding; feed s = [] \<rbrakk> \<Longrightarrow> pool_step c s (s\<lparr>feeder := FeederClosed\<rparr>)"
| take: "\<lbrakk> i < length (pworkers s); pworkers s ! i = WIdle; msgChan s = m # ms;
     proc c m (pworld s) = (r, w') \<rbrakk> \<Longrightarrow>
     pool_step c s (s\<lparr>msgChan := ms, pworkers := (pworkers s)[i := WBusy r], pworld := w'\<rparr>)"
| exit_closed: "\<lbrakk> i < length (pworkers s); pworkers s ! i = WIdle; msgChan s = [];
     feeder s = FeederClosed \<rbrakk> \<Longrightarrow>
     pool_step c s (s\<lparr>pworkers := (pworkers s)[i := WExited]\<rparr>)"
| exit_cancel: "\<lbrakk> i < length (pworkers s); pworkers s ! i = WIdle; seesDone c s \<rbrakk> \<Longrightarrow>
     pool_step c s (s\<lparr>pworkers := (pworkers s)[i := WExited]\<rparr>)"
| put: "\<lbrakk> i < length (pworkers s); pworkers s ! i = WBusy r \<rbrakk> \<Longrightarrow>
     pool_step c s (s\<lparr>pworkers := (pworkers s)[i := WIdle], resultChan := resultChan s @ [r]\<rparr>)"
| put_cancel: "\<lbrakk> i < length (pworkers s); pworkers s ! i = WBusy r; seesDone c s \<rbrakk> \<Longrightarrow>
     pool_step c s (s\<lparr>pworkers := (pworkers s)[i := WExited]\<rparr>)"
| close: "\<lbrakk> \<not> rclosed s; list_all (\<lambda>p. p = WExited) (pworkers s) \<rbrakk> \<Longrightarrow>
     pool_step c s (s\<lparr>rclosed := True\<rparr>)"
| collect: "resultChan s = r # rs \<Longrightarrow>
     pool_step c s (s\<lparr>resultChan := rs, collected := collected s @ [r]\<rparr>)"
| cancel: "mayCancel s \<Longrightarrow>
     pool_step c s (s\<lparr>mayCancel := False, pworld := cancelCtx c (pworld s)\<rparr>)"

text \<open>The caller returns when the result channel is closed and drained.\<close>

definition pool_done :: "('m, 'r, 'w) pool \<Rightarrow> bool" where
  "pool_done s \<longleftrightarrow> rclosed s \<and> resultChan s = []"

definition feeder_succs :: "('m, 'r, 'w) pool_cfg \<Rightarrow> ('m, 'r, 'w) pool \<Rightarrow> ('m, 'r, 'w) pool list" where
  "feeder_succs c s =
     (if feeder s \<noteq> Feeding then []
      else case feed s of
             [] \<Rightarrow> [s\<lparr>feeder := FeederClosed\<rparr>]
           | m # ms \<Rightarrow> s\<lparr>feed := ms, msgChan := msgChan s @ [m]\<rparr> #
               (if seesDone c s then [s\<lparr>feeder := FeederReturned\<rparr>] else []))"

definition worker_succs ::
  "('m, 'r, 'w) pool_cfg \<Rightarrow> ('m, 'r, 'w) pool \<Rightarrow> nat \<Rightarrow> ('m, 'r, 'w) pool list" where
  "worker_succs c s i =
     (case pworkers s ! i of
        WIdle \<Rightarrow>
          (case msgChan s of
             m # ms \<Rightarrow>
               (case proc c m (pworld s) of (r, w') \<Rightarrow>
                  [s\<lparr>msgChan := ms, pworkers := (pworkers s)[i := WBusy r], pworld := w'\<rparr>])
           | [] \<Rightarrow> if feeder s = FeederClosed then [s\<lparr>pworkers := (pworkers s)[i := WExited]\<rparr>] else [])
          @ (if seesDone c s then [s\<lparr>pworkers := (pworkers s)[i := WExited]\<rparr>] else [])
      | WBusy r \<Rightarrow>
          s\<lparr>pworkers := (pworkers s)[i := WIdle], resultChan := resultChan s @ [r]\<rparr> #
          (if seesDone c s then [s\<lparr>pworkers := (pworkers s)[i := WExited]\<rparr>] else [])
      | WExited \<Rightarrow> [])"

definition pool_succs :: "('m, 'r, 'w) pool_cfg \<Rightarrow> ('m, 'r, 'w) pool \<Rightarrow> ('m, 'r, 'w) pool list" where
  "pool_succs c s =
     feeder_succs c s @ concat (map (worker_succs c s) [0..<length (pworkers s)]) @
     (if \<not> rclosed s \<and> list_all (\<lambda>p. p = WExited) (pworkers s) then [s\<lparr>rclosed := True\<rparr>] else []) @
     (case resultChan s of [] \<Rightarrow> []
      | r # rs \<Rightarrow> [s\<lparr>resultChan := rs, collected := collected s @ [r]\<rparr>]) @
     (if mayCancel s then [s\<lparr>mayCancel := False, pworld := cancelCtx c (pworld s)\<rparr>] else [])"

primrec run_pool ::
  "('m, 'r, 'w) pool_cfg \<Rightarrow> (nat \<Rightarrow> nat) \<Rightarrow> nat \<Rightarrow> ('m, 'r, 'w) pool \<Rightarrow> ('m, 'r, 'w) pool" where
  "run_pool c pick 0 s = s"
| "run_pool c pick (Suc n) s =
     (if pool_done s then s
      else let ss = pool_succs c s in
           if ss = [] then s else run_pool c pick n (ss ! (pick n mod length ss)))"

text \<open>A bound on the number of steps that are left; it is the fuel of \<open>run_pool\<close>.\<close>

fun pc_weight :: "'r worker_pc \<Rightarrow> nat" where
  "pc_weight WIdle = 1"
| "pc_weight (WBusy r) = 3"
| "pc_weight WExited = 0"

definition pool_measure :: "('m, 'r, 'w) pool \<Rightarrow> nat" where
  "pool_measure s =
     4 * length (feed s) + (if feeder s = Feeding then 1 else 0) + 3 * length (msgChan s) +
     sum_list (map pc_weight (pworkers s)) + length (resultChan s) +
     (if rclosed s then 0 else 1) + (if mayCancel s then 1 else 0)"

definition pool_run ::
  "('m, 'r, 'w) pool_cfg \<Rightarrow> (nat \<Rightarrow> nat) \<Rightarrow> ('m, 'r, 'w) pool \<Rightarrow> ('m, 'r, 'w) pool" where
  "pool_run c pick s = run_pool c pick (pool_measure s) s"

section \<open>The executable pool follows the step relation\<close>

lemma feeder_succs_step: "s' \<in> set (feeder_succs c s) \<Longrightarrow> pool_step c s s'"
  by (cases "feed s")
    (auto simp: feeder_succs_def split: if_splits
      intro: pool_step.feed pool_step.feed_cancel pool_step.feed_close)

lemma worker_succs_step:
  assumes i: "i < length (pworkers s)" and s': "s' \<in> set (worker_succs c s i)"
  shows "pool_step c s s'"
proof (cases "pworkers s ! i")
  case WIdle
  show ?thesis
  proof (cases "msgChan s")
    case Nil
    with WIdle i s' show ?thesis
      by (auto simp: worker_succs_def split: if_splits
          intro: pool_step.exit_closed pool_step.exit_cancel)
  next
    case (Cons m ms)
    with WIdle i s' show ?thesis
      by (auto simp: worker_succs_def split: if_splits prod.splits
          intro: pool_step.take pool_step.exit_cancel)
  qed
next
  case (WBusy r)
  with i s' show ?thesis
    by (auto simp: worker_succs_def split: if_splits intro: pool_step.put pool_step.put_cancel)
qed (use s' in \<open>simp add: worker_succs_def\<close>)

lemma pool_succs_step: "s' \<in> set (pool_succs c s) \<longleftrightarrow> pool_step c s s'"
proof
  assume "s' \<in> set (pool_succs c s)"
  then consider "s' \<in> set (feeder_succs c s)"
    | i where "i < length (pworkers s)" "s' \<in> set (worker_succs c s i)"
    | "\<not> rclosed s" "list_all (\<lambda>p. p = WExited) (pworkers s)" "s' = s\<lparr>rclosed := True\<rparr>"
    | r rs where "resultChan s = r # rs" "s' = s\<lparr>resultChan := rs, collected := collected s @ [r]\<rparr>"
    | "mayCancel s" "s' = s\<lparr>mayCancel := False, pworld := cancelCtx c (pworld s)\<rparr>"
    by (cases "resultChan s") (auto simp: pool_succs_def split: if_splits)
  then show "pool_step c s s'"
    by cases (auto intro: feeder_succs_step worker_succs_step pool_step.intros)
next
  assume "pool_step c s s'"
  then show "s' \<in> set (pool_succs c s)"
  proof cases
    case (take i m ms r w')
    then have "s' \<in> set (worker_succs c s i)" by (simp add: worker_succs_def)
    with take(2) show ?thesis by (auto simp: pool_succs_def)
  next
    case (exit_closed i)
    then have "s' \<in> set (worker_succs c s i)" by (simp add: worker_succs_def)
    with exit_closed(2) show ?thesis by (auto simp: pool_succs_def)
  next
    case (exit_cancel i)
    then have "s' \<in> set (worker_succs c s i)" by (simp add: worker_succs_def)
    with exit_cancel(2) show ?thesis by (auto simp: pool_succs_def)
  next
    case (put i r)
    then have "s' \<in> set (worker_succs c s i)" by (simp add: worker_succs_def)
    with put(2) show ?thesis by (auto simp: pool_succs_def)
  next
    case (put_cancel i r)
    then have "s' \<in> set (worker_succs c s i)" by (simp add: worker_succs_def)
    with put_cancel(2) show ?thesis by (auto simp: pool_succs_def)
  qed (auto simp: pool_succs_def feeder_succs_def split: list.splits)
qed

lemma weight_update:
  assumes "i < length ps"
  shows "sum_list (map pc_weight (ps[i := q])) + pc_weight (ps ! i) =
         sum_list (map pc_weight ps) + pc_weight q"
proof -
  have "sum_list (map pc_weight ps) = sum_list (take i (map pc_weight ps)) +
      (map pc_weight ps ! i + sum_list (drop (Suc i) (map pc_weight ps)))"
    using assms by (metis id_take_nth_drop length_map sum_list.Cons sum_list_append)
  moreover have "sum_list (map pc_weight (ps[i := q])) = sum_list (take i (map pc_weight ps)) +
      (pc_weight q + sum_list (drop (Suc i) (map pc_weight ps)))"
    using assms by (simp add: map_update upd_conv_take_nth_drop take_map drop_map)
  ultimately show ?thesis using assms by (simp add: take_map drop_map)
qed

lemma pool_step_measure: "pool_step c s s' \<Longrightarrow> pool_measure s' < pool_measure s"
proof (induction rule: pool_step.induct)
  case (take i s m ms r w')
  then show ?case using weight_update [of i "pworkers s" "WBusy r"] by (simp add: pool_measure_def)
next
  case (exit_closed i s)
  then show ?case using weight_update [of i "pworkers s" WExited] by (simp add: pool_measure_def)
next
  case (exit_cancel i s)
  then show ?case using weight_update [of i "pworkers s" WExited] by (simp add: pool_measure_def)
next
  case (put i s r)
  then show ?case using weight_update [of i "pworkers s" WIdle] by (simp add: pool_measure_def)
next
  case (put_cancel i s r)
  then show ?case using weight_update [of i "pworkers s" WExited] by (simp add: pool_measure_def)
qed (auto simp: pool_measure_def)

lemma run_pool_reach: "(pool_step c)\<^sup>*\<^sup>* s (run_pool c pick n s)"
proof (induction n arbitrary: s)
  case (Suc n)
  let ?ss = "pool_succs c s"
  show ?case
  proof (cases "pool_done s \<or> ?ss = []")
    case False
    then have "?ss ! (pick n mod length ?ss) \<in> set ?ss" by (simp add: nth_mem)
    then have "pool_step c s (?ss ! (pick n mod length ?ss))" by (simp add: pool_succs_step)
    then have "(pool_step c)\<^sup>*\<^sup>* s (run_pool c pick n (?ss ! (pick n mod length ?ss)))"
      using Suc.IH by (rule converse_rtranclp_into_rtranclp)
    with False show ?thesis by (simp add: Let_def)
  qed auto
qed simp

lemma run_pool_stuck:
  "pool_measure s \<le> n \<Longrightarrow>
   pool_done (run_pool c pick n s) \<or> pool_succs c (run_pool c pick n s) = []"
proof (induction n arbitrary: s)
  case 0
  then have "pool_succs c s = []"
    by (metis list.set_intros(1) neq_Nil_conv not_less0 pool_step_measure pool_succs_step le_0_eq)
  then show ?case by simp
next
  case (Suc n)
  let ?ss = "pool_succs c s"
  show ?case
  proof (cases "pool_done s \<or> ?ss = []")
    case False
    then have "?ss ! (pick n mod length ?ss) \<in> set ?ss" by (simp add: nth_mem)
    then have "pool_measure (?ss ! (pick n mod length ?ss)) < pool_measure s"
      using pool_succs_step pool_step_measure by metis
    then have "pool_measure (?ss ! (pick n mod length ?ss)) \<le> n" using Suc.prems by simp
    then show ?thesis using False Suc.IH by (simp add: Let_def)
  qed auto
qed

section \<open>Deadlock freedom\<close>

text \<open>What holds between the feeder, the workers and the channels in every reachable state.\<close>

definition pool_inv :: "('m, 'r, 'w) pool_cfg \<Rightarrow> ('m, 'r, 'w) pool \<Rightarrow> bool" where
  "pool_inv c s \<longleftrightarrow>
     (rclosed s \<longrightarrow> list_all (\<lambda>p. p = WExited) (pworkers s)) \<and>
     (feeder s = FeederClosed \<longrightarrow> feed s = []) \<and>
     (feeder s = FeederReturned \<longrightarrow> seesDone c s) \<and>
     (WExited \<in> set (pworkers s) \<longrightarrow>
        seesDone c s \<or> (feeder s = FeederClosed \<and> msgChan s = []))"

lemma pool_inv_init [simp]:
  "pool_inv c (pool_init msgs n canc w)" "pool_inv c (pool_prefilled msgs n canc w)"
  by (auto simp: pool_inv_def pool_init_def pool_prefilled_def list_all_iff)

lemma pool_progress: "\<lbrakk> pool_inv c s; \<not> pool_done s \<rbrakk> \<Longrightarrow> \<exists>s'. pool_step c s s'"
proof -
  assume inv: "pool_inv c s" and nd: "\<not> pool_done s"
  consider (res) r rs where "resultChan s = r # rs" | (cl) "\<not> rclosed s"
    using nd by (cases "resultChan s") (auto simp: pool_done_def)
  then show ?thesis
  proof cases
    case res
    then show ?thesis by (blast intro: pool_step.collect)
  next
    case cl
    show ?thesis
    proof (cases "list_all (\<lambda>p. p = WExited) (pworkers s)")
      case True
      with cl show ?thesis by (blast intro: pool_step.close)
    next
      case False
      then obtain i where i: "i < length (pworkers s)" "pworkers s ! i \<noteq> WExited"
        by (auto simp: list_all_length)
      show ?thesis
      proof (cases "pworkers s ! i")
        case (WBusy r)
        with i show ?thesis by (blast intro: pool_step.put)
      next
        case WIdle
        show ?thesis
        proof (cases "msgChan s")
          case (Cons m ms)
          with i WIdle show ?thesis by (metis pool_step.take surj_pair)
        next
          case Nil
          show ?thesis
          proof (cases "feeder s")
            case Feeding
            then show ?thesis by (cases "feed s") (blast intro: pool_step.feed pool_step.feed_close)+
          next
            case FeederReturned
            with inv have "seesDone c s" by (simp add: pool_inv_def)
            with i WIdle show ?thesis by (blast intro: pool_step.exit_cancel)
          next
            case FeederClosed
            with i WIdle Nil show ?thesis by (blast intro: pool_step.exit_closed)
          qed
        qed
      qed (use i in simp)
    qed
  qed
qed

section \<open>The contract of a pool\<close>

text \<open>
  What a client of the pool promises: processing a message yields a result related to it by
  \<open>R\<close>, a done context stays done, and cancelling makes it done. What it gets: no result without
  a message, and, unless the context was cancelled, exactly one result per message.
\<close>

locale worker_pool =
  fixes c :: "('m, 'r, 'w) pool_cfg" and R :: "'m \<Rightarrow> 'r \<Rightarrow> bool"
  assumes proc_R: "R m (fst (proc c m w))"
    and proc_done: "ctxDone c w \<Longrightarrow> ctxDone c (snd (proc c m w))"
    and cancel_done: "ctxDone c (cancelCtx c w)"
begin

definition results :: "('m, 'r, 'w) pool \<Rightarrow> 'r multiset" where
  "results s =
     mset (concat (map (\<lambda>p. case p of WBusy r \<Rightarrow> [r] | _ \<Rightarrow> []) (pworkers s))) +
     mset (resultChan s) + mset (collected s)"

definition accounted :: "'m multiset \<Rightarrow> ('m, 'r, 'w) pool \<Rightarrow> bool" where
  "accounted M s \<longleftrightarrow>
     (\<exists>A. rel_mset R A (results s) \<and> A + mset (feed s) + mset (msgChan s) \<subseteq># M \<and>
          (\<not> seesDone c s \<longrightarrow> A + mset (feed s) + mset (msgChan s) = M))"

lemma busy_update:
  assumes "i < length ps"
  shows "mset (concat (map (\<lambda>p. case p of WBusy r \<Rightarrow> [r] | _ \<Rightarrow> []) (ps[i := q]))) +
           mset (case ps ! i of WBusy r \<Rightarrow> [r] | _ \<Rightarrow> []) =
         mset (concat (map (\<lambda>p. case p of WBusy r \<Rightarrow> [r] | _ \<Rightarrow> []) ps)) +
           mset (case q of WBusy r \<Rightarrow> [r] | _ \<Rightarrow> [])"
proof -
  let ?f = "\<lambda>p. case p of WBusy r \<Rightarrow> [r] | _ \<Rightarrow> []"
  have "ps = take i ps @ ps ! i # drop (Suc i) ps" using assms by (rule id_take_nth_drop)
  then have "mset (concat (map ?f ps)) = mset (concat (map ?f (take i ps))) +
      (mset (?f (ps ! i)) + mset (concat (map ?f (drop (Suc i) ps))))"
    by (metis concat.simps(2) concat_append list.simps(9) map_append mset_append)
  moreover have "mset (concat (map ?f (ps[i := q]))) = mset (concat (map ?f (take i ps))) +
      (mset (?f q) + mset (concat (map ?f (drop (Suc i) ps))))"
    using assms by (simp add: upd_conv_take_nth_drop)
  ultimately show ?thesis by (simp add: ac_simps)
qed

lemma step_inv: "pool_step c s s' \<Longrightarrow> pool_inv c s \<Longrightarrow> pool_inv c s'"
proof (induction rule: pool_step.induct)
  case (take i s m ms r w')
  have "\<not> WExited \<in> set (pworkers s) \<or> seesDone c s"
    using take by (auto simp: pool_inv_def)
  moreover have "seesDone c s \<Longrightarrow> seesDone c (s\<lparr>msgChan := ms, pworkers := (pworkers s)[i := WBusy r], pworld := w'\<rparr>)"
    using take proc_done [of "pworld s" m] by (auto simp: seesDone_def)
  moreover have "\<not> rclosed s"
    using take by (auto simp: pool_inv_def list_all_length)
  ultimately show ?case
    using take set_update_subset_insert [of "pworkers s" i "WBusy r"]
    by (auto simp: pool_inv_def)
next
  case (cancel s)
  then show ?case using cancel_done by (auto simp: pool_inv_def seesDone_def)
next
  case (exit_closed i s)
  then show ?case by (auto simp: pool_inv_def seesDone_def list_all_length nth_list_update)
next
  case (exit_cancel i s)
  then show ?case by (auto simp: pool_inv_def seesDone_def list_all_length nth_list_update)
next
  case (put i s r)
  then show ?case
    using set_update_subset_insert [of "pworkers s" i WIdle]
    by (auto simp: pool_inv_def seesDone_def list_all_length)
next
  case (put_cancel i s r)
  then show ?case by (auto simp: pool_inv_def seesDone_def list_all_length nth_list_update)
qed (auto simp: pool_inv_def seesDone_def)

lemma seesDone_mono: "pool_step c s s' \<Longrightarrow> seesDone c s \<Longrightarrow> seesDone c s'"
proof (induction rule: pool_step.induct)
  case (take i s m ms r w')
  then show ?case using proc_done [of "pworld s" m] by (simp add: seesDone_def)
qed (auto simp: seesDone_def cancel_done)

lemma step_accounted: "pool_step c s s' \<Longrightarrow> accounted M s \<Longrightarrow> accounted M s'"
proof (induction rule: pool_step.induct)
  case (take i s m ms r w')
  let ?s' = "s\<lparr>msgChan := ms, pworkers := (pworkers s)[i := WBusy r], pworld := w'\<rparr>"
  from take.prems obtain A where A: "rel_mset R A (results s)"
    "A + mset (feed s) + mset (msgChan s) \<subseteq># M"
    "\<not> seesDone c s \<longrightarrow> A + mset (feed s) + mset (msgChan s) = M"
    by (auto simp: accounted_def)
  have "results ?s' = add_mset r (results s)"
    using busy_update [of i "pworkers s" "WBusy r"] take by (simp add: results_def)
  moreover have "R m r" using proc_R [of m "pworld s"] take by simp
  ultimately have "rel_mset R (add_mset m A) (results ?s')"
    using A(1) by (simp add: rel_mset_Plus)
  moreover have "\<not> seesDone c ?s' \<Longrightarrow> \<not> seesDone c s"
    using take proc_done [of "pworld s" m] by (auto simp: seesDone_def)
  ultimately show ?case using A(2,3) take(3)
    unfolding accounted_def by (intro exI [of _ "add_mset m A"]) auto
next
  case (put i s r)
  have "results (s\<lparr>pworkers := (pworkers s)[i := WIdle], resultChan := resultChan s @ [r]\<rparr>) = results s"
    using busy_update [of i "pworkers s" WIdle] put by (simp add: results_def)
  with put.prems show ?case by (simp add: accounted_def seesDone_def)
next
  case (put_cancel i s r)
  let ?s' = "s\<lparr>pworkers := (pworkers s)[i := WExited]\<rparr>"
  have eq: "add_mset r (results ?s') = results s"
    using busy_update [of i "pworkers s" WExited] put_cancel by (simp add: results_def)
  from put_cancel.prems obtain A where A: "rel_mset R A (add_mset r (results ?s'))"
    "A + mset (feed s) + mset (msgChan s) \<subseteq># M"
    unfolding accounted_def eq by blast
  from A(1) obtain A1 a where A1: "A = add_mset a A1" "rel_mset R A1 (results ?s')"
    by (metis msed_rel_invR)
  have "A1 + mset (feed s) + mset (msgChan s) \<subseteq># M"
    using A(2) A1(1) by (metis mset_subset_eq_insertD subset_mset.less_imp_le union_mset_add_mset_left)
  with A1 put_cancel show ?case
    unfolding accounted_def seesDone_def by (intro exI [of _ A1]) auto
next
  case (exit_closed i s)
  then show ?case using busy_update [of i "pworkers s" WExited]
    by (simp add: accounted_def results_def seesDone_def)
next
  case (exit_cancel i s)
  then show ?case using busy_update [of i "pworkers s" WExited]
    by (simp add: accounted_def results_def seesDone_def)
next
  case (cancel s)
  then show ?case using cancel_done by (auto simp: accounted_def results_def seesDone_def)
qed (auto simp: accounted_def results_def seesDone_def ac_simps)

lemma reach_inv:
  "(pool_step c)\<^sup>*\<^sup>* s s' \<Longrightarrow> pool_inv c s \<Longrightarrow> accounted M s \<Longrightarrow> pool_inv c s' \<and> accounted M s'"
  by (induction rule: rtranclp_induct) (blast intro: step_inv step_accounted)+

lemma accounted_init:
  "accounted (mset msgs) (pool_init msgs n canc w)" "accounted (mset msgs) (pool_prefilled msgs n canc w)"
  by (auto simp: accounted_def pool_init_def pool_prefilled_def results_def rel_mset_Zero
      intro!: exI [of _ "{#}"] simp flip: replicate_append_same)

lemma run_end:
  assumes "pool_inv c s0" and "accounted M s0" and s: "s = pool_run c pick s0"
  shows "pool_done s" and "accounted M s" and "results s = mset (collected s)"
    and "pworkers s0 \<noteq> [] \<Longrightarrow> \<not> seesDone c s \<Longrightarrow> feed s = [] \<and> msgChan s = []"
proof -
  have reach: "(pool_step c)\<^sup>*\<^sup>* s0 s" unfolding s pool_run_def by (rule run_pool_reach)
  have inv: "pool_inv c s" and acc: "accounted M s" using reach_inv [OF reach assms(1,2)] by simp_all
  have "pool_done s \<or> pool_succs c s = []" unfolding s pool_run_def by (rule run_pool_stuck) simp
  then show d: "pool_done s"
    using inv pool_progress [of c s] by (metis list.set_cases pool_succs_step list.distinct(1))
  show "accounted M s" by (rule acc)
  have ex: "list_all (\<lambda>p. p = WExited) (pworkers s)" using d inv by (simp add: pool_inv_def pool_done_def)
  have "concat (map (\<lambda>p. case p of WBusy r \<Rightarrow> [r] | _ \<Rightarrow> []) (pworkers s)) = []"
    using ex by (auto simp: list_all_iff)
  then show "results s = mset (collected s)" using d by (simp add: results_def pool_done_def)
  have len: "length (pworkers s) = length (pworkers s0)"
    using reach by (induction rule: rtranclp_induct) (auto elim!: pool_step.cases)
  show "feed s = [] \<and> msgChan s = []" if "pworkers s0 \<noteq> []" "\<not> seesDone c s"
  proof -
    have "WExited \<in> set (pworkers s)" using ex len that(1) by (cases "pworkers s") auto
    with inv that(2) show ?thesis by (auto simp: pool_inv_def)
  qed
qed

lemma run_results_from:
  assumes "pool_inv c s0" and "accounted (mset msgs) s0" and "pworkers s0 \<noteq> [] \<or> msgs = []"
    and s: "s = pool_run c pick s0"
  shows "\<exists>A. rel_mset R A (mset (collected s)) \<and> A \<subseteq># mset msgs \<and>
             (\<not> seesDone c s \<longrightarrow> A = mset msgs)"
proof -
  note fin = run_end [OF assms(1,2) s]
  from fin(2,3) obtain A where A: "rel_mset R A (mset (collected s))"
    "A + mset (feed s) + mset (msgChan s) \<subseteq># mset msgs"
    "\<not> seesDone c s \<longrightarrow> A + mset (feed s) + mset (msgChan s) = mset msgs"
    by (auto simp: accounted_def)
  have sub: "A \<subseteq># mset msgs"
    using A(2) by (metis add.assoc mset_subset_eq_add_left subset_mset.order_trans)
  have "A = mset msgs" if "\<not> seesDone c s"
    using assms(3) sub fin(4) that A(3) by (cases "msgs = []") auto
  with A(1) sub show ?thesis by blast
qed

lemma run_results:
  assumes "0 < n \<or> msgs = []" and "s = pool_run c pick (pool_init msgs n canc w)"
  shows "\<exists>A. rel_mset R A (mset (collected s)) \<and> A \<subseteq># mset msgs \<and>
             (\<not> seesDone c s \<longrightarrow> A = mset msgs)"
  using assms(1) by (intro run_results_from [OF pool_inv_init(1) accounted_init(1) _ assms(2)])
    (auto simp: pool_init_def)

text \<open>A pool that does not look at the context answers every message, and its world reflects exactly
  the results it collected.\<close>

lemma unwatched_results:
  assumes "\<not> watchCtx c" and "0 < n \<or> msgs = []" and s: "s = pool_run c pick (pool_prefilled msgs n canc w)"
  shows "rel_mset R (mset msgs) (mset (collected s))"
proof -
  have "\<not> seesDone c s" using assms(1) by (simp add: seesDone_def)
  moreover have "pworkers (pool_prefilled msgs n canc w :: ('m, 'r, 'w) pool) \<noteq> [] \<or> msgs = []"
    using assms(2) by (auto simp: pool_prefilled_def pool_init_def)
  ultimately show ?thesis
    using run_results_from [OF pool_inv_init(2) accounted_init(2) _ s] by blast
qed

lemma unwatched_world:
  assumes "\<not> watchCtx c" and "s = pool_run c pick (pool_prefilled msgs n canc w)"
    and "Q {#} w" and proc: "\<And>A w m. Q A w \<Longrightarrow> Q (add_mset (fst (proc c m w)) A) (snd (proc c m w))"
    and canc: "\<And>A w. Q A w \<Longrightarrow> Q A (cancelCtx c w)"
  shows "Q (mset (collected s)) (pworld s)"
proof -
  have step: "Q (results t') (pworld t')" if "pool_step c t t'" "Q (results t) (pworld t)" for t t'
    using that
  proof (induction rule: pool_step.induct)
    case (take i t m ms r w')
    have "results (t\<lparr>msgChan := ms, pworkers := (pworkers t)[i := WBusy r], pworld := w'\<rparr>) = add_mset r (results t)"
      using busy_update [of i "pworkers t" "WBusy r"] take by (simp add: results_def)
    with take show ?case using proc [OF take.prems, of m] by simp
  next
    case (put i t r)
    have "results (t\<lparr>pworkers := (pworkers t)[i := WIdle], resultChan := resultChan t @ [r]\<rparr>) = results t"
      using busy_update [of i "pworkers t" WIdle] put by (simp add: results_def)
    with put show ?case by simp
  next
    case (exit_closed i t)
    have "results (t\<lparr>pworkers := (pworkers t)[i := WExited]\<rparr>) = results t"
      using busy_update [of i "pworkers t" WExited] exit_closed by (simp add: results_def)
    with exit_closed show ?case by simp
  qed (use assms(1) canc in \<open>auto simp: results_def seesDone_def ac_simps\<close>)
  have "Q (results t) (pworld t)" if "(pool_step c)\<^sup>*\<^sup>* (pool_prefilled msgs n canc w) t" for t
    using that by (induction rule: rtranclp_induct)
      (use assms(3) step in \<open>auto simp: results_def pool_prefilled_def pool_init_def simp flip: replicate_append_same\<close>)
  from this [of s] show ?thesis
    using run_end(3) [OF pool_inv_init(2) accounted_init(2) assms(2)] run_pool_reach
    unfolding assms(2) pool_run_def by metis
qed

end

section \<open>Invariants of the world under a pool\<close>

lemma pool_reach_world:
  assumes "(pool_step c)\<^sup>*\<^sup>* s s'" and "Q (pworld s)"
    and "\<And>m w. Q w \<Longrightarrow> Q (snd (proc c m w))" and "\<And>w. Q w \<Longrightarrow> Q (cancelCtx c w)"
  shows "Q (pworld s')"
  using assms(1,2)
proof (induction rule: rtranclp_induct)
  case (step t u)
  then have "Q (pworld t)" by blast
  with step(2) show ?case
  proof cases
    case (take i m ms r w')
    then show ?thesis using assms(3) [OF \<open>Q (pworld t)\<close>, of m] by simp
  qed (use assms(4) in auto)
qed

lemma pool_run_world:
  assumes "Q w" and "\<And>m w. Q w \<Longrightarrow> Q (snd (proc c m w))" and "\<And>w. Q w \<Longrightarrow> Q (cancelCtx c w)"
  shows "Q (pworld (pool_run c pick (pool_init msgs n canc w)))"
  unfolding pool_run_def
  by (rule pool_reach_world [of c "pool_init msgs n canc w"])
    (use assms run_pool_reach in \<open>auto simp: pool_init_def\<close>)

end
