(* ===== verification/Processor.thy ===== *)
theory Processor
  imports Mno_Factory Rate_Limiter Result_Handler Consumer Worker_Pool
begin

text \<open>
  \<^verbatim>\<open>internal/sms/service/processor.go\<close>: the batch processor. Safaricom promotional messages take
  the SDP batch path (grouped by sender id, cut into chunks), all others the worker pool of
  \<open>Worker_Pool\<close>. \<^verbatim>\<open>processMessage\<close> clones its message, so workers do not share messages.
\<close>

record processor =
  pFactory :: factory
  pGatewayQueue :: string
  pResultHandler :: result_handler
  pLimiter :: limiter
  pMetrics :: bool
  workerCount :: int
  sdpBatchSize :: int
  isRetry :: bool

definition NewProcessor :: "processor \<Rightarrow> processor" where
  "NewProcessor cfg =
     cfg\<lparr>workerCount := (if workerCount cfg \<le> 0 then 10 else workerCount cfg),
         sdpBatchSize := (if sdpBatchSize cfg < 1 then 1 else sdpBatchSize cfg)\<rparr>"

text \<open>Processors of retry queues wait for the reserved retry budget.\<close>

definition waitRate :: "env \<Rightarrow> processor \<Rightarrow> ctxid \<Rightarrow> network \<Rightarrow> world \<Rightarrow> goerr option \<times> world" where
  "waitRate e p ctx n w =
     (if isRetry p then rl_WaitRetry e (pLimiter p) ctx n w else rl_Wait e (pLimiter p) ctx n w)"

definition waitRateN :: "env \<Rightarrow> processor \<Rightarrow> ctxid \<Rightarrow> network \<Rightarrow> int \<Rightarrow> world \<Rightarrow> goerr option \<times> world" where
  "waitRateN e p ctx n k w =
     (if isRetry p then rl_WaitRetryN e (pLimiter p) ctx n k w else rl_WaitN e (pLimiter p) ctx n k w)"

definition processMessage ::
  "env \<Rightarrow> processor \<Rightarrow> ctxid \<Rightarrow> message \<Rightarrow> world \<Rightarrow> send_result \<times> world" where
  "processMessage e p ctx msg w =
     (let msg = Clone msg;
          start = time_Now e w;
          network = msg_Network msg in
      case Validate msg of
        Some err \<Rightarrow> (NewPermanentResult (time_Now e w) msg err (time_Since e w start), w)
      | None \<Rightarrow>
     (case waitRate e p ctx network w of
        (Some err, w) \<Rightarrow>
          (let w = metric e (pMetrics p) (IncRateLimitHits network) w
           in (NewRetryableResult (time_Now e w) msg ErrRateLimited (time_Since e w start), w))
      | (None, w) \<Rightarrow>
     (case router_GetSender (pFactory p) msg of
        Inl err \<Rightarrow> (NewPermanentResult (time_Now e w) msg err (time_Since e w start), w)
      | Inr sender \<Rightarrow>
          if \<not> sender_IsHealthy e sender w then
            (NewRetryableResult (time_Now e w) msg ErrCircuitOpen (time_Since e w start), w)
          else
            (let (result, w) = sender_Send e (pGatewayQueue p) sender ctx msg w
             in (result, metric e (pMetrics p) (ObserveSendLatency network (rLatency result)) w)))))"

section \<open>The worker pool\<close>

definition processor_pool :: "env \<Rightarrow> processor \<Rightarrow> ctxid \<Rightarrow> (message, send_result, world) pool_cfg" where
  "processor_pool e p ctx =
     \<lparr>proc = processMessage e p ctx, ctxDone = (\<lambda>w. ctxdone w ctx), cancelCtx = cancelContext ctx,
      watchCtx = True\<rparr>"

definition processRegular ::
  "env \<Rightarrow> processor \<Rightarrow> ctxid \<Rightarrow> message list \<Rightarrow> world \<Rightarrow> batch_result \<times> world" where
  "processRegular e p ctx messages w =
     (let workers = (if workerCount p > int (length messages) then int (length messages) else workerCount p);
          s = pool_run (processor_pool e p ctx) (pick e (trace w))
                (pool_init messages (nat workers) True w)
      in (AddResults NewBatchResult (collected s), pworld s))"

section \<open>The SDP batch path\<close>

text \<open>\<^verbatim>\<open>groupBySender\<close>: the senders in the order they are first seen, and the map of their
  messages.\<close>

definition groupStep ::
  "string list \<times> (string \<rightharpoonup> message list) \<Rightarrow> message \<Rightarrow> string list \<times> (string \<rightharpoonup> message list)" where
  "groupStep st msg =
     (let (order, groups) = st;
          order = (if groups (Sender msg) = None then order @ [Sender msg] else order)
      in (order, groups(Sender msg \<mapsto> (case groups (Sender msg) of None \<Rightarrow> [] | Some g \<Rightarrow> g) @ [msg])))"

definition groupBySender :: "message list \<Rightarrow> message list list" where
  "groupBySender msgs =
     (let (order, groups) = foldl groupStep ([], Map.empty) msgs
      in map (\<lambda>sender. case groups sender of None \<Rightarrow> [] | Some g \<Rightarrow> g) order)"

text \<open>The slices \<^verbatim>\<open>group[i:end]\<close> of the loop \<^verbatim>\<open>for i := 0; i < len(group); i += size\<close>.\<close>

function chunks :: "nat \<Rightarrow> 'a list \<Rightarrow> 'a list list" where
  "chunks n xs = (if xs = [] \<or> n = 0 then [] else take n xs # chunks n (drop n xs))"
  by auto
termination by (relation "measure (\<lambda>(n, xs). length xs)") (auto simp: neq_Nil_conv)

declare chunks.simps [simp del]

text \<open>Failing every message of a chunk, as the loops over \<^verbatim>\<open>NewRetryableResult(msg, err, 0)\<close> do.\<close>

definition retry_all :: "env \<Rightarrow> world \<Rightarrow> goerr \<Rightarrow> message list \<Rightarrow> send_result list" where
  "retry_all e w err msgs = map (\<lambda>msg. NewRetryableResult (time_Now e w) msg err 0) msgs"

definition sendChunk ::
  "env \<Rightarrow> processor \<Rightarrow> sdp_config \<Rightarrow> ctxid \<Rightarrow> message list \<Rightarrow> world \<Rightarrow> send_result list \<times> world" where
  "sendChunk e p sender ctx chunk w =
     (case waitRateN e p ctx NetworkSafaricom (int (length chunk)) w of
        (Some err, w) \<Rightarrow>
          (let w = metric e (pMetrics p) (IncRateLimitHits NetworkSafaricom) w
           in (retry_all e w ErrRateLimited chunk, w))
      | (None, w) \<Rightarrow> SendBatch e (pGatewayQueue p) sender ctx chunk w)"

fun sendChunks ::
  "env \<Rightarrow> processor \<Rightarrow> sdp_config \<Rightarrow> ctxid \<Rightarrow> message list list \<Rightarrow> batch_result \<Rightarrow> world \<Rightarrow> batch_result \<times> world" where
  "sendChunks e p sender ctx [] result w = (result, w)"
| "sendChunks e p sender ctx (chunk # cs) result w =
     (let (results, w) = sendChunk e p sender ctx chunk w
      in sendChunks e p sender ctx cs (AddResults result results) w)"

definition processSdpBatch ::
  "env \<Rightarrow> processor \<Rightarrow> ctxid \<Rightarrow> message list \<Rightarrow> sdp_config \<Rightarrow> batch_result \<Rightarrow> world \<Rightarrow> batch_result \<times> world" where
  "processSdpBatch e p ctx msgs sender result w =
     sendChunks e p sender ctx
       (concat (map (chunks (nat (sdpBatchSize p))) (groupBySender msgs))) result w"

section \<open>Batches and deliveries\<close>

definition isSdpPromo :: "message \<Rightarrow> bool" where
  "isSdpPromo msg \<longleftrightarrow> msg_Network msg = NetworkSafaricom \<and> \<not> IsTransactional msg"

text \<open>The SDP part of \<^verbatim>\<open>processBatch\<close>: the batch so far and the messages left for the pool.\<close>

definition sdpPhase ::
  "env \<Rightarrow> processor \<Rightarrow> ctxid \<Rightarrow> message list \<Rightarrow> world \<Rightarrow> (batch_result \<times> message list) \<times> world" where
  "sdpPhase e p ctx messages w =
     (let result = NewBatchResult;
          sdpPromo = filter isSdpPromo messages;
          regular = filter (\<lambda>m. \<not> isSdpPromo m) messages in
      if length sdpPromo > 0 then
        (case router_GetSenderByNetwork (pFactory p) NetworkSafaricom of
           Inl err \<Rightarrow> ((AddResults result (retry_all e w err sdpPromo), regular), w)
         | Inr sender \<Rightarrow>
             (case asBatchSender sender of
                Some bs \<Rightarrow>
                  (let (result, w) = processSdpBatch e p ctx sdpPromo bs result w
                   in ((result, regular), w))
              | None \<Rightarrow> ((result, regular @ sdpPromo), w)))
      else ((result, regular), w))"

definition processBatch ::
  "env \<Rightarrow> processor \<Rightarrow> ctxid \<Rightarrow> message list \<Rightarrow> world \<Rightarrow> batch_result \<times> world" where
  "processBatch e p ctx messages w =
     (if sdpBatchSize p \<le> 1 then processRegular e p ctx messages w
      else
        (let ((result, regular), w) = sdpPhase e p ctx messages w in
         if length regular > 0 then
           (let (regularResult, w) = processRegular e p ctx regular w;
                result = AddResults result (Successful regularResult);
                result = AddResults result (Retryable regularResult);
                result = AddResults result (Failed regularResult)
            in (result, w))
         else (result, w)))"

definition ProcessDelivery :: "env \<Rightarrow> processor \<Rightarrow> ctxid \<Rightarrow> delivery \<Rightarrow> world \<Rightarrow> goerr option \<times> world" where
  "ProcessDelivery e p ctx delivery w =
     (let messages = dMessages delivery in
      if length messages = 0 then d_Ack e delivery w
      else
        (let (batchResult, w) = processBatch e p ctx messages w in
         case HandleBatchResults e (pResultHandler p) ctx batchResult w of
           ((Some err, _), w) \<Rightarrow> d_Nack e delivery True w
         | ((None, _), w) \<Rightarrow> d_Ack e delivery w))"

definition ProcessRetryQueue :: "env \<Rightarrow> processor \<Rightarrow> ctxid \<Rightarrow> delivery \<Rightarrow> world \<Rightarrow> goerr option \<times> world" where
  "ProcessRetryQueue e p ctx delivery w = ProcessDelivery e p ctx delivery w"

definition ProcessMessages ::
  "env \<Rightarrow> processor \<Rightarrow> ctxid \<Rightarrow> message list \<Rightarrow> world \<Rightarrow> (batch_result \<times> goerr option) \<times> world" where
  "ProcessMessages e p ctx messages w =
     (if length messages = 0 then ((NewBatchResult, None), w)
      else
        (let (batchResult, w) = processBatch e p ctx messages w in
         case HandleBatchResults e (pResultHandler p) ctx batchResult w of
           ((Some err, batchResult), w) \<Rightarrow> ((batchResult, Some err), w)
         | ((None, batchResult), w) \<Rightarrow> ((batchResult, None), w)))"

lemma NewProcessor_fields [simp]:
  "0 < workerCount (NewProcessor cfg)" "0 < sdpBatchSize (NewProcessor cfg)"
  "pResultHandler (NewProcessor cfg) = pResultHandler cfg" "pLimiter (NewProcessor cfg) = pLimiter cfg"
  "isRetry (NewProcessor cfg) = isRetry cfg" "pFactory (NewProcessor cfg) = pFactory cfg"
  by (simp_all add: NewProcessor_def)

section \<open>One message\<close>

fun proc_event :: "event \<Rightarrow> bool" where
  "proc_event (EvRateWait b n k r) = True"
| "proc_event ev = sender_event ev"

lemma sender_proc_event: "sender_event ev \<Longrightarrow> proc_event ev"
  by (cases ev) auto

lemma quiet_sender_proc: "quiet sender_event w w' \<Longrightarrow> quiet proc_event w w'"
  by (erule quiet_mono) (rule sender_proc_event)

lemma rl_waits_frame:
  "frame proc_event w (snd (rl_Wait e l ctx n w))" "frame proc_event w (snd (rl_WaitRetry e l ctx n w))"
  "frame proc_event w (snd (rl_WaitN e l ctx n k w))" "frame proc_event w (snd (rl_WaitRetryN e l ctx n k w))"
  by (auto simp: rl_Wait_def rl_WaitRetry_def rl_WaitN_def rl_WaitRetryN_def bucket_WaitN_def Let_def
      split: option.splits)

lemma waitRate_frame:
  "frame proc_event w (snd (waitRate e p ctx n w))" "frame proc_event w (snd (waitRateN e p ctx n k w))"
  by (simp_all add: waitRate_def waitRateN_def rl_waits_frame)

lemma processMessage_contract:
  "send_contract msg (fst (processMessage e p ctx msg w))"
  "frame proc_event w (snd (processMessage e p ctx msg w))"
proof -
  obtain r w1 where wo: "waitRate e p ctx (msg_Network msg) w = (r, w1)"
    by (cases "waitRate e p ctx (msg_Network msg) w")
  have f1: "frame proc_event w w1" using waitRate_frame(1) [of w e p ctx "msg_Network msg"] wo by simp
  have f2: "frame proc_event w (snd (sender_Send e (pGatewayQueue p) s ctx msg w1))" for s
    by (rule frame_trans [OF f1 quiet_frame [OF quiet_sender_proc [OF senders.send_quiet]]])
  note defs = processMessage_def wo Let_def
  show "send_contract msg (fst (processMessage e p ctx msg w))"
    by (auto simp: defs send_simps senders.send_result case_prod_beta split: option.split sum.split)
  show "frame proc_event w (snd (processMessage e p ctx msg w))"
    using f1 f2 by (auto simp: defs case_prod_beta split: option.split sum.split)
qed

lemma processMessage_le: "world_le w (snd (processMessage e p ctx msg w))"
  using processMessage_contract(2) by (rule frame_world_le)

interpretation procpool: worker_pool "processor_pool e p ctx" send_contract for e p ctx
proof unfold_locales
  fix m w
  show "send_contract m (fst (proc (processor_pool e p ctx) m w))"
    by (simp add: processor_pool_def processMessage_contract)
  show "ctxDone (processor_pool e p ctx) (snd (proc (processor_pool e p ctx) m w))"
    if "ctxDone (processor_pool e p ctx) w"
    using that world_le_ctxdone [OF processMessage_le] by (simp add: processor_pool_def)
  show "ctxDone (processor_pool e p ctx) (cancelCtx (processor_pool e p ctx) w)"
    by (simp add: processor_pool_def)
qed

section \<open>Batches\<close>

text \<open>The relation between the messages of a batch and its results: every result belongs to one
  message, no message has two, and none is missing unless the context is done.\<close>

definition answers :: "message list \<Rightarrow> bool \<Rightarrow> send_result multiset \<Rightarrow> bool" where
  "answers msgs cancelled R \<longleftrightarrow>
     (\<exists>A. rel_mset send_contract A R \<and> A \<subseteq># mset msgs \<and> (cancelled \<or> A = mset msgs))"

lemma answers_list_all2: "list_all2 send_contract msgs rs \<Longrightarrow> answers msgs c (mset rs)"
  unfolding answers_def rel_mset_def by blast

lemma rel_mset_union: "rel_mset R A B \<Longrightarrow> rel_mset R C D \<Longrightarrow> rel_mset R (A + C) (B + D)"
  unfolding rel_mset_def by (metis list_all2_appendI mset_append)

lemma answers_append:
  assumes "answers xs c R" and "answers ys c S"
  shows "answers (xs @ ys) c (R + S)"
proof -
  from assms obtain A B where A: "rel_mset send_contract A R" "A \<subseteq># mset xs" "c \<or> A = mset xs"
    and B: "rel_mset send_contract B S" "B \<subseteq># mset ys" "c \<or> B = mset ys"
    by (auto simp: answers_def)
  have "rel_mset send_contract (A + B) (R + S)" using A(1) B(1) by (rule rel_mset_union)
  moreover have "A + B \<subseteq># mset (xs @ ys)" using A(2) B(2) by (simp add: subset_mset.add_mono)
  ultimately show ?thesis using A(3) B(3) unfolding answers_def by (intro exI [of _ "A + B"]) auto
qed

lemma answers_perm: "answers xs c R \<Longrightarrow> mset xs = mset ys \<Longrightarrow> answers ys c R"
  by (simp add: answers_def)

lemma answers_weaken: "answers xs c R \<Longrightarrow> (c \<Longrightarrow> d) \<Longrightarrow> answers xs d R"
  by (auto simp: answers_def)

lemma batch_all_New [simp]: "batch_all NewBatchResult = []"
  by (simp add: NewBatchResult_def batch_all_def)

lemma processRegular_facts:
  assumes "0 < workerCount p" and "processRegular e p ctx msgs w = (b, w')"
  shows "answers msgs (ctxdone w' ctx) (mset (batch_all b))" and "batch_wf b" and "frame proc_event w w'"
proof -
  define n where "n = nat (if workerCount p > int (length msgs) then int (length msgs) else workerCount p)"
  let ?s = "pool_run (processor_pool e p ctx) (pick e (trace w)) (pool_init msgs n True w)"
  have b: "b = AddResults NewBatchResult (collected ?s)" and w': "w' = pworld ?s"
    using assms(2) by (simp_all add: processRegular_def Let_def n_def)
  have n: "0 < n \<or> msgs = []" using assms(1) by (cases msgs) (auto simp: n_def)
  have "\<exists>A. rel_mset send_contract A (mset (collected ?s)) \<and> A \<subseteq># mset msgs \<and>
      (\<not> seesDone (processor_pool e p ctx) ?s \<longrightarrow> A = mset msgs)"
    using n by (rule procpool.run_results) (rule refl)
  moreover have "seesDone (processor_pool e p ctx) ?s = ctxdone w' ctx"
    by (simp add: seesDone_def processor_pool_def w')
  ultimately show "answers msgs (ctxdone w' ctx) (mset (batch_all b))"
    by (auto simp: answers_def b mset_AddResults batch_all_New)
  show "batch_wf b" by (simp add: b batch_wf_AddResults)
  show "frame proc_event w w'"
    unfolding w'
  proof (rule pool_run_world [where Q = "frame proc_event w"])
    fix m w1 assume "frame proc_event w w1"
    then show "frame proc_event w (snd (proc (processor_pool e p ctx) m w1))"
      by (simp add: processor_pool_def) (rule frame_trans [OF _ processMessage_contract(2)])
  next
    fix w1 assume "frame proc_event w w1"
    then show "frame proc_event w (cancelCtx (processor_pool e p ctx) w1)"
      by (simp add: processor_pool_def) (erule frame_trans; rule frame_cancel)
  qed simp
qed

subsection \<open>Grouping and chunks\<close>

definition first_seen :: "string list \<Rightarrow> string list" where
  "first_seen xs = rev (remdups (rev xs))"

lemma groupStep_fold:
  "foldl groupStep ([], Map.empty) msgs =
     (first_seen (map Sender msgs),
      \<lambda>s. if s \<in> Sender ` set msgs then Some (filter (\<lambda>m. Sender m = s) msgs) else None)"
  by (induction msgs rule: rev_induct)
    (auto simp: groupStep_def first_seen_def Let_def fun_eq_iff filter_empty_conv image_iff)

lemma groupBySender_eq:
  "groupBySender msgs = map (\<lambda>s. filter (\<lambda>m. Sender m = s) msgs) (first_seen (map Sender msgs))"
  by (simp add: groupBySender_def groupStep_fold) (simp add: first_seen_def)

lemma mset_concat_groups:
  fixes msgs :: "message list"
  shows "distinct ss \<Longrightarrow> mset (concat (map (\<lambda>s. filter (\<lambda>m. Sender m = s) msgs) ss)) =
     filter_mset (\<lambda>m. Sender m \<in> set ss) (mset msgs)"
proof (induction ss)
  case (Cons s ss)
  have "filter_mset (\<lambda>m. Sender m \<in> set (s # ss)) M =
      filter_mset (\<lambda>m. Sender m = s) M + filter_mset (\<lambda>m. Sender m \<in> set ss) M" for M :: "message multiset"
    using Cons.prems by (induction M) auto
  from this [of "mset msgs"] Cons show ?case by (simp del: set_simps)
qed simp

lemma mset_groupBySender: "mset (concat (groupBySender msgs)) = mset msgs"
proof -
  have "set (first_seen (map Sender msgs)) = Sender ` set msgs" by (simp add: first_seen_def)
  moreover have "distinct (first_seen (map Sender msgs))" by (simp add: first_seen_def)
  ultimately show ?thesis
    unfolding groupBySender_eq by (subst mset_concat_groups) (auto simp: filter_mset_eq_conv)
qed

lemma chunks_facts:
  "0 < n \<Longrightarrow> concat (chunks n xs) = xs \<and> list_all (\<lambda>c. c \<noteq> [] \<and> length c \<le> n) (chunks n xs)"
proof (induction n xs rule: chunks.induct)
  case (1 n xs)
  then show ?case by (cases "xs = []") (simp add: chunks.simps, simp add: chunks.simps [of n xs])
qed

text \<open>The calls that \<^verbatim>\<open>processSdpBatch\<close> makes.\<close>

definition sdp_calls :: "processor \<Rightarrow> message list \<Rightarrow> message list list" where
  "sdp_calls p msgs = concat (map (chunks (nat (sdpBatchSize p))) (groupBySender msgs))"

lemma concat_chunks: "0 < n \<Longrightarrow> concat (concat (map (chunks n) gs)) = concat gs"
  by (induction gs) (simp_all add: chunks_facts)

text \<open>Grouping for the SDP batch path: the batches of one delivery partition its messages; each is
  non-empty, no longer than the configured batch size, and all of its messages have the same sender
  id; groups appear in the order their sender id is first seen and keep the order of the messages.\<close>

theorem sdp_batches_partition:
  "mset (concat (sdp_calls (NewProcessor cfg) msgs)) = mset msgs \<and>
   list_all (\<lambda>c. c \<noteq> [] \<and> length c \<le> nat (sdpBatchSize (NewProcessor cfg)) \<and>
                 (\<exists>s. list_all (\<lambda>m. Sender m = s) c)) (sdp_calls (NewProcessor cfg) msgs) \<and>
   concat (sdp_calls (NewProcessor cfg) msgs) =
     concat (map (\<lambda>s. filter (\<lambda>m. Sender m = s) msgs) (first_seen (map Sender msgs)))"
proof -
  let ?n = "nat (sdpBatchSize (NewProcessor cfg))"
  have n: "0 < ?n" by (simp add: NewProcessor_def)
  have cc: "concat (sdp_calls (NewProcessor cfg) msgs) = concat (groupBySender msgs)"
    using concat_chunks [OF n] by (simp add: sdp_calls_def)
  have "c \<noteq> [] \<and> length c \<le> ?n \<and> (\<exists>s. list_all (\<lambda>m. Sender m = s) c)"
    if "c \<in> set (sdp_calls (NewProcessor cfg) msgs)" for c
  proof -
    from that obtain g where g: "g \<in> set (groupBySender msgs)" "c \<in> set (chunks ?n g)"
      by (auto simp: sdp_calls_def)
    have "c \<noteq> [] \<and> length c \<le> ?n" using chunks_facts [OF n, of g] g(2) by (auto simp: list_all_iff)
    moreover have "set c \<subseteq> set g" using chunks_facts [OF n, of g] g(2) by (metis UN_upper set_concat)
    moreover obtain s where "list_all (\<lambda>m. Sender m = s) g"
      using g(1) unfolding groupBySender_eq by (fastforce simp: list_all_iff)
    ultimately show ?thesis by (auto simp: list_all_iff)
  qed
  then show ?thesis
    using cc mset_groupBySender [of msgs] by (simp add: list_all_iff groupBySender_eq)
qed

subsection \<open>Whole batches\<close>

lemma AddResults_append: "AddResults (AddResults b rs) qs = AddResults b (rs @ qs)"
  by (simp add: AddResults_def)

lemma sendChunk_facts:
  "list_all2 send_contract chunk (fst (sendChunk e p d ctx chunk w)) \<and>
   frame proc_event w (snd (sendChunk e p d ctx chunk w))"
proof -
  obtain r w1 where wr: "waitRateN e p ctx NetworkSafaricom (int (length chunk)) w = (r, w1)"
    by (cases "waitRateN e p ctx NetworkSafaricom (int (length chunk)) w")
  have f: "frame proc_event w w1"
    using waitRate_frame(2) [of w e p ctx NetworkSafaricom "int (length chunk)"] wr by simp
  have f2: "frame proc_event w (snd (SendBatch e (pGatewayQueue p) d ctx chunk w1))"
    by (rule frame_trans [OF f quiet_frame [OF quiet_sender_proc [OF sdp.batch_quiet]]])
  have "list_all2 send_contract chunk (retry_all e w2 err chunk)" for w2 err
    by (simp add: retry_all_def list_all2_map2 list_all2_same send_simps)
  then show ?thesis
    using f f2 by (cases r) (simp_all add: sendChunk_def wr Let_def sdp.batch_results)
qed

lemma sendChunks_facts:
  assumes "sendChunks e p d ctx cs b w = (b', w')"
  shows "\<exists>rs. b' = AddResults b rs \<and> list_all2 send_contract (concat cs) rs \<and> frame proc_event w w'"
  using assms
proof (induction cs arbitrary: b w)
  case Nil
  then show ?case by (auto simp: AddResults_def intro!: exI [of _ "[]"])
next
  case (Cons c cs)
  obtain r1 w1 where c: "sendChunk e p d ctx c w = (r1, w1)" by (cases "sendChunk e p d ctx c w")
  have f: "list_all2 send_contract c r1" "frame proc_event w w1"
    using sendChunk_facts [of c e p d ctx w] c by simp_all
  have "sendChunks e p d ctx cs (AddResults b r1) w1 = (b', w')" using Cons.prems c by simp
  from Cons.IH [OF this] obtain rs where rs: "b' = AddResults (AddResults b r1) rs"
    "list_all2 send_contract (concat cs) rs" "frame proc_event w1 w'" by blast
  have "list_all2 send_contract (concat (c # cs)) (r1 @ rs)"
    using f(1) rs(2) by (simp add: list_all2_appendI)
  then show ?case using rs f(2) frame_trans [OF f(2) rs(3)] by (auto simp: AddResults_append)
qed

lemma sdpPhase_facts:
  assumes "0 < sdpBatchSize p" and "sdpPhase e p ctx msgs w = ((b, regular), w')"
  shows "regular = filter (\<lambda>m. \<not> isSdpPromo m) msgs" and "batch_wf b" and "frame proc_event w w'"
    and "answers (filter isSdpPromo msgs) c (mset (batch_all b))"
proof -
  let ?promo = "filter isSdpPromo msgs"
  have "regular = filter (\<lambda>m. \<not> isSdpPromo m) msgs \<and> batch_wf b \<and> frame proc_event w w' \<and>
      answers ?promo c (mset (batch_all b))"
  proof (cases "?promo = []")
    case True
    then show ?thesis using assms(2) answers_list_all2 [of "[]" "[]" c] by (auto simp: sdpPhase_def Let_def)
  next
    case False
    obtain b1 w1 where s: "processSdpBatch e p ctx ?promo (safaricomSDP (pFactory p)) NewBatchResult w = (b1, w1)"
      by (cases "processSdpBatch e p ctx ?promo (safaricomSDP (pFactory p)) NewBatchResult w")
    have eqs: "b = b1" "w' = w1" "regular = filter (\<lambda>m. \<not> isSdpPromo m) msgs"
      using assms(2) False s by (simp_all add: sdpPhase_def router_GetSenderByNetwork_def Let_def)
    from sendChunks_facts [OF s [unfolded processSdpBatch_def]] obtain rs where
      rs: "b1 = AddResults NewBatchResult rs" "frame proc_event w w1"
        "list_all2 send_contract (concat (concat (map (chunks (nat (sdpBatchSize p))) (groupBySender ?promo)))) rs"
      by blast
    have "concat (concat (map (chunks (nat (sdpBatchSize p))) (groupBySender ?promo))) = concat (groupBySender ?promo)"
      using assms(1) by (intro concat_chunks) simp
    then have "answers ?promo c (mset rs)"
      using answers_list_all2 [OF rs(3)] mset_groupBySender [of ?promo] by (metis answers_perm)
    then show ?thesis using eqs rs by (simp add: mset_AddResults batch_wf_AddResults)
  qed
  then show "regular = filter (\<lambda>m. \<not> isSdpPromo m) msgs" and "batch_wf b" and "frame proc_event w w'"
    and "answers ?promo c (mset (batch_all b))" by blast+
qed

lemma processBatch_facts:
  assumes "0 < workerCount p" and "0 < sdpBatchSize p" and "processBatch e p ctx msgs w = (b, w')"
  shows "answers msgs (ctxdone w' ctx) (mset (batch_all b)) \<and> batch_wf b \<and> frame proc_event w w'"
proof (cases "sdpBatchSize p \<le> 1")
  case True
  then show ?thesis using processRegular_facts [OF assms(1)] assms(3) by (simp add: processBatch_def)
next
  case False
  let ?promo = "filter isSdpPromo msgs" and ?reg = "filter (\<lambda>m. \<not> isSdpPromo m) msgs"
  obtain b1 regular w1 where s: "sdpPhase e p ctx msgs w = ((b1, regular), w1)"
    by (cases "sdpPhase e p ctx msgs w") auto
  note f = sdpPhase_facts [OF assms(2) s]
  have part: "mset (?promo @ ?reg) = mset msgs" by (simp add: mset_filter_partition [symmetric])
  show ?thesis
  proof (cases "?reg = []")
    case True
    then have "b = b1" "w' = w1" using assms(3) False s f(1) by (auto simp: processBatch_def)
    then show ?thesis
      using f(2,3) answers_perm [OF f(4) [of "ctxdone w' ctx"]] part True by auto
  next
    case ne: False
    obtain b2 w2 where r: "processRegular e p ctx ?reg w1 = (b2, w2)" by (cases "processRegular e p ctx ?reg w1")
    note g = processRegular_facts [OF assms(1) r]
    have b: "b = AddResults b1 (batch_all b2)" and w': "w' = w2"
      using assms(3) False s f(1) r ne by (auto simp: processBatch_def AddResults_append batch_all_def Let_def)
    have "answers (?promo @ ?reg) (ctxdone w' ctx) (mset (batch_all b1) + mset (batch_all b2))"
      using f(4) g(1) unfolding w' by (rule answers_append)
    then show ?thesis
      using answers_perm [OF _ part] f(2,3) g(3) frame_trans [OF f(3) g(3)]
      by (simp add: b w' mset_AddResults batch_wf_AddResults)
  qed
qed

text \<open>C3. Processing a batch: whatever the scheduler, the operators, the rate limiter and the breakers do,
  the call returns a well-formed batch in which every result belongs to exactly one message of the
  batch (same content, with the status fields of its outcome) and no message has two results; every
  message has one unless the context was cancelled.\<close>

theorem processBatch_exactly_once:
  "let (b, w') = processBatch e (NewProcessor cfg) ctx msgs w in
     batch_wf b \<and> frame proc_event w w' \<and>
     (\<exists>A. rel_mset send_contract A (mset (batch_all b)) \<and> A \<subseteq># mset msgs \<and>
          (ctxdone w' ctx \<or> A = mset msgs))"
proof -
  obtain b w' where r: "processBatch e (NewProcessor cfg) ctx msgs w = (b, w')"
    by (cases "processBatch e (NewProcessor cfg) ctx msgs w")
  show ?thesis
    using processBatch_facts [OF _ _ r] by (simp add: r answers_def)
qed

section \<open>Settling a delivery\<close>

fun is_settle :: "event \<Rightarrow> bool" where
  "is_settle (EvAck t r) = True"
| "is_settle (EvNack t q r) = True"
| "is_settle _ = False"

definition settles :: "world \<Rightarrow> world \<Rightarrow> event list" where
  "settles w w' = filter is_settle (new_events w w')"

lemma frame_silent:
  "frame P w w' \<Longrightarrow> (\<And>ev. P ev \<Longrightarrow> \<not> is_settle ev) \<Longrightarrow> settles w w' = []"
  "frame P w w' \<Longrightarrow> (\<And>ev. P ev \<Longrightarrow> accepted1 ev = []) \<Longrightarrow> accepted (new_events w w') = []"
  by (auto simp: frame_def settles_def list_all_iff filter_empty_conv accepted_def)

lemma proc_event_silent: "proc_event ev \<Longrightarrow> \<not> is_settle ev \<and> accepted1 ev = []"
  by (cases ev) auto

lemma publisher_event_silent: "publisher_event ev \<Longrightarrow> \<not> is_settle ev"
  by (cases ev) auto

lemma settle_emit:
  assumes "world_le w w1"
  shows "settles w (emit e ev w1) = settles w w1 @ (if is_settle ev then [ev] else [])"
    and "accepted (new_events w (emit e ev w1)) = accepted (new_events w w1) @ accepted1 ev"
  using new_events_emit_trans [OF assms] by (simp_all add: settles_def)

text \<open>Processing followed by publishing, the common part of \<^verbatim>\<open>ProcessDelivery\<close> and
  \<^verbatim>\<open>ProcessMessages\<close>.\<close>

lemma process_publish:
  assumes "0 < workerCount p" "0 < sdpBatchSize p" "limits_ok (pResultHandler p)"
    and pb: "processBatch e p ctx msgs w = (b, w1)"
    and hb: "HandleBatchResults e (pResultHandler p) ctx b w1 = ((err, b'), w2)"
  shows "answers msgs (ctxdone w2 ctx) (mset (batch_all b))" "batch_wf b" "b' = expire_spec (pResultHandler p) b"
    "world_le w w2" "settles w w2 = []"
    "if err = None then accepted (new_events w w2) = results_plan (rhPublisher (pResultHandler p)) b'
     else strict_prefix (accepted (new_events w w2)) (results_plan (rhPublisher (pResultHandler p)) b')"
proof -
  note f = processBatch_facts [OF assms(1,2) pb]
  let ?pub = "PublishBatchResults e (rhPublisher (pResultHandler p)) ctx (expire_spec (pResultHandler p) b) w1"
  have p: "err = fst ?pub" "w2 = snd ?pub" and b': "b' = expire_spec (pResultHandler p) b"
    using hb HandleBatchResults_eq [OF assms(3)] by (auto simp: Let_def case_prod_beta)
  show "b' = expire_spec (pResultHandler p) b" by (rule b')
  have f2: "frame publisher_event w1 w2" unfolding p by (rule batch_results.pub_frame)
  have le: "world_le w w1" "world_le w1 w2" using f f2 by (auto intro: frame_world_le)
  then show "world_le w w2" by (rule world_le_trans)
  show "batch_wf b" using f by blast
  show "answers msgs (ctxdone w2 ctx) (mset (batch_all b))"
    using f world_le_ctxdone [OF le(2)] by (blast intro: answers_weaken)
  have s1: "settles w w1 = []" "accepted (new_events w w1) = []"
    using f proc_event_silent by (auto intro: frame_silent)
  have "settles w1 w2 = []" by (rule frame_silent(1) [OF f2 publisher_event_silent])
  then show "settles w w2 = []" using s1 new_events_trans [OF le] by (simp add: settles_def)
  have "accepted (new_events w w2) = accepted (new_events w1 w2)" using s1 new_events_trans [OF le] by simp
  then show "if err = None then accepted (new_events w w2) = results_plan (rhPublisher (pResultHandler p)) b'
     else strict_prefix (accepted (new_events w w2)) (results_plan (rhPublisher (pResultHandler p)) b')"
    using batch_results.pub_outcome [of e "rhPublisher (pResultHandler p)" ctx "expire_spec (pResultHandler p) b" w1]
    unfolding p b' by simp
qed

lemma results_plan_New [simp]: "results_plan p NewBatchResult = []"
  by (simp add: results_plan_def NewBatchResult_def plan_array_def)


text \<open>Samples.\<close>

definition sample_smpp_cfg :: smpp_cfg where
  "sample_smpp_cfg = \<lparr>cURL = ''http://kannel'', cSMSC = ''smsc'', cUsername = ''u'', cPassword = ''p'',
     cDLRURL = ''dlr'', cDLRURLApiV2 = ''dlr2''\<rparr>"

definition sample_factory :: factory where
  "sample_factory = fst (NewFactory
     \<lparr>fcSDP = sample_sdp, fcSafaricomSMPP = sample_smpp_cfg, fcAirtel = sample_smpp_cfg,
      fcAirtelPromo = sample_smpp_cfg, fcTelkom = sample_smpp_cfg, fcEquitel = sample_smpp_cfg,
      fcCM = sample_smpp_cfg, fcGatewayQueueName = ''GATEWAY'', fcBreakers = Map.empty, fcMetrics = True\<rparr> [])"

definition sample_processor :: processor where
  "sample_processor =
     \<lparr>pFactory = sample_factory, pGatewayQueue = ''GATEWAY'', pResultHandler = sample_handler,
      pLimiter = rl_New None, pMetrics = True, workerCount = 0, sdpBatchSize = 100, isRetry = False\<rparr>"

lemma sample_limits [simp]: "limits_ok (pResultHandler sample_processor)"
  by (simp add: sample_processor_def sample_handler_def limits_ok_static)


section \<open>No panics\<close>

definition limiter_ready :: "processor \<Rightarrow> bool" where
  "limiter_ready p = (if isRetry p then has_retry (pLimiter p) else limiter_wf (pLimiter p))"

lemma limiter_wf_main: "limiter_wf l \<Longrightarrow> getMainLimiter l n \<noteq> None"
  by (auto simp: limiter_wf_def getMainLimiter_def split: option.splits)

lemma bucket_crashed: "r \<noteq> None \<Longrightarrow> crashed (snd (bucket_WaitN e ctx b n r k w)) = crashed w"
  by (auto simp: bucket_WaitN_def Let_def)

lemma waitRate_crashed:
  assumes "limiter_ready p"
  shows "crashed (snd (waitRate e p ctx n w)) = crashed w" "crashed (snd (waitRateN e p ctx n k w)) = crashed w"
  using assms limiter_wf_main [of "pLimiter p" n] has_retry_getRetryLimiter [of "pLimiter p" n]
  by (auto simp: waitRate_def waitRateN_def rl_Wait_def rl_WaitRetry_def rl_WaitN_def rl_WaitRetryN_def
      limiter_ready_def intro!: bucket_crashed)

lemma processMessage_crashed:
  assumes "limiter_ready p"
  shows "crashed (snd (processMessage e p ctx msg w)) = crashed w"
proof -
  obtain r w1 where wr: "waitRate e p ctx (msg_Network msg) w = (r, w1)"
    by (cases "waitRate e p ctx (msg_Network msg) w")
  have c: "crashed w1 = crashed w" using waitRate_crashed(1) [OF assms, of e ctx "msg_Network msg" w] wr by simp
  have "crashed (snd (sender_Send e (pGatewayQueue p) s ctx msg w1)) = crashed w1" for s
    by (rule quiet_crashed [OF senders.send_quiet])
  then show ?thesis
    using c by (auto simp: processMessage_def wr Let_def case_prod_beta split: option.split sum.split)
qed

lemma processRegular_crashed:
  assumes "limiter_ready p"
  shows "crashed (snd (processRegular e p ctx msgs w)) = crashed w"
proof -
  have "crashed (pworld (pool_run (processor_pool e p ctx) (pick e (trace w)) (pool_init msgs n True w))) = crashed w" for n
    by (rule pool_run_world [where Q = "\<lambda>x. crashed x = crashed w"])
      (simp_all add: processor_pool_def processMessage_crashed [OF assms])
  then show ?thesis by (simp add: processRegular_def Let_def)
qed

lemma sendChunks_crashed:
  assumes "limiter_ready p"
  shows "crashed (snd (sendChunks e p d ctx cs b w)) = crashed w"
proof (induction cs arbitrary: b w)
  case (Cons c cs)
  obtain r w1 where wr: "waitRateN e p ctx NetworkSafaricom (int (length c)) w = (r, w1)"
    by (cases "waitRateN e p ctx NetworkSafaricom (int (length c)) w")
  have "crashed w1 = crashed w"
    using waitRate_crashed(2) [OF assms, of e ctx NetworkSafaricom "int (length c)" w] wr by simp
  then have "crashed (snd (sendChunk e p d ctx c w)) = crashed w"
    by (cases r) (simp_all add: sendChunk_def wr Let_def quiet_crashed [OF sdp.batch_quiet])
  then show ?case using Cons.IH by (simp add: case_prod_beta)
qed simp

lemma processBatch_crashed:
  assumes "limiter_ready p"
  shows "crashed (snd (processBatch e p ctx msgs w)) = crashed w"
proof -
  have "crashed (snd (sdpPhase e p ctx msgs w)) = crashed w"
    by (simp add: sdpPhase_def router_GetSenderByNetwork_def Let_def case_prod_beta processSdpBatch_def
        sendChunks_crashed [OF assms])
  then show ?thesis
    by (simp add: processBatch_def Let_def case_prod_beta processRegular_crashed [OF assms])
qed



end
