(* ===== verification/Transactional_Handler.thy ===== *)
theory Transactional_Handler
  imports Processor
begin

text \<open>
  \<^verbatim>\<open>internal/sms/service/transactional_handler.go\<close>: the fast path for transactional messages.
  \<^verbatim>\<open>ProcessBatch\<close> runs the pool of \<open>Worker_Pool\<close> on a channel filled beforehand; its workers use
  the handler's own context but never look at it, so they drain the channel. The asynchronous path
  (\<^verbatim>\<open>Handle\<close>, the workers, \<^verbatim>\<open>Stop\<close>) is a step relation. The atomic counters are 64-bit words
  that travel with the world. \<^verbatim>\<open>processMessage\<close> normalises the number in the message it was
  given, which no other goroutine holds.
\<close>

record tx_handler =
  hFactory :: factory
  hGatewayQueue :: string
  hResultHandler :: result_handler
  hLimiter :: limiter
  hMetrics :: bool
  hWorkerCount :: int

record tx_stats =
  txProcessed :: "64 word"
  txFailed :: "64 word"

definition NewTransactionalHandler :: "tx_handler \<Rightarrow> tx_handler" where
  "NewTransactionalHandler cfg =
     (if hWorkerCount cfg \<le> 0 then cfg\<lparr>hWorkerCount := 5\<rparr> else cfg)"

definition tx_processMessage ::
  "env \<Rightarrow> tx_handler \<Rightarrow> ctxid \<Rightarrow> message \<Rightarrow> world \<Rightarrow> send_result \<times> world" where
  "tx_processMessage e h ctx msg w =
     (let start = time_Now e w;
          network = msg_Network msg;
          msg = msg\<lparr>MSISDN := NormalizeMSISDN msg\<rparr> in
      case Validate msg of
        Some err \<Rightarrow> (NewPermanentResult (time_Now e w) msg err (time_Since e w start), w)
      | None \<Rightarrow>
     (case rl_Wait e (hLimiter h) ctx network w of
        (Some err, w) \<Rightarrow>
          (let w = metric e (hMetrics h) (IncRateLimitHits network) w
           in (NewRetryableResult (time_Now e w) msg ErrRateLimited (time_Since e w start), w))
      | (None, w) \<Rightarrow>
     (case router_GetSender (hFactory h) msg of
        Inl err \<Rightarrow> (NewPermanentResult (time_Now e w) msg err (time_Since e w start), w)
      | Inr sender \<Rightarrow>
          if \<not> sender_IsHealthy e sender w then
            (NewRetryableResult (time_Now e w) msg ErrCircuitOpen (time_Since e w start), w)
          else
            (let (result, w) = sender_Send e (hGatewayQueue h) sender ctx msg w
             in (result, metric e (hMetrics h) (ObserveSendLatency network (rLatency result)) w)))))"

definition HandleSync :: "env \<Rightarrow> tx_handler \<Rightarrow> ctxid \<Rightarrow> message \<Rightarrow> world \<Rightarrow> send_result \<times> world" where
  "HandleSync e h ctx msg w = tx_processMessage e h ctx msg w"

text \<open>Processing with the counters and their metrics, as both paths do.\<close>

definition countResult :: "env \<Rightarrow> tx_handler \<Rightarrow> send_result \<Rightarrow> tx_stats \<times> world \<Rightarrow> tx_stats \<times> world" where
  "countResult e h r sw =
     (let (st, w) = sw;
          st = st\<lparr>txProcessed := txProcessed st + 1\<rparr> in
      if rType r = ResultPermanent \<or> rType r = ResultRetryable then
        (st\<lparr>txFailed := txFailed st + 1\<rparr>, metric e (hMetrics h) (IncTransactionalProcessed ''failed'') w)
      else (st, metric e (hMetrics h) (IncTransactionalProcessed ''success'') w))"

definition processAndCount ::
  "env \<Rightarrow> tx_handler \<Rightarrow> message \<Rightarrow> tx_stats \<times> world \<Rightarrow> send_result \<times> (tx_stats \<times> world)" where
  "processAndCount e h msg sw =
     (let (st, w) = sw;
          (result, w) = tx_processMessage e h HandlerCtx msg w
      in (result, countResult e h result (st, w)))"

section \<open>Batches\<close>

definition tx_pool :: "env \<Rightarrow> tx_handler \<Rightarrow> (message, send_result, tx_stats \<times> world) pool_cfg" where
  "tx_pool e h =
     \<lparr>proc = processAndCount e h, ctxDone = (\<lambda>(st, w). ctxdone w HandlerCtx),
      cancelCtx = (\<lambda>(st, w). (st, cancelContext HandlerCtx w)), watchCtx = False\<rparr>"

text \<open>An error of \<^verbatim>\<open>HandleBatchResults\<close> is logged and dropped.\<close>

definition tx_ProcessBatch ::
  "env \<Rightarrow> tx_handler \<Rightarrow> ctxid \<Rightarrow> message list \<Rightarrow> tx_stats \<times> world \<Rightarrow> batch_result \<times> (tx_stats \<times> world)" where
  "tx_ProcessBatch e h ctx messages sw =
     (if length messages = 0 then (NewBatchResult, sw)
      else
        (let workers = (if hWorkerCount h > int (length messages) then int (length messages) else hWorkerCount h);
             s = pool_run (tx_pool e h) (pick e (trace (snd sw)))
                   (pool_prefilled messages (nat workers) True sw);
             result = AddResults NewBatchResult (collected s);
             (st, w) = pworld s;
             ((err, result), w) = HandleBatchResults e (hResultHandler h) ctx result w
         in (result, (st, w))))"

section \<open>The asynchronous path\<close>

record tx_work =
  twMsg :: message
  twTag :: nat
  twQueue :: string

definition processWork ::
  "env \<Rightarrow> tx_handler \<Rightarrow> nat \<Rightarrow> tx_work \<Rightarrow> tx_stats \<times> world \<Rightarrow> tx_stats \<times> world" where
  "processWork e h depth work sw =
     (let (st, w) = sw;
          w = metric e (hMetrics h) (SetTransactionalQueueDepth (int depth)) w;
          (result, w) = tx_processMessage e h HandlerCtx (twMsg work) w;
          (st, w) = countResult e h result (st, w);
          (_, w) = HandleBatchResults e (hResultHandler h) HandlerCtx (AddResult NewBatchResult result) w
      in (st, w))"

record tx_system =
  txChan :: "tx_work list"
  txClosed :: bool
  txRunning :: nat
  txStats :: tx_stats
  txWorld :: world

definition tx_start :: "tx_handler \<Rightarrow> world \<Rightarrow> tx_system" where
  "tx_start h w =
     \<lparr>txChan = [], txClosed = False, txRunning = nat (hWorkerCount h),
      txStats = \<lparr>txProcessed = 0, txFailed = 0\<rparr>, txWorld = w\<rparr>"

text \<open>\<^verbatim>\<open>Handle\<close>: the outcomes its \<^verbatim>\<open>select\<close> may choose from. A send on the closed channel panics;
  no outcome means that the caller blocks.\<close>

datatype handle_outcome = HQueued | HRefused goerr | HPanics

definition Handle_outcomes :: "tx_handler \<Rightarrow> ctxid \<Rightarrow> tx_system \<Rightarrow> handle_outcome list" where
  "Handle_outcomes h ctx x =
     (if txClosed x then [HPanics]
      else if int (length (txChan x)) < hWorkerCount h * 10 then [HQueued] else []) @
     (if ctxdone (txWorld x) ctx then [HRefused (ErrContext ''context canceled'')] else []) @
     (if ctxdone (txWorld x) HandlerCtx then [HRefused (ErrContext ''context canceled'')] else [])"

inductive tx_step :: "env \<Rightarrow> tx_handler \<Rightarrow> ctxid \<Rightarrow> tx_system \<Rightarrow> tx_system \<Rightarrow> bool"
  for e :: env and h :: tx_handler and ctx :: ctxid where
  handle: "HQueued \<in> set (Handle_outcomes h ctx x) \<Longrightarrow>
     tx_step e h ctx x (x\<lparr>txChan := txChan x @ [work]\<rparr>)"
| take: "\<lbrakk> 0 < txRunning x; txChan x = work # rest;
     processWork e h (length rest) work (txStats x, txWorld x) = (st', w') \<rbrakk> \<Longrightarrow>
     tx_step e h ctx x (x\<lparr>txChan := rest, txStats := st', txWorld := w'\<rparr>)"
| worker_done: "\<lbrakk> 0 < txRunning x; ctxdone (txWorld x) HandlerCtx \<or> txClosed x \<and> txChan x = [] \<rbrakk> \<Longrightarrow>
     tx_step e h ctx x (x\<lparr>txRunning := txRunning x - 1\<rparr>)"
| stop: "\<not> txClosed x \<Longrightarrow>
     tx_step e h ctx x (x\<lparr>txClosed := True, txWorld := cancelContext HandlerCtx (txWorld x)\<rparr>)"

section \<open>One message\<close>

text \<open>The relation between a message and its result: the contract of senders, on the message with
  its number normalised.\<close>

definition tx_contract :: "message \<Rightarrow> send_result \<Rightarrow> bool" where
  "tx_contract m r \<longleftrightarrow> send_contract (m\<lparr>MSISDN := NormalizeMSISDN m\<rparr>) r"

lemma tx_processMessage_contract:
  "tx_contract msg (fst (tx_processMessage e h ctx msg w))"
  "frame proc_event w (snd (tx_processMessage e h ctx msg w))"
proof -
  let ?m = "msg\<lparr>MSISDN := NormalizeMSISDN msg\<rparr>"
  obtain r w1 where wo: "rl_Wait e (hLimiter h) ctx (msg_Network msg) w = (r, w1)"
    by (cases "rl_Wait e (hLimiter h) ctx (msg_Network msg) w")
  have f1: "frame proc_event w w1" using rl_waits_frame(1) [of w e "hLimiter h" ctx "msg_Network msg"] wo by simp
  have f2: "frame proc_event w (snd (sender_Send e (hGatewayQueue h) s ctx ?m w1))" for s
    by (rule frame_trans [OF f1 quiet_frame [OF quiet_sender_proc [OF senders.send_quiet]]])
  note defs = tx_processMessage_def wo Let_def
  show "tx_contract msg (fst (tx_processMessage e h ctx msg w))"
    unfolding tx_contract_def
    by (auto simp: defs send_simps senders.send_result case_prod_beta split: option.split sum.split)
  show "frame proc_event w (snd (tx_processMessage e h ctx msg w))"
    using f1 f2 by (auto simp: defs case_prod_beta split: option.split sum.split)
qed

fun tx_event :: "event \<Rightarrow> bool" where
  "tx_event (EvMetric m) = True"
| "tx_event ev = proc_event ev"

lemma proc_tx_event: "proc_event ev \<Longrightarrow> tx_event ev"
  by (cases ev) auto

lemma tx_event_silent: "tx_event ev \<Longrightarrow> \<not> is_settle ev \<and> accepted1 ev = []"
  by (cases ev) auto

lemma countResult_eq:
  "countResult e h r (st, w) =
     (\<lparr>txProcessed = txProcessed st + 1, txFailed = txFailed st + (if IsSuccess r then 0 else 1)\<rparr>,
      metric e (hMetrics h) (IncTransactionalProcessed (if IsSuccess r then ''success'' else ''failed'')) w)"
  by (cases "rType r") (simp_all add: countResult_def IsSuccess_def)

lemma processAndCount_facts:
  "tx_contract m (fst (processAndCount e h m (st, w)))"
  "frame tx_event w (snd (snd (processAndCount e h m (st, w))))"
proof -
  let ?p = "tx_processMessage e h HandlerCtx m w"
  have f: "frame tx_event w (snd ?p)" by (rule frame_mono [OF tx_processMessage_contract(2) proc_tx_event])
  show "tx_contract m (fst (processAndCount e h m (st, w)))"
    by (simp add: processAndCount_def case_prod_beta tx_processMessage_contract)
  show "frame tx_event w (snd (snd (processAndCount e h m (st, w))))"
    using f by (simp add: processAndCount_def case_prod_beta countResult_eq)
qed

interpretation txpool: worker_pool "tx_pool e h" tx_contract for e h
proof unfold_locales
  fix m and sw :: "tx_stats \<times> world"
  obtain st w where sw: "sw = (st, w)" by (cases sw)
  show "tx_contract m (fst (proc (tx_pool e h) m sw))"
    by (simp add: tx_pool_def sw processAndCount_facts)
  show "ctxDone (tx_pool e h) (snd (proc (tx_pool e h) m sw))" if "ctxDone (tx_pool e h) sw"
    using that world_le_ctxdone [OF frame_world_le [OF processAndCount_facts(2)]]
    by (simp add: tx_pool_def sw case_prod_beta)
  show "ctxDone (tx_pool e h) (cancelCtx (tx_pool e h) sw)"
    by (simp add: tx_pool_def sw)
qed

section \<open>Batches\<close>

text \<open>What the workers leave behind once the results \<open>R\<close> are there.\<close>

definition tx_progress :: "tx_stats \<Rightarrow> world \<Rightarrow> send_result multiset \<Rightarrow> tx_stats \<times> world \<Rightarrow> bool" where
  "tx_progress st0 w0 R sw \<longleftrightarrow>
     txProcessed (fst sw) = txProcessed st0 + of_nat (size R) \<and>
     txFailed (fst sw) = txFailed st0 + of_nat (size (filter_mset (\<lambda>r. \<not> IsSuccess r) R)) \<and>
     frame tx_event w0 (snd sw)"

lemma tx_progress_proc:
  assumes "tx_progress st0 w0 R sw"
  shows "tx_progress st0 w0 (add_mset (fst (processAndCount e h m sw)) R) (snd (processAndCount e h m sw))"
proof -
  obtain st w where sw: "sw = (st, w)" by (cases sw)
  have "frame tx_event w0 (snd (snd (processAndCount e h m (st, w))))"
    using assms by (intro frame_trans [OF _ processAndCount_facts(2)]) (simp add: tx_progress_def sw)
  then show ?thesis
    using assms by (simp add: tx_progress_def sw processAndCount_def case_prod_beta countResult_eq)
qed

lemma tx_pool_progress:
  assumes "s = pool_run (tx_pool e h) pk (pool_prefilled msgs n True (st, w))"
  shows "tx_progress st w (mset (collected s)) (pworld s)"
proof (rule txpool.unwatched_world [OF _ assms])
  show "\<not> watchCtx (tx_pool e h)" by (simp add: tx_pool_def)
  show "tx_progress st w {#} (st, w)" by (simp add: tx_progress_def)
  show "tx_progress st w (add_mset (fst (proc (tx_pool e h) m v)) A) (snd (proc (tx_pool e h) m v))"
    if "tx_progress st w A v" for A v m
    using tx_progress_proc [OF that] by (simp add: tx_pool_def)
  show "tx_progress st w A (cancelCtx (tx_pool e h) v)" if "tx_progress st w A v" for A v
    using that frame_trans [OF _ frame_cancel, of tx_event w "snd v" HandlerCtx]
    by (simp add: tx_pool_def tx_progress_def case_prod_beta)
qed

lemma tx_ProcessBatch_facts:
  assumes "0 < hWorkerCount h" and "limits_ok (hResultHandler h)"
    and "tx_ProcessBatch e h ctx msgs (st, w) = (b', (st', w'))"
  shows "\<exists>b. rel_mset tx_contract (mset msgs) (mset (batch_all b)) \<and> batch_wf b \<and>
    b' = expire_spec (hResultHandler h) b \<and> world_le w w' \<and> settles w w' = [] \<and>
    txProcessed st' = txProcessed st + of_nat (length msgs) \<and>
    txFailed st' = txFailed st + of_nat (length (filter (\<lambda>r. \<not> IsSuccess r) (batch_all b))) \<and>
    prefix (accepted (new_events w w')) (results_plan (rhPublisher (hResultHandler h)) b')"
proof (cases "msgs = []")
  case True
  then show ?thesis
    using assms(3) by (intro exI [of _ NewBatchResult])
      (auto simp: tx_ProcessBatch_def rel_mset_Zero expire_spec_def NewBatchResult_def batch_wf_def batch_all_def settles_def)
next
  case False
  define n where "n = nat (if hWorkerCount h > int (length msgs) then int (length msgs) else hWorkerCount h)"
  let ?s = "pool_run (tx_pool e h) (pick e (trace w)) (pool_prefilled msgs n True (st, w))"
  define b where "b = AddResults NewBatchResult (collected ?s)"
  obtain st1 w1 where pw: "pworld ?s = (st1, w1)" by (cases "pworld ?s")
  let ?pub = "PublishBatchResults e (rhPublisher (hResultHandler h)) ctx (expire_spec (hResultHandler h) b) w1"
  have r: "b' = expire_spec (hResultHandler h) b" "st' = st1" "w' = snd ?pub"
    using assms(3) False pw
    by (auto simp: tx_ProcessBatch_def n_def [symmetric] b_def HandleBatchResults_eq [OF assms(2)] Let_def case_prod_beta)
  have mb: "mset (batch_all b) = mset (collected ?s)" by (simp add: b_def mset_AddResults batch_all_New)
  have rel: "rel_mset tx_contract (mset msgs) (mset (batch_all b))"
    unfolding mb using assms(1) False
    by (intro txpool.unwatched_results [OF _ _ refl]) (auto simp: tx_pool_def n_def)
  have sz: "size (mset (collected ?s)) = length msgs" using rel_mset_size [OF rel] mb by simp
  have pr: "tx_progress st w (mset (collected ?s)) (st1, w1)" using tx_pool_progress [OF refl] pw by metis
  then have f1: "frame tx_event w w1" by (simp add: tx_progress_def)
  have fl: "size (filter_mset P (mset (collected ?s))) = length (filter P (batch_all b))" for P
    by (metis mb mset_filter size_mset)
  have f2: "frame publisher_event w1 w'" unfolding r by (rule batch_results.pub_frame)
  have le: "world_le w w1" "world_le w1 w'" using f1 f2 by (auto intro: frame_world_le)
  have s1: "settles w w1 = []" "accepted (new_events w w1) = []"
    using f1 tx_event_silent by (auto intro: frame_silent)
  have "settles w1 w' = []" by (rule frame_silent(1) [OF f2 publisher_event_silent])
  then have "settles w w' = []" using s1 new_events_trans [OF le] by (simp add: settles_def)
  moreover have "prefix (accepted (new_events w w')) (results_plan (rhPublisher (hResultHandler h)) b')"
    using batch_results.pub_prefix [of w1 e "rhPublisher (hResultHandler h)" ctx "expire_spec (hResultHandler h) b"]
      s1 new_events_trans [OF le] r by simp
  ultimately show ?thesis
    using rel r pr sz fl world_le_trans [OF le] batch_wf_AddResults [of NewBatchResult "collected ?s"]
    by (intro exI [of _ b]) (auto simp: tx_progress_def b_def)
qed

text \<open>C13. A transactional batch is answered completely: whatever the scheduler and the operators do,
  and also when the handler is being stopped, \<^verbatim>\<open>ProcessBatch\<close> returns a batch with exactly one
  result per message (each for the message with its number normalised), exhausted retries turned into
  failures; the counters grow by the number of messages and of failures (modulo \<open>2 ^ 64\<close>), the
  published bodies are a prefix of the publication plan of that batch, and no delivery is settled.\<close>

theorem tx_ProcessBatch_answers_all:
  assumes "limits_ok (hResultHandler cfg)"
  shows "let (b', st', w') = tx_ProcessBatch e (NewTransactionalHandler cfg) ctx msgs (st, w) in
     \<exists>b. rel_mset tx_contract (mset msgs) (mset (batch_all b)) \<and> batch_wf b \<and>
       b' = expire_spec (hResultHandler cfg) b \<and>
       txProcessed st' = txProcessed st + of_nat (length msgs) \<and>
       txFailed st' = txFailed st + of_nat (length (filter (\<lambda>r. \<not> IsSuccess r) (batch_all b))) \<and>
       prefix (accepted (new_events w w')) (results_plan (rhPublisher (hResultHandler cfg)) b') \<and>
       settles w w' = []"
proof -
  let ?h = "NewTransactionalHandler cfg"
  obtain b' st' w' where r: "tx_ProcessBatch e ?h ctx msgs (st, w) = (b', st', w')"
    by (cases "tx_ProcessBatch e ?h ctx msgs (st, w)") auto
  have h: "0 < hWorkerCount ?h" "hResultHandler ?h = hResultHandler cfg"
    by (simp_all add: NewTransactionalHandler_def)
  from tx_ProcessBatch_facts [OF h(1) _ r] assms show ?thesis by (auto simp: h(2) r)
qed

definition sample_tx_handler :: tx_handler where
  "sample_tx_handler = \<lparr>hFactory = sample_factory, hGatewayQueue = ''GATEWAY'', hResultHandler = sample_handler,
     hLimiter = rl_New None, hMetrics = True, hWorkerCount = 2\<rparr>"

theorem tx_ProcessBatch_answers_all_witness:
  "let (b', st', w') = tx_ProcessBatch base_env (NewTransactionalHandler sample_tx_handler) AppCtx
       [sample_message, sample_message] (\<lparr>txProcessed = 0, txFailed = 0\<rparr>, init_world) in
     txProcessed st' = 2 \<and> settles init_world w' = []"
proof -
  have l: "limits_ok (hResultHandler sample_tx_handler)"
    by (simp add: sample_tx_handler_def sample_handler_def limits_ok_static)
  show ?thesis
    using tx_ProcessBatch_answers_all [OF l, where e = base_env and ctx = AppCtx and w = init_world and
        msgs = "[sample_message, sample_message]" and st = "\<lparr>txProcessed = 0, txFailed = 0\<rparr>"]
    by (auto simp: case_prod_beta)
qed

section \<open>The asynchronous path\<close>

text \<open>Between the channel, the workers and the context.\<close>

definition tx_inv :: "tx_handler \<Rightarrow> tx_system \<Rightarrow> bool" where
  "tx_inv h x \<longleftrightarrow>
     int (length (txChan x)) \<le> hWorkerCount h * 10 \<and> int (txRunning x) \<le> hWorkerCount h \<and>
     (txClosed x \<longrightarrow> ctxdone (txWorld x) HandlerCtx)"

lemma world_le_processWork: "world_le w (snd (processWork e h n work (st, w)))"
proof -
  let ?w1 = "metric e (hMetrics h) (SetTransactionalQueueDepth (int n)) w"
  let ?p = "tx_processMessage e h HandlerCtx (twMsg work) ?w1"
  let ?w2 = "snd (countResult e h (fst ?p) (st, snd ?p))"
  have "world_le ?w1 (snd ?p)" by (rule frame_world_le [OF tx_processMessage_contract(2)])
  then have "world_le ?w1 ?w2" by (simp add: countResult_eq)
  then have "world_le w ?w2" by (rule world_le_trans [OF world_le_metric])
  moreover have "world_le ?w2 (snd (HandleBatchResults e h' c b ?w2))" for h' c b
    by (auto simp: HandleBatchResults_def case_prod_beta batch_results.pub_le split: option.split)
  ultimately have "world_le w (snd (HandleBatchResults e h' c b ?w2))" for h' c b
    using world_le_trans by blast
  then show ?thesis by (simp add: processWork_def case_prod_beta Let_def)
qed

lemma tx_inv_step: "tx_step e h ctx x x' \<Longrightarrow> tx_inv h x \<Longrightarrow> tx_inv h x'"
proof (induction rule: tx_step.induct)
  case (take x work rest st' w')
  have "ctxdone w' HandlerCtx" if "ctxdone (txWorld x) HandlerCtx"
    using that world_le_ctxdone [OF world_le_processWork [of "txWorld x" e h "length rest" work "txStats x"]] take(3) by simp
  with take show ?case by (auto simp: tx_inv_def)
qed (auto simp: tx_inv_def Handle_outcomes_def split: if_splits)

text \<open>The asynchronous path stays within its bounds: in every state reachable from the start the
  channel holds at most ten messages per worker, no more workers run than were started, and a stopped
  handler has its context done. \<^verbatim>\<open>Handle\<close> can panic exactly when the handler was stopped: its
  \<^verbatim>\<open>select\<close> may then pick the send on the closed channel.\<close>

theorem tx_system_bounds:
  assumes "(tx_step e (NewTransactionalHandler cfg) ctx)\<^sup>*\<^sup>* (tx_start (NewTransactionalHandler cfg) w) x"
  shows "tx_inv (NewTransactionalHandler cfg) x \<and>
    (HPanics \<in> set (Handle_outcomes (NewTransactionalHandler cfg) ctx' x) \<longleftrightarrow> txClosed x)"
proof -
  have "tx_inv (NewTransactionalHandler cfg) x"
    using assms
  proof (induction rule: rtranclp_induct)
    case base
    then show ?case by (simp add: tx_inv_def tx_start_def NewTransactionalHandler_def)
  qed (rule tx_inv_step)
  then show ?thesis by (auto simp: Handle_outcomes_def)
qed

theorem tx_system_bounds_witness:
  "HPanics \<in> set (Handle_outcomes (NewTransactionalHandler sample_tx_handler) AppCtx
     ((tx_start (NewTransactionalHandler sample_tx_handler) init_world)
        \<lparr>txClosed := True, txWorld := cancelContext HandlerCtx init_world\<rparr>))"
proof -
  let ?h = "NewTransactionalHandler sample_tx_handler"
  have "(tx_step base_env ?h AppCtx)\<^sup>*\<^sup>* (tx_start ?h init_world)
      ((tx_start ?h init_world)\<lparr>txClosed := True, txWorld := cancelContext HandlerCtx (txWorld (tx_start ?h init_world))\<rparr>)"
    by (rule r_into_rtranclp, rule tx_step.stop) (simp add: tx_start_def)
  from tx_system_bounds [OF this, of AppCtx] show ?thesis by (simp add: tx_start_def)
qed

end
