(* ===== verification/Priority_Scheduler.thy ===== *)
theory Priority_Scheduler
  imports Processor
begin

text \<open>
  \<^verbatim>\<open>internal/sms/service/priority_scheduler.go\<close>: credit-based weighted round robin. A credit
  channel is an object that goroutines hold references to, and a resize replaces it, so channels
  live in a store: an address with capacity and number of credits. Queue states are kept by name,
  with the list of names as the (arbitrary) order in which the code iterates over its map; a queue
  state always has a channel, so the nil checks of the code have no counterpart. Counters are 64-bit
  words.

  The operations are functions on the state; \<open>sched_step\<close> is the concurrent system: callers of
  \<^verbatim>\<open>ProcessMessages\<close>, the refill loop and the watchers. A call of the processor is one step.
\<close>

record credit_chan =
  ccap :: nat
  clen :: nat

record queue_state =
  qsWeight :: int
  qsCredits :: nat
  qsLastProcessed :: int

record scheduler =
  queueNames :: "string list"
  queues :: "string \<rightharpoonup> queue_state"
  weights :: "string \<rightharpoonup> int"
  defaultWeight :: int
  creditMultiplier :: int
  refillPeriod :: int
  maxStarvationAge :: int
  refillPeriodCh :: "int list"
  tickerPeriod :: int
  chans :: "nat \<Rightarrow> credit_chan"
  nextChan :: nat
  processedByQueue :: "string \<rightharpoonup> 64 word"
  totalProcessed :: "64 word"
  creditsGranted :: "64 word"
  starvationEvents :: "64 word"
  schedMetrics :: bool

definition NewPriorityScheduler :: "int \<Rightarrow> int \<Rightarrow> int \<Rightarrow> int \<Rightarrow> bool \<Rightarrow> scheduler" where
  "NewPriorityScheduler dw multiplier rp sa m =
     (let dw = (if dw \<le> 0 then 1 else dw);
          multiplier = (if multiplier \<le> 0 then 10 else multiplier);
          rp = (if rp \<le> 0 then 100 * 10 ^ 6 else rp);
          sa = (if sa \<le> 0 then 10 * 10 ^ 9 else sa)
      in \<lparr>queueNames = [], queues = Map.empty, weights = Map.empty, defaultWeight = dw,
          creditMultiplier = multiplier, refillPeriod = rp, maxStarvationAge = sa, refillPeriodCh = [],
          tickerPeriod = rp, chans = (\<lambda>_. \<lparr>ccap = 0, clen = 0\<rparr>), nextChan = 0,
          processedByQueue = Map.empty, totalProcessed = 0, creditsGranted = 0, starvationEvents = 0,
          schedMetrics = m\<rparr>)"

section \<open>Credit channels\<close>

definition capacity :: "scheduler \<Rightarrow> int \<Rightarrow> nat" where
  "capacity s weight =
     (let c = wrap64 (weight * creditMultiplier s) in nat (if c \<le> 0 then creditMultiplier s else c))"

text \<open>The transfer loop of \<^verbatim>\<open>resizeCreditChannel\<close>: (transferred, credits left in the old
  channel).\<close>

fun transferCredits :: "nat \<Rightarrow> nat \<Rightarrow> nat \<Rightarrow> nat \<times> nat" where
  "transferCredits newCapacity transferred 0 = (transferred, 0)"
| "transferCredits newCapacity transferred (Suc old) =
     (if transferred < newCapacity then transferCredits newCapacity (Suc transferred) old
      else (transferred, Suc old))"

definition resizeCreditChannel :: "string \<Rightarrow> int \<Rightarrow> scheduler \<Rightarrow> scheduler" where
  "resizeCreditChannel name newWeight s =
     (let qs = the (queues s name);
          old = qsCredits qs;
          newCapacity = capacity s newWeight;
          (moved, left) = transferCredits newCapacity 0 (clen (chans s old));
          new = nextChan s
      in s\<lparr>chans := (chans s)(old := (chans s old)\<lparr>clen := left\<rparr>,
                              new := \<lparr>ccap = newCapacity, clen = moved\<rparr>),
           nextChan := Suc new,
           queues := (queues s)(name \<mapsto> qs\<lparr>qsCredits := new\<rparr>)\<rparr>)"

text \<open>The loop of \<^verbatim>\<open>refillQueueCredits\<close>: (added, credits). Its \<^verbatim>\<open>break\<close> leaves only the
  \<^verbatim>\<open>select\<close>, so all rounds run.\<close>

fun refillLoop :: "nat \<Rightarrow> nat \<Rightarrow> nat \<Rightarrow> nat \<Rightarrow> nat \<times> nat" where
  "refillLoop cap 0 added len = (added, len)"
| "refillLoop cap (Suc i) added len =
     (if len < cap then refillLoop cap i (Suc added) (Suc len) else refillLoop cap i added len)"

definition creditsToAdd :: "scheduler \<Rightarrow> queue_state \<Rightarrow> nat" where
  "creditsToAdd s qs = nat (if qsWeight qs \<le> 0 then defaultWeight s else qsWeight qs)"

definition refillQueueCredits :: "string \<Rightarrow> scheduler \<Rightarrow> scheduler" where
  "refillQueueCredits name s =
     (let qs = the (queues s name);
          c = chans s (qsCredits qs);
          (added, len) = refillLoop (ccap c) (creditsToAdd s qs) 0 (clen c)
      in s\<lparr>chans := (chans s)(qsCredits qs := c\<lparr>clen := len\<rparr>),
           creditsGranted := creditsGranted s + (if added > 0 then of_nat added else 0)\<rparr>)"

definition refillAllCredits :: "scheduler \<Rightarrow> scheduler" where
  "refillAllCredits s = foldl (\<lambda>s name. refillQueueCredits name s) s (queueNames s)"

section \<open>Weights and tuning\<close>

definition updateWeight :: "env \<Rightarrow> (string \<rightharpoonup> int) \<Rightarrow> scheduler \<times> world \<Rightarrow> string \<Rightarrow> scheduler \<times> world" where
  "updateWeight e ws sw name =
     (let (s, w) = sw;
          newWeight = (case ws name of Some x \<Rightarrow> x | None \<Rightarrow> defaultWeight s);
          qs = the (queues s name);
          s = (if qsWeight qs \<noteq> newWeight then
                 resizeCreditChannel name newWeight
                   (s\<lparr>queues := (queues s)(name \<mapsto> qs\<lparr>qsWeight := newWeight\<rparr>)\<rparr>)
               else s)
      in (s, metric e (schedMetrics s) (SetSchedulerWeight name newWeight) w))"

definition updateWeights :: "env \<Rightarrow> (string \<rightharpoonup> int) \<Rightarrow> scheduler \<Rightarrow> world \<Rightarrow> scheduler \<times> world" where
  "updateWeights e ws s w = foldl (updateWeight e ws) (s\<lparr>weights := ws\<rparr>, w) (queueNames s)"

definition SetWeight :: "string \<Rightarrow> int \<Rightarrow> scheduler \<Rightarrow> scheduler" where
  "SetWeight name weight s =
     (let s = s\<lparr>weights := (weights s)(name \<mapsto> weight)\<rparr> in
      case queues s name of
        None \<Rightarrow> s
      | Some qs \<Rightarrow>
          (let s = s\<lparr>queues := (queues s)(name \<mapsto> qs\<lparr>qsWeight := weight\<rparr>)\<rparr> in
           if qsWeight qs \<noteq> weight then resizeCreditChannel name weight s else s))"

definition SetCreditMultiplier :: "int \<Rightarrow> scheduler \<Rightarrow> scheduler" where
  "SetCreditMultiplier m s = (if m > 0 then s\<lparr>creditMultiplier := m\<rparr> else s)"

definition SetRefillPeriod :: "int \<Rightarrow> scheduler \<Rightarrow> scheduler" where
  "SetRefillPeriod p s = (if p > 0 then s\<lparr>refillPeriod := p\<rparr> else s)"

definition SetMaxStarvationAge :: "int \<Rightarrow> scheduler \<Rightarrow> scheduler" where
  "SetMaxStarvationAge a s = (if a > 0 then s\<lparr>maxStarvationAge := a\<rparr> else s)"

text \<open>One notification in \<^verbatim>\<open>watchSchedulerConfig\<close>. The three values are read from the live
  configuration with the current values as defaults; \<open>None\<close> is the panic of a malformed value.\<close>

definition applySchedulerConfig :: "dyn_config \<Rightarrow> scheduler \<Rightarrow> scheduler option" where
  "applySchedulerConfig dc s =
     (case (dyn_value dc NSSchedulerPromotional ''credit_multiplier'' (creditMultiplier s),
            dyn_value dc NSSchedulerPromotional ''refill_period_ms'' (refillPeriod s div 10 ^ 6),
            dyn_value dc NSSchedulerPromotional ''max_starvation_age_sec'' (maxStarvationAge s div 10 ^ 9)) of
        (Some newMultiplier, Some newPeriodMs, Some newStarvationSec) \<Rightarrow>
          (let periodChanged = (newPeriodMs \<noteq> refillPeriod s div 10 ^ 6);
               s = (if newMultiplier > 0 then s\<lparr>creditMultiplier := newMultiplier\<rparr> else s);
               newPeriod = wrap64 (newPeriodMs * 10 ^ 6);
               s = (if newPeriod > 0 then s\<lparr>refillPeriod := newPeriod\<rparr> else s);
               newAge = wrap64 (newStarvationSec * 10 ^ 9);
               s = (if newAge > 0 then s\<lparr>maxStarvationAge := newAge\<rparr> else s)
           in Some (if periodChanged \<and> newPeriod > 0 \<and> refillPeriodCh s = []
                    then s\<lparr>refillPeriodCh := [newPeriod]\<rparr> else s))
      | _ \<Rightarrow> None)"

section \<open>Processing\<close>

definition getOrCreateQueueState :: "env \<Rightarrow> string \<Rightarrow> scheduler \<Rightarrow> world \<Rightarrow> scheduler \<times> world" where
  "getOrCreateQueueState e queueName s w =
     (case queues s queueName of
        Some qs \<Rightarrow> (s, w)
      | None \<Rightarrow>
          (let weight = (case weights s queueName of Some x \<Rightarrow> x | None \<Rightarrow> defaultWeight s);
               cap = capacity s weight;
               c = nextChan s
           in (s\<lparr>queueNames := queueNames s @ [queueName],
                 queues := (queues s)(queueName \<mapsto>
                   \<lparr>qsWeight = weight, qsCredits = c, qsLastProcessed = time_Now e w\<rparr>),
                 chans := (chans s)(c := \<lparr>ccap = cap, clen = cap\<rparr>),
                 nextChan := Suc c,
                 processedByQueue := (processedByQueue s)(queueName \<mapsto> 0)\<rparr>,
               metric e (schedMetrics s) (SetSchedulerWeight queueName weight) w)))"

text \<open>\<^verbatim>\<open>acquireCredit\<close> up to its blocking \<^verbatim>\<open>select\<close>: granted, refused with the context's error,
  or blocked on a channel. \<open>preferDone\<close> is the choice of the first \<^verbatim>\<open>select\<close> when both a credit
  and cancellation are ready.\<close>

datatype acquire = Granted | Refused goerr | Blocked nat

definition acquireCredit ::
  "env \<Rightarrow> ctxid \<Rightarrow> bool \<Rightarrow> string \<Rightarrow> scheduler \<Rightarrow> world \<Rightarrow> acquire \<times> scheduler \<times> world" where
  "acquireCredit e ctx preferDone queueName s w =
     (let qs = the (queues s queueName);
          c = qsCredits qs;
          credit = (clen (chans s c) > 0);
          done' = ctxdone w ctx in
      if time_Since e w (qsLastProcessed qs) > maxStarvationAge s then
        (Granted, s\<lparr>starvationEvents := starvationEvents s + 1\<rparr>,
         metric e (schedMetrics s) (IncStarvationTriggers queueName) w)
      else if credit \<and> \<not> (done' \<and> preferDone) then
        (Granted, s\<lparr>chans := (chans s)(c := (chans s c)\<lparr>clen := clen (chans s c) - 1\<rparr>)\<rparr>, w)
      else if done' then (Refused (ErrContext ''context canceled''), s, w)
      else (Blocked c, s, w))"

text \<open>What \<^verbatim>\<open>ProcessMessages\<close> does once it has a credit.\<close>

fun schedMetric :: "env \<Rightarrow> bool \<Rightarrow> string \<Rightarrow> nat \<Rightarrow> world \<Rightarrow> world" where
  "schedMetric e b q 0 w = w"
| "schedMetric e b q (Suc n) w = schedMetric e b q n (metric e b (IncSchedulerProcessed q) w)"

definition processGranted ::
  "env \<Rightarrow> processor \<Rightarrow> ctxid \<Rightarrow> string \<Rightarrow> message list \<Rightarrow> scheduler \<Rightarrow> world \<Rightarrow>
   (batch_result \<times> goerr option) \<times> scheduler \<times> world" where
  "processGranted e p ctx queueName messages s w =
     (let ((result, err), w) = ProcessMessages e p ctx messages w;
          n = of_nat (length messages);
          qs = the (queues s queueName);
          s = s\<lparr>processedByQueue := (case processedByQueue s queueName of
                   None \<Rightarrow> processedByQueue s
                 | Some c \<Rightarrow> (processedByQueue s)(queueName \<mapsto> c + n)),
                totalProcessed := totalProcessed s + n,
                queues := (queues s)(queueName \<mapsto> qs\<lparr>qsLastProcessed := time_Now e w\<rparr>)\<rparr>
      in ((result, err), s, schedMetric e (schedMetrics s) queueName (length messages) w))"

section \<open>The concurrent system\<close>

datatype client_pc = Arriving | WaitCredit nat | Finished "batch_result \<times> goerr option"

record client =
  cliQueue :: string
  cliMsgs :: "message list"
  cliPc :: client_pc

record sched_system =
  sched :: scheduler
  clients :: "client list"
  schedWorld :: world

inductive sched_step :: "env \<Rightarrow> processor \<Rightarrow> ctxid \<Rightarrow> sched_system \<Rightarrow> sched_system \<Rightarrow> bool"
  for e :: env and p :: processor and ctx :: ctxid where
  empty: "\<lbrakk> i < length (clients x); cliPc (clients x ! i) = Arriving; cliMsgs (clients x ! i) = [] \<rbrakk> \<Longrightarrow>
     sched_step e p ctx x
       (x\<lparr>clients := (clients x)[i := (clients x ! i)\<lparr>cliPc := Finished (NewBatchResult, None)\<rparr>]\<rparr>)"
| arrive: "\<lbrakk> i < length (clients x); cliPc (clients x ! i) = Arriving; cliMsgs (clients x ! i) \<noteq> [];
     getOrCreateQueueState e (cliQueue (clients x ! i)) (sched x) (schedWorld x) = (s1, w1);
     acquireCredit e ctx preferDone (cliQueue (clients x ! i)) s1 w1 = (Granted, s2, w2);
     processGranted e p ctx (cliQueue (clients x ! i)) (cliMsgs (clients x ! i)) s2 w2 = (r, s3, w3) \<rbrakk> \<Longrightarrow>
     sched_step e p ctx x
       (x\<lparr>sched := s3, schedWorld := w3, clients := (clients x)[i := (clients x ! i)\<lparr>cliPc := Finished r\<rparr>]\<rparr>)"
| refuse: "\<lbrakk> i < length (clients x); cliPc (clients x ! i) = Arriving; cliMsgs (clients x ! i) \<noteq> [];
     getOrCreateQueueState e (cliQueue (clients x ! i)) (sched x) (schedWorld x) = (s1, w1);
     acquireCredit e ctx preferDone (cliQueue (clients x ! i)) s1 w1 = (Refused err, s2, w2) \<rbrakk> \<Longrightarrow>
     sched_step e p ctx x
       (x\<lparr>sched := s2, schedWorld := w2,
          clients := (clients x)[i := (clients x ! i)\<lparr>cliPc := Finished (NewBatchResult, Some err)\<rparr>]\<rparr>)"
| block: "\<lbrakk> i < length (clients x); cliPc (clients x ! i) = Arriving; cliMsgs (clients x ! i) \<noteq> [];
     getOrCreateQueueState e (cliQueue (clients x ! i)) (sched x) (schedWorld x) = (s1, w1);
     acquireCredit e ctx preferDone (cliQueue (clients x ! i)) s1 w1 = (Blocked c, s2, w2) \<rbrakk> \<Longrightarrow>
     sched_step e p ctx x
       (x\<lparr>sched := s2, schedWorld := w2,
          clients := (clients x)[i := (clients x ! i)\<lparr>cliPc := WaitCredit c\<rparr>]\<rparr>)"
| wake: "\<lbrakk> i < length (clients x); cliPc (clients x ! i) = WaitCredit c; clen (chans (sched x) c) > 0;
     processGranted e p ctx (cliQueue (clients x ! i)) (cliMsgs (clients x ! i))
       ((sched x)\<lparr>chans := (chans (sched x))(c := (chans (sched x) c)\<lparr>clen := clen (chans (sched x) c) - 1\<rparr>)\<rparr>)
       (schedWorld x) = (r, s', w') \<rbrakk> \<Longrightarrow>
     sched_step e p ctx x
       (x\<lparr>sched := s', schedWorld := w', clients := (clients x)[i := (clients x ! i)\<lparr>cliPc := Finished r\<rparr>]\<rparr>)"
| give_up: "\<lbrakk> i < length (clients x); cliPc (clients x ! i) = WaitCredit c; ctxdone (schedWorld x) ctx \<rbrakk> \<Longrightarrow>
     sched_step e p ctx x
       (x\<lparr>clients := (clients x)[i := (clients x ! i)\<lparr>cliPc :=
            Finished (NewBatchResult, Some (ErrContext ''context canceled''))\<rparr>]\<rparr>)"
| submit: "sched_step e p ctx x
       (x\<lparr>clients := clients x @ [\<lparr>cliQueue = q, cliMsgs = ms, cliPc = Arriving\<rparr>]\<rparr>)"
| tick: "sched_step e p ctx x (x\<lparr>sched := refillAllCredits (sched x)\<rparr>)"
| new_period: "refillPeriodCh (sched x) = pd # pds \<Longrightarrow>
     sched_step e p ctx x (x\<lparr>sched := (sched x)\<lparr>refillPeriodCh := pds, tickerPeriod := pd\<rparr>\<rparr>)"
| reweigh: "updateWeights e ws (sched x) (schedWorld x) = (s', w') \<Longrightarrow>
     sched_step e p ctx x (x\<lparr>sched := s', schedWorld := w'\<rparr>)"
| tune: "applySchedulerConfig dc (sched x) = Some s' \<Longrightarrow>
     sched_step e p ctx x (x\<lparr>sched := s'\<rparr>)"
| cancel: "sched_step e p ctx x (x\<lparr>schedWorld := cancelContext ctx (schedWorld x)\<rparr>)"

section \<open>Arithmetic of credits\<close>

lemma transferCredits_eq:
  "transferCredits cap t old = (t + min (cap - t) old, old - min (cap - t) old)"
  by (induction old arbitrary: t) auto

lemma refillLoop_eq:
  "refillLoop cap n added len = (added + min n (cap - len), len + min n (cap - len))"
  by (induction n arbitrary: added len) auto

lemma resizeCreditChannel_eq:
  "resizeCreditChannel name v s =
     (let qs = the (queues s name); old = qsCredits qs; cap = capacity s v;
          moved = min cap (clen (chans s old))
      in s\<lparr>chans := (chans s)(old := (chans s old)\<lparr>clen := clen (chans s old) - moved\<rparr>,
                              nextChan s := \<lparr>ccap = cap, clen = moved\<rparr>),
           nextChan := Suc (nextChan s),
           queues := (queues s)(name \<mapsto> qs\<lparr>qsCredits := nextChan s\<rparr>)\<rparr>)"
  by (simp add: resizeCreditChannel_def transferCredits_eq Let_def)

lemma refillQueueCredits_eq:
  "refillQueueCredits name s =
     (let qs = the (queues s name); c = chans s (qsCredits qs);
          added = min (creditsToAdd s qs) (ccap c - clen c)
      in s\<lparr>chans := (chans s)(qsCredits qs := c\<lparr>clen := clen c + added\<rparr>),
           creditsGranted := creditsGranted s + of_nat added\<rparr>)"
  by (simp add: refillQueueCredits_def refillLoop_eq Let_def)

section \<open>Well-formed schedulers\<close>

definition current :: "scheduler \<Rightarrow> nat set" where
  "current s = qsCredits ` ran (queues s)"

text \<open>Names and states agree; every queue has a channel of its own, allocated and with room for at
  least one credit; no channel ever holds more credits than its capacity; the tuning is positive.\<close>

definition sched_wf :: "scheduler \<Rightarrow> bool" where
  "sched_wf s \<longleftrightarrow>
     distinct (queueNames s) \<and> set (queueNames s) = dom (queues s) \<and>
     (\<forall>n qs. queues s n = Some qs \<longrightarrow> qsCredits qs < nextChan s \<and> 0 < ccap (chans s (qsCredits qs))) \<and>
     (\<forall>n n' qs qs'. queues s n = Some qs \<longrightarrow> queues s n' = Some qs' \<longrightarrow> qsCredits qs = qsCredits qs' \<longrightarrow> n = n') \<and>
     (\<forall>c. clen (chans s c) \<le> ccap (chans s c)) \<and>
     0 < creditMultiplier s \<and> 0 < defaultWeight s \<and> 0 < refillPeriod s \<and> 0 < maxStarvationAge s"

lemma sched_wfD:
  assumes "sched_wf s"
  shows "queues s n = Some qs \<Longrightarrow> qsCredits qs < nextChan s"
    and "queues s n = Some qs \<Longrightarrow> 0 < ccap (chans s (qsCredits qs))"
    and "\<lbrakk> queues s n = Some qs; queues s n' = Some qs'; qsCredits qs = qsCredits qs' \<rbrakk> \<Longrightarrow> n = n'"
    and "clen (chans s c) \<le> ccap (chans s c)"
    and "set (queueNames s) = dom (queues s)" and "distinct (queueNames s)"
    and "0 < defaultWeight s"
  using assms unfolding sched_wf_def by blast+

lemma capacity_pos: "0 < creditMultiplier s \<Longrightarrow> 0 < capacity s v"
  by (simp add: capacity_def Let_def)

lemma sched_wf_New [simp]: "sched_wf (NewPriorityScheduler dw m rp sa b)"
  by (simp add: sched_wf_def NewPriorityScheduler_def Let_def)

lemma sched_wf_resize:
  assumes "sched_wf s" and "queues s name = Some qs"
  shows "sched_wf (resizeCreditChannel name v s)"
proof -
  have fresh: "qsCredits q \<noteq> nextChan s" "nextChan s \<noteq> qsCredits q" if "queues s n = Some q" for n q
    using sched_wfD(1) [OF assms(1) that] by simp_all
  have "nextChan s \<noteq> qsCredits qs" using fresh assms(2) by blast
  then show ?thesis
    using assms capacity_pos [of s v] fresh unfolding sched_wf_def resizeCreditChannel_eq Let_def
    by (auto simp: dom_def less_Suc_eq dest: fresh intro: le_trans [OF diff_le_self])
qed

lemma sched_wf_reweigh_queue:
  "\<lbrakk> sched_wf s; queues s name = Some qs \<rbrakk> \<Longrightarrow>
   sched_wf (s\<lparr>queues := (queues s)(name \<mapsto> qs\<lparr>qsWeight := v\<rparr>)\<rparr>)"
  by (auto simp: sched_wf_def dom_def split: if_splits)

lemma sched_wf_refill:
  assumes "sched_wf s" and "queues s name = Some qs"
  shows "sched_wf (refillQueueCredits name s)"
proof -
  have "clen (chans s (qsCredits qs)) + min k (ccap (chans s (qsCredits qs)) - clen (chans s (qsCredits qs)))
      \<le> ccap (chans s (qsCredits qs))" for k
    using sched_wfD(4) [OF assms(1), of "qsCredits qs"] by linarith
  then show ?thesis
    using assms by (auto simp: sched_wf_def refillQueueCredits_eq Let_def)
qed

lemma refill_queues [simp]:
  "queues (refillQueueCredits name s) = queues s" "queueNames (refillQueueCredits name s) = queueNames s"
  "defaultWeight (refillQueueCredits name s) = defaultWeight s" "nextChan (refillQueueCredits name s) = nextChan s"
  by (simp_all add: refillQueueCredits_eq Let_def)

lemma sched_wf_refillAll: "sched_wf s \<Longrightarrow> sched_wf (refillAllCredits s)"
proof -
  have "\<lbrakk> sched_wf t; set ns \<subseteq> dom (queues t) \<rbrakk> \<Longrightarrow> sched_wf (foldl (\<lambda>s name. refillQueueCredits name s) t ns)" for ns t
  proof (induction ns arbitrary: t)
    case (Cons n ns)
    then obtain qs where "queues t n = Some qs" by auto
    with Cons show ?case by (simp add: sched_wf_refill)
  qed simp
  then show "sched_wf s \<Longrightarrow> sched_wf (refillAllCredits s)"
    using sched_wfD(5) [of s] by (simp add: refillAllCredits_def)
qed

lemma updateWeight_facts:
  assumes "sched_wf s" and "name \<in> dom (queues s)" and "updateWeight e ws (s, w) name = (s', w')"
  shows "sched_wf s'" and "dom (queues s') = dom (queues s)" and "queueNames s' = queueNames s"
proof -
  from assms(2) obtain qs where qs: "queues s name = Some qs" by blast
  let ?v = "case ws name of Some x \<Rightarrow> x | None \<Rightarrow> defaultWeight s"
  let ?t = "s\<lparr>queues := (queues s)(name \<mapsto> qs\<lparr>qsWeight := ?v\<rparr>)\<rparr>"
  have s': "s' = (if qsWeight qs \<noteq> ?v then resizeCreditChannel name ?v ?t else s)"
    using assms(3) qs by (auto simp: updateWeight_def Let_def)
  have "sched_wf (resizeCreditChannel name ?v ?t)"
    by (rule sched_wf_resize [OF sched_wf_reweigh_queue [OF assms(1) qs]]) simp
  then show "sched_wf s'" using assms(1) by (simp add: s')
  show "dom (queues s') = dom (queues s)" "queueNames s' = queueNames s"
    using qs by (auto simp: s' resizeCreditChannel_eq Let_def)
qed

lemma updateWeights_fold:
  "\<lbrakk> sched_wf s; set ns \<subseteq> dom (queues s); foldl (updateWeight e ws) (s, w) ns = (s', w') \<rbrakk> \<Longrightarrow>
   sched_wf s' \<and> dom (queues s') = dom (queues s) \<and> queueNames s' = queueNames s"
proof (induction ns arbitrary: s w)
  case (Cons n ns)
  obtain s1 w1 where u: "updateWeight e ws (s, w) n = (s1, w1)" by (cases "updateWeight e ws (s, w) n")
  have "n \<in> dom (queues s)" using Cons.prems by simp
  note f = updateWeight_facts [OF Cons.prems(1) this u]
  show ?case using Cons.IH [OF f(1), of w1] Cons.prems u f by auto
qed simp

lemma sched_wf_updateWeights: "\<lbrakk> sched_wf s; updateWeights e ws s w = (s', w') \<rbrakk> \<Longrightarrow> sched_wf s'"
proof -
  assume wf: "sched_wf s" and u: "updateWeights e ws s w = (s', w')"
  have "sched_wf (s\<lparr>weights := ws\<rparr>)" using wf by (simp add: sched_wf_def)
  moreover have "set (queueNames s) \<subseteq> dom (queues (s\<lparr>weights := ws\<rparr>))" using wf by (simp add: sched_wf_def)
  ultimately show "sched_wf s'" using updateWeights_fold u unfolding updateWeights_def by blast
qed

lemma sched_wf_SetWeight: "sched_wf s \<Longrightarrow> sched_wf (SetWeight name v s)"
proof (cases "queues s name")
  case None
  then show "sched_wf s \<Longrightarrow> ?thesis" by (simp add: SetWeight_def sched_wf_def)
next
  case (Some qs)
  assume wf: "sched_wf s"
  let ?s = "s\<lparr>weights := (weights s)(name \<mapsto> v)\<rparr>"
  let ?t = "?s\<lparr>queues := (queues ?s)(name \<mapsto> qs\<lparr>qsWeight := v\<rparr>)\<rparr>"
  have "sched_wf ?s" using wf by (simp add: sched_wf_def)
  then have "sched_wf ?t" using Some by (intro sched_wf_reweigh_queue) simp_all
  moreover have "sched_wf (resizeCreditChannel name v ?t)"
    by (rule sched_wf_resize [OF \<open>sched_wf ?t\<close>]) simp
  ultimately show ?thesis using Some by (simp add: SetWeight_def Let_def)
qed

lemma sched_wf_getOrCreate:
  "\<lbrakk> sched_wf s; getOrCreateQueueState e q s w = (s', w') \<rbrakk> \<Longrightarrow> sched_wf s' \<and> q \<in> dom (queues s')"
proof (cases "queues s q")
  case None
  assume wf: "sched_wf s" and g: "getOrCreateQueueState e q s w = (s', w')"
  have fresh: "qsCredits qs \<noteq> nextChan s" "nextChan s \<noteq> qsCredits qs" if "queues s n = Some qs" for n qs
    using sched_wfD(1) [OF wf that] by simp_all
  show ?thesis
    using wf g None capacity_pos [of s] fresh
    by (auto simp: getOrCreateQueueState_def sched_wf_def Let_def dom_def less_Suc_eq split: if_splits dest: fresh)
qed (auto simp: getOrCreateQueueState_def)

lemma sched_wf_take:
  "sched_wf s \<Longrightarrow> sched_wf (s\<lparr>chans := (chans s)(c := (chans s c)\<lparr>clen := clen (chans s c) - 1\<rparr>)\<rparr>)"
  unfolding sched_wf_def by (auto intro: le_trans [OF diff_le_self])

lemma sched_wf_acquire:
  "\<lbrakk> sched_wf s; acquireCredit e ctx b q s w = (r, s', w') \<rbrakk> \<Longrightarrow> sched_wf s' \<and> queues s' = queues s"
  using sched_wf_take [of s "qsCredits (the (queues s q))"]
  by (auto simp: acquireCredit_def Let_def sched_wf_def split: if_splits)

lemma sched_wf_processGranted:
  "\<lbrakk> sched_wf s; q \<in> dom (queues s); processGranted e p ctx q ms s w = (r, s', w') \<rbrakk> \<Longrightarrow> sched_wf s'"
  by (auto simp: processGranted_def Let_def sched_wf_def dom_def split: prod.splits if_splits)

lemma sched_wf_frame:
  "\<lbrakk> sched_wf s; queueNames s' = queueNames s; queues s' = queues s; nextChan s' = nextChan s;
     chans s' = chans s; defaultWeight s' = defaultWeight s; 0 < creditMultiplier s';
     0 < refillPeriod s'; 0 < maxStarvationAge s' \<rbrakk> \<Longrightarrow> sched_wf s'"
  by (simp add: sched_wf_def)

lemma applySchedulerConfig_frame:
  assumes "applySchedulerConfig dc s = Some s'"
  shows "queueNames s' = queueNames s \<and> queues s' = queues s \<and> nextChan s' = nextChan s \<and>
    chans s' = chans s \<and> defaultWeight s' = defaultWeight s"
  using assms by (simp add: applySchedulerConfig_def Let_def split: option.splits if_splits) (clarsimp)+

lemma applySchedulerConfig_pos:
  assumes "applySchedulerConfig dc s = Some s'"
  shows "(0 < creditMultiplier s \<longrightarrow> 0 < creditMultiplier s') \<and> (0 < refillPeriod s \<longrightarrow> 0 < refillPeriod s') \<and>
    (0 < maxStarvationAge s \<longrightarrow> 0 < maxStarvationAge s')"
  using assms by (simp add: applySchedulerConfig_def Let_def split: option.splits if_splits) (clarsimp)+

lemma sched_wf_apply: "\<lbrakk> sched_wf s; applySchedulerConfig dc s = Some s' \<rbrakk> \<Longrightarrow> sched_wf s'"
  using applySchedulerConfig_frame [of dc s s'] applySchedulerConfig_pos [of dc s s']
  by (auto simp: sched_wf_def intro: sched_wf_frame)

section \<open>Invariant of the system\<close>

definition sys_wf :: "sched_system \<Rightarrow> bool" where
  "sys_wf x \<longleftrightarrow> sched_wf (sched x) \<and>
     (\<forall>cl \<in> set (clients x). \<forall>c. cliPc cl = WaitCredit c \<longrightarrow> cliQueue cl \<in> dom (queues (sched x)))"

lemma getOrCreate_dom:
  "getOrCreateQueueState e q s w = (s', w') \<Longrightarrow> dom (queues s') = insert q (dom (queues s))"
  by (auto simp: getOrCreateQueueState_def Let_def split: option.splits if_splits)

lemma processGranted_dom:
  "\<lbrakk> q \<in> dom (queues s); processGranted e p ctx q ms s w = (r, s', w') \<rbrakk> \<Longrightarrow> dom (queues s') = dom (queues s)"
  by (auto simp: processGranted_def Let_def split: prod.splits if_splits)

lemma updateWeights_dom:
  "\<lbrakk> sched_wf s; updateWeights e ws s w = (s', w') \<rbrakk> \<Longrightarrow> dom (queues s') = dom (queues s)"
  using updateWeights_fold [of "s\<lparr>weights := ws\<rparr>" "queueNames s" e ws w s' w'] sched_wfD(5) [of s]
  by (auto simp: updateWeights_def sched_wf_def)

lemma refillAll_queues [simp]: "queues (refillAllCredits s) = queues s"
proof -
  have "queues (foldl (\<lambda>s name. refillQueueCredits name s) t ns) = queues t" for t ns
    by (induction ns arbitrary: t) simp_all
  then show ?thesis by (simp add: refillAllCredits_def)
qed

text \<open>A client that is updated, and a scheduler whose queues only grow, keep the invariant.\<close>

lemma sys_wf_update:
  assumes "sys_wf x" and "sched_wf s'" and "dom (queues (sched x)) \<subseteq> dom (queues s')"
    and "\<And>c. cliPc cl = WaitCredit c \<Longrightarrow> cliQueue cl \<in> dom (queues s')"
  shows "sys_wf (x\<lparr>sched := s', schedWorld := w', clients := (clients x)[i := cl]\<rparr>)"
    and "sys_wf (x\<lparr>sched := s', schedWorld := w'\<rparr>)" and "sys_wf (x\<lparr>sched := s'\<rparr>)"
proof -
  have old: "\<forall>c \<in> set (clients x). \<forall>n. cliPc c = WaitCredit n \<longrightarrow> cliQueue c \<in> dom (queues s')"
    using assms(1,3) unfolding sys_wf_def by blast
  moreover have "set ((clients x)[i := cl]) \<subseteq> insert cl (set (clients x))" by (rule set_update_subset_insert)
  ultimately show "sys_wf (x\<lparr>sched := s', schedWorld := w', clients := (clients x)[i := cl]\<rparr>)"
    using assms(2,4) unfolding sys_wf_def by simp blast
  show "sys_wf (x\<lparr>sched := s', schedWorld := w'\<rparr>)" "sys_wf (x\<lparr>sched := s'\<rparr>)"
    using assms(2) old unfolding sys_wf_def by simp_all
qed

lemma sys_wf_step: "sched_step e p ctx x x' \<Longrightarrow> sys_wf x \<Longrightarrow> sys_wf x'"
proof (induction rule: sched_step.induct)
  case (empty i x)
  let ?cl = "(clients x ! i)\<lparr>cliPc := Finished (NewBatchResult, None)\<rparr>"
  show ?case
    using sys_wf_update(1) [where x = x and s' = "sched x" and cl = ?cl and w' = "schedWorld x" and i = i] empty by (simp add: sys_wf_def)
next
  case (arrive i x s1 w1 preferDone s2 w2 r s3 w3)
  have wf: "sched_wf (sched x)" using arrive.prems by (simp add: sys_wf_def)
  have s1: "sched_wf s1" "cliQueue (clients x ! i) \<in> dom (queues s1)" "dom (queues (sched x)) \<subseteq> dom (queues s1)"
    using sched_wf_getOrCreate [OF wf arrive(4)] getOrCreate_dom [OF arrive(4)] by auto
  have s2: "sched_wf s2" "queues s2 = queues s1" using sched_wf_acquire [OF s1(1) arrive(5)] by auto
  have "sched_wf s3" "dom (queues s3) = dom (queues s2)"
    using sched_wf_processGranted [OF s2(1) _ arrive(6)] processGranted_dom [OF _ arrive(6)] s1 s2 by auto
  then show ?case using arrive.prems s1 s2 by (intro sys_wf_update(1)) simp_all
next
  case (refuse i x s1 w1 preferDone err s2 w2)
  have wf: "sched_wf (sched x)" using refuse.prems by (simp add: sys_wf_def)
  have s1: "sched_wf s1" "dom (queues (sched x)) \<subseteq> dom (queues s1)"
    using sched_wf_getOrCreate [OF wf refuse(4)] getOrCreate_dom [OF refuse(4)] by auto
  have "sched_wf s2" "queues s2 = queues s1" using sched_wf_acquire [OF s1(1) refuse(5)] by auto
  then show ?case using refuse.prems s1 by (intro sys_wf_update(1)) simp_all
next
  case (block i x s1 w1 preferDone c s2 w2)
  have wf: "sched_wf (sched x)" using block.prems by (simp add: sys_wf_def)
  have s1: "sched_wf s1" "cliQueue (clients x ! i) \<in> dom (queues s1)" "dom (queues (sched x)) \<subseteq> dom (queues s1)"
    using sched_wf_getOrCreate [OF wf block(4)] getOrCreate_dom [OF block(4)] by auto
  have "sched_wf s2" "queues s2 = queues s1" using sched_wf_acquire [OF s1(1) block(5)] by auto
  then show ?case using block.prems s1 by (intro sys_wf_update(1)) simp_all
next
  case (wake i x c r s' w')
  let ?s = "(sched x)\<lparr>chans := (chans (sched x))(c := (chans (sched x) c)\<lparr>clen := clen (chans (sched x) c) - 1\<rparr>)\<rparr>"
  have wf: "sched_wf (sched x)" using wake.prems by (simp add: sys_wf_def)
  have q: "cliQueue (clients x ! i) \<in> dom (queues ?s)"
    using wake.prems wake(1,2) by (simp add: sys_wf_def)
  have "sched_wf ?s" by (rule sched_wf_take [OF wf])
  then have "sched_wf s'" "dom (queues s') = dom (queues (sched x))"
    using sched_wf_processGranted [OF _ q wake(4)] processGranted_dom [OF q wake(4)] by auto
  then show ?case using wake.prems by (intro sys_wf_update(1)) simp_all
next
  case (give_up i x c)
  let ?cl = "(clients x ! i)\<lparr>cliPc := Finished (NewBatchResult, Some (ErrContext ''context canceled''))\<rparr>"
  show ?case
    using sys_wf_update(1) [where x = x and s' = "sched x" and cl = ?cl and w' = "schedWorld x" and i = i] give_up by (simp add: sys_wf_def)
next
  case (submit x q ms)
  then show ?case by (auto simp: sys_wf_def)
next
  case (tick x)
  then show ?case
    by (intro sys_wf_update(3) [where cl = "\<lparr>cliQueue = [], cliMsgs = [], cliPc = Arriving\<rparr>"])
      (auto simp: sys_wf_def sched_wf_refillAll)
next
  case (new_period x pd pds)
  then show ?case by (auto simp: sys_wf_def sched_wf_def)
next
  case (reweigh ws x s' w')
  then have wf: "sched_wf (sched x)" by (simp add: sys_wf_def)
  show ?case
    using reweigh sched_wf_updateWeights [OF wf] updateWeights_dom [OF wf]
    by (intro sys_wf_update(2) [where cl = "\<lparr>cliQueue = [], cliMsgs = [], cliPc = Arriving\<rparr>"]) auto
next
  case (tune dc x s')
  then have wf: "sched_wf (sched x)" by (simp add: sys_wf_def)
  show ?case
    using tune sched_wf_apply [OF wf] applySchedulerConfig_frame
    by (intro sys_wf_update(3) [where cl = "\<lparr>cliQueue = [], cliMsgs = [], cliPc = Arriving\<rparr>"]) auto
next
  case (cancel x)
  then show ?case by (simp add: sys_wf_def)
qed

lemma sys_wf_reach: "(sched_step e p ctx)\<^sup>*\<^sup>* x x' \<Longrightarrow> sys_wf x \<Longrightarrow> sys_wf x'"
  by (induction rule: rtranclp_induct) (auto intro: sys_wf_step)

definition sched_start :: "scheduler \<Rightarrow> world \<Rightarrow> sched_system" where
  "sched_start s w = \<lparr>sched = s, clients = [], schedWorld = w\<rparr>"

text \<open>C17. Credits are safe under every interleaving of callers, refills, weight changes and tuning:
  in every reachable state no credit channel holds more credits than its capacity, every queue owns
  a channel of its own with capacity at least one, and the tuning parameters stay positive.\<close>

theorem scheduler_credit_invariant:
  assumes "(sched_step e p ctx)\<^sup>*\<^sup>* (sched_start (NewPriorityScheduler dw m rp sa b) w) x"
  shows "sched_wf (sched x)"
  using sys_wf_reach [OF assms] by (simp add: sys_wf_def sched_start_def)

theorem scheduler_credit_invariant_witness:
  "\<exists>x. (sched_step base_env sample_processor AppCtx)\<^sup>*\<^sup>* (sched_start (NewPriorityScheduler 1 10 0 0 True) init_world) x \<and>
     length (clients x) = 1 \<and> sched_wf (sched x)"
proof -
  let ?x0 = "sched_start (NewPriorityScheduler 1 10 0 0 True) init_world"
  let ?x1 = "?x0\<lparr>clients := clients ?x0 @ [\<lparr>cliQueue = ''Q'', cliMsgs = [sample_message], cliPc = Arriving\<rparr>]\<rparr>"
  have "(sched_step base_env sample_processor AppCtx)\<^sup>*\<^sup>* ?x0 ?x1"
    by (rule r_into_rtranclp) (rule sched_step.submit)
  then show ?thesis
    using scheduler_credit_invariant by (intro exI [of _ ?x1]) (auto simp: sched_start_def)
qed

section \<open>Refill\<close>

lemma refilled_chan:
  assumes "sched_wf s" and "queues s n = Some qs"
  shows "chans (refillQueueCredits n s) (qsCredits qs) =
    (let c = chans s (qsCredits qs) in c\<lparr>clen := min (ccap c) (clen c + creditsToAdd s qs)\<rparr>)"
proof -
  have "l + min k (c - l) = min c (l + k)" if "l \<le> c" for l k c :: nat using that by linarith
  then show ?thesis
    using assms(2) sched_wfD(4) [OF assms(1), of "qsCredits qs"] by (simp add: refillQueueCredits_eq Let_def)
qed

lemma refill_fold:
  assumes "sched_wf s"
  shows "\<lbrakk> distinct ns; set ns \<subseteq> dom (queues s) \<rbrakk> \<Longrightarrow> queues s n = Some qs \<Longrightarrow>
    chans (foldl (\<lambda>s name. refillQueueCredits name s) s ns) (qsCredits qs) =
      (let c = chans s (qsCredits qs) in
       if n \<in> set ns then c\<lparr>clen := min (ccap c) (clen c + creditsToAdd s qs)\<rparr> else c)"
  using assms
proof (induction ns arbitrary: s)
  case (Cons a ns)
  obtain qa where qa: "queues s a = Some qa" using Cons.prems by auto
  let ?s = "refillQueueCredits a s"
  have wf: "sched_wf ?s" by (rule sched_wf_refill [OF Cons.prems(4) qa])
  have add: "creditsToAdd ?s qs = creditsToAdd s qs" by (simp add: creditsToAdd_def)
  have ih: "chans (foldl (\<lambda>s name. refillQueueCredits name s) ?s ns) (qsCredits qs) =
      (let c = chans ?s (qsCredits qs) in
       if n \<in> set ns then c\<lparr>clen := min (ccap c) (clen c + creditsToAdd s qs)\<rparr> else c)"
    using Cons.IH [of ?s] Cons.prems wf by (simp add: add Let_def)
  show ?case
  proof (cases "n = a")
    case True
    then have "qa = qs" "n \<notin> set ns" using qa Cons.prems by auto
    then show ?thesis
      using ih refilled_chan [OF Cons.prems(4) qa] True by (simp add: Let_def)
  next
    case False
    then have "qsCredits qa \<noteq> qsCredits qs"
      using sched_wfD(3) [OF Cons.prems(4) qa Cons.prems(3)] by auto
    then have "chans ?s (qsCredits qs) = chans s (qsCredits qs)"
      using qa by (simp add: refillQueueCredits_eq Let_def)
    then show ?thesis using ih False by (simp add: Let_def)
  qed
qed (simp add: Let_def)

text \<open>A tick of the refill loop gives every queue exactly its weight in credits, limited by the
  capacity of its channel (the default weight when the weight is not positive), so that afterwards
  every queue has at least one credit: no queue is shut out, and heavier queues get more.\<close>

theorem refillAllCredits_exact:
  assumes "sched_wf s" and "queues s n = Some qs"
  shows "let c = chans s (qsCredits qs); c' = chans (refillAllCredits s) (qsCredits qs) in
     clen c' = min (ccap c) (clen c + creditsToAdd s qs) \<and> ccap c' = ccap c \<and> 1 \<le> clen c' \<and>
     creditsToAdd s qs = nat (if qsWeight qs \<le> 0 then defaultWeight s else qsWeight qs)"
proof -
  have n: "n \<in> set (queueNames s)" using sched_wfD(5) [OF assms(1)] assms(2) by auto
  have "1 \<le> creditsToAdd s qs" using sched_wfD(7) [OF assms(1)] by (auto simp: creditsToAdd_def Suc_le_eq)
  moreover have "0 < ccap (chans s (qsCredits qs))" by (rule sched_wfD(2) [OF assms])
  ultimately show ?thesis
    using refill_fold [OF assms(1) sched_wfD(6) [OF assms(1)] _ assms(2)] sched_wfD(5) [OF assms(1)] n
    by (simp add: refillAllCredits_def Let_def creditsToAdd_def)
qed

theorem refillAllCredits_exact_witness:
  "let s = fst (getOrCreateQueueState base_env ''Q'' (NewPriorityScheduler 1 10 0 0 True) init_world) in
     sched_wf s \<and> (\<exists>qs. queues s ''Q'' = Some qs \<and> clen (chans (refillAllCredits s) (qsCredits qs)) = 10)"
proof -
  let ?g = "getOrCreateQueueState base_env ''Q'' (NewPriorityScheduler 1 10 0 0 True) init_world"
  let ?s = "fst ?g"
  have wf: "sched_wf ?s"
    using sched_wf_getOrCreate [of "NewPriorityScheduler 1 10 0 0 True" base_env "''Q''" init_world ?s "snd ?g"] by simp
  obtain qs where q: "queues ?s ''Q'' = Some qs" "chans ?s (qsCredits qs) = \<lparr>ccap = 10, clen = 10\<rparr>"
    by (simp add: getOrCreateQueueState_def NewPriorityScheduler_def capacity_def Let_def)
  show ?thesis
    using refillAllCredits_exact [OF wf q(1)] wf q by (simp add: Let_def)
qed

section \<open>Replaced channels\<close>

text \<open>No operation brings credits to a channel that no queue uses any more, and none makes such a
  channel current again.\<close>

definition stale_le :: "scheduler \<Rightarrow> scheduler \<Rightarrow> bool" where
  "stale_le s s' \<longleftrightarrow>
     (\<forall>c. c < nextChan s \<and> c \<notin> current s \<longrightarrow>
        c < nextChan s' \<and> c \<notin> current s' \<and> clen (chans s' c) \<le> clen (chans s c))"

lemma stale_le_refl [simp]: "stale_le s s"
  by (simp add: stale_le_def)

lemma stale_le_trans: "stale_le a b \<Longrightarrow> stale_le b c \<Longrightarrow> stale_le a c"
  unfolding stale_le_def by (meson le_trans)

lemma in_current: "queues s n = Some qs \<Longrightarrow> qsCredits qs \<in> current s"
  by (auto simp: current_def ran_def)

lemma current_iff: "c \<in> current s \<longleftrightarrow> (\<exists>n qs. queues s n = Some qs \<and> qsCredits qs = c)"
  by (auto simp: current_def ran_def)

lemma stale_resize:
  "queues s name = Some qs \<Longrightarrow> stale_le s (resizeCreditChannel name v (s\<lparr>queues := (queues s)(name \<mapsto> qs\<lparr>qsWeight := v\<rparr>)\<rparr>))"
  by (auto simp: stale_le_def resizeCreditChannel_eq Let_def current_iff split: if_splits)

lemma stale_updateWeight:
  "\<lbrakk> name \<in> dom (queues s); updateWeight e ws (s, w) name = (s', w') \<rbrakk> \<Longrightarrow> stale_le s s'"
  using stale_resize [of s name] by (fastforce simp: updateWeight_def Let_def split: if_splits)

lemma stale_updateWeights_fold:
  "\<lbrakk> sched_wf s; set ns \<subseteq> dom (queues s); foldl (updateWeight e ws) (s, w) ns = (s', w') \<rbrakk> \<Longrightarrow> stale_le s s'"
proof (induction ns arbitrary: s w)
  case (Cons n ns)
  obtain s1 w1 where u: "updateWeight e ws (s, w) n = (s1, w1)" by (cases "updateWeight e ws (s, w) n")
  have n: "n \<in> dom (queues s)" using Cons.prems by simp
  note f = updateWeight_facts [OF Cons.prems(1) n u]
  have "stale_le s1 s'" using Cons.IH [OF f(1), of w1] Cons.prems u f by auto
  then show ?case using stale_updateWeight [OF n u] by (blast intro: stale_le_trans)
qed simp

lemma stale_updateWeights: "\<lbrakk> sched_wf s; updateWeights e ws s w = (s', w') \<rbrakk> \<Longrightarrow> stale_le s s'"
proof -
  assume wf: "sched_wf s" and u: "updateWeights e ws s w = (s', w')"
  have "stale_le (s\<lparr>weights := ws\<rparr>) s'"
    using stale_updateWeights_fold [of "s\<lparr>weights := ws\<rparr>" "queueNames s" e ws w s' w'] u sched_wfD(5) [OF wf] wf
    by (simp add: updateWeights_def sched_wf_def)
  then show "stale_le s s'" by (simp add: stale_le_def current_def)
qed

lemma stale_refill: "queues s name = Some qs \<Longrightarrow> stale_le s (refillQueueCredits name s)"
  by (auto simp: stale_le_def refillQueueCredits_eq Let_def current_iff)

lemma stale_refillAll: "sched_wf s \<Longrightarrow> stale_le s (refillAllCredits s)"
proof -
  have "set ns \<subseteq> dom (queues t) \<Longrightarrow> stale_le t (foldl (\<lambda>s name. refillQueueCredits name s) t ns)" for ns t
  proof (induction ns arbitrary: t)
    case (Cons n ns)
    then obtain qs where "queues t n = Some qs" by auto
    with Cons show ?case by (auto intro: stale_le_trans [OF stale_refill])
  qed simp
  then show "sched_wf s \<Longrightarrow> stale_le s (refillAllCredits s)"
    using sched_wfD(5) [of s] by (simp add: refillAllCredits_def)
qed

lemma stale_getOrCreate:
  "\<lbrakk> sched_wf s; getOrCreateQueueState e q s w = (s', w') \<rbrakk> \<Longrightarrow> stale_le s s'"
  by (auto simp: stale_le_def getOrCreateQueueState_def Let_def current_iff split: option.splits if_splits) blast+

lemma stale_acquire: "acquireCredit e ctx b q s w = (r, s', w') \<Longrightarrow> stale_le s s'"
  by (auto simp: stale_le_def acquireCredit_def Let_def current_def split: if_splits)

lemma stale_processGranted:
  "\<lbrakk> q \<in> dom (queues s); processGranted e p ctx q ms s w = (r, s', w') \<rbrakk> \<Longrightarrow> stale_le s s'"
  by (auto simp: stale_le_def processGranted_def Let_def current_iff split: prod.splits if_splits) blast+

lemma stale_apply: "applySchedulerConfig dc s = Some s' \<Longrightarrow> stale_le s s'"
  using applySchedulerConfig_frame [of dc s s'] by (auto simp: stale_le_def current_def)

lemma stale_step: "sched_step e p ctx x x' \<Longrightarrow> sys_wf x \<Longrightarrow> stale_le (sched x) (sched x')"
proof (induction rule: sched_step.induct)
  case (arrive i x s1 w1 preferDone s2 w2 r s3 w3)
  have wf: "sched_wf (sched x)" using arrive.prems by (simp add: sys_wf_def)
  have q: "cliQueue (clients x ! i) \<in> dom (queues s2)"
    using getOrCreate_dom [OF arrive(4)] sched_wf_acquire [OF _ arrive(5)] sched_wf_getOrCreate [OF wf arrive(4)] by auto
  show ?case
    using stale_le_trans [OF stale_getOrCreate [OF wf arrive(4)] stale_le_trans [OF stale_acquire [OF arrive(5)]
          stale_processGranted [OF q arrive(6)]]] by simp
next
  case (refuse i x s1 w1 preferDone err s2 w2)
  then show ?case
    using stale_le_trans [OF stale_getOrCreate [OF _ refuse(4)] stale_acquire [OF refuse(5)]] by (simp add: sys_wf_def)
next
  case (block i x s1 w1 preferDone c s2 w2)
  then show ?case
    using stale_le_trans [OF stale_getOrCreate [OF _ block(4)] stale_acquire [OF block(5)]] by (simp add: sys_wf_def)
next
  case (wake i x c r s' w')
  let ?s = "(sched x)\<lparr>chans := (chans (sched x))(c := (chans (sched x) c)\<lparr>clen := clen (chans (sched x) c) - 1\<rparr>)\<rparr>"
  have "stale_le (sched x) ?s" by (simp add: stale_le_def current_def)
  moreover have "cliQueue (clients x ! i) \<in> dom (queues ?s)" using wake.prems wake(1,2) by (simp add: sys_wf_def)
  ultimately show ?case using stale_le_trans [OF _ stale_processGranted [OF _ wake(4)]] by simp
next
  case (new_period x pd pds)
  then show ?case by (simp add: stale_le_def current_def)
qed (simp_all add: sys_wf_def stale_refillAll stale_updateWeights stale_apply)

lemma updateWeight_other:
  assumes "sched_wf s" and "name \<in> dom (queues s)" and "name \<noteq> q" and "queues s q = Some qs"
    and "updateWeight e ws (s, w) name = (s', w')"
  shows "queues s' q = Some qs" and "chans s' (qsCredits qs) = chans s (qsCredits qs)"
    and "defaultWeight s' = defaultWeight s"
proof -
  obtain qn where qn: "queues s name = Some qn" using assms(2) by blast
  have "qsCredits qn \<noteq> qsCredits qs" using sched_wfD(3) [OF assms(1) qn assms(4)] assms(3) by blast
  moreover have "qsCredits qs \<noteq> nextChan s" using sched_wfD(1) [OF assms(1,4)] by simp
  ultimately show "queues s' q = Some qs" "chans s' (qsCredits qs) = chans s (qsCredits qs)"
    "defaultWeight s' = defaultWeight s"
    using assms(3-5) qn by (auto simp: updateWeight_def resizeCreditChannel_eq Let_def split: if_splits)
qed

lemma updateWeight_self:
  assumes "sched_wf s" and "queues s q = Some qs" and "ws q = Some v" and "v \<noteq> qsWeight qs"
    and "updateWeight e ws (s, w) q = (s', w')"
  shows "qsCredits qs \<notin> current s' \<and> qsCredits qs < nextChan s' \<and>
    clen (chans s' (qsCredits qs)) \<le> clen (chans s (qsCredits qs))"
proof -
  have lt: "qsCredits qs < nextChan s" by (rule sched_wfD(1) [OF assms(1,2)])
  have own: "n = q" if "queues s n = Some q'" "qsCredits q' = qsCredits qs" for n q'
    using sched_wfD(3) [OF assms(1) that(1) assms(2) that(2)] .
  have s': "s' = resizeCreditChannel q v (s\<lparr>queues := (queues s)(q \<mapsto> qs\<lparr>qsWeight := v\<rparr>)\<rparr>)"
    using assms(2-5) by (simp add: updateWeight_def Let_def)
  have "queues s' = (queues s)(q \<mapsto> qs\<lparr>qsWeight := v, qsCredits := nextChan s\<rparr>)"
    by (simp add: s' resizeCreditChannel_eq Let_def)
  then have "qsCredits q' \<noteq> qsCredits qs" if "queues s' n = Some q'" for n q'
    using that lt by (cases "n = q") (auto dest: own)
  then have "qsCredits qs \<notin> current s'" unfolding current_iff by blast
  moreover have "qsCredits qs < nextChan s'" "clen (chans s' (qsCredits qs)) \<le> clen (chans s (qsCredits qs))"
    using lt by (simp_all add: s' resizeCreditChannel_eq Let_def)
  ultimately show ?thesis by blast
qed

lemma updateWeights_stale:
  "\<lbrakk> sched_wf s; set ns \<subseteq> dom (queues s); distinct ns; q \<in> set ns; queues s q = Some qs; ws q = Some v;
     v \<noteq> qsWeight qs; foldl (updateWeight e ws) (s, w) ns = (s', w') \<rbrakk> \<Longrightarrow>
   qsCredits qs \<notin> current s' \<and> qsCredits qs < nextChan s' \<and>
   clen (chans s' (qsCredits qs)) \<le> clen (chans s (qsCredits qs))"
proof (induction ns arbitrary: s w)
  case (Cons n ns)
  obtain s1 w1 where u: "updateWeight e ws (s, w) n = (s1, w1)" by (cases "updateWeight e ws (s, w) n")
  have n: "n \<in> dom (queues s)" using Cons.prems by simp
  note f = updateWeight_facts [OF Cons.prems(1) n u]
  have rest: "foldl (updateWeight e ws) (s1, w1) ns = (s', w')" "set ns \<subseteq> dom (queues s1)"
    using Cons.prems u f by auto
  show ?case
  proof (cases "n = q")
    case True
    have s1: "qsCredits qs \<notin> current s1 \<and> qsCredits qs < nextChan s1 \<and>
        clen (chans s1 (qsCredits qs)) \<le> clen (chans s (qsCredits qs))"
      using updateWeight_self [OF Cons.prems(1,5), of ws v e w s1 w1] Cons.prems(6,7) u True by blast
    moreover have "stale_le s1 s'" using stale_updateWeights_fold [OF f(1) rest(2) rest(1)] .
    ultimately show ?thesis unfolding stale_le_def by (meson le_trans)
  next
    case False
    note o = updateWeight_other [OF Cons.prems(1) n False Cons.prems(5) u]
    have "q \<in> set ns" using Cons.prems(4) False by simp
    then show ?thesis
      using Cons.IH [OF f(1) rest(2) _ _ o(1) Cons.prems(6,7) rest(1)] Cons.prems(3) o(2) by simp
  qed
qed simp

definition gaveUp :: client_pc where
  "gaveUp = Finished (NewBatchResult, Some (ErrContext ''context canceled''))"

lemma blocked_step:
  assumes "sched_step e p ctx x x'" and "i < length (clients x)" and "clen (chans (sched x) c) = 0"
    and "cliPc (clients x ! i) = WaitCredit c \<or> cliPc (clients x ! i) = gaveUp"
  shows "i < length (clients x') \<and> (cliPc (clients x' ! i) = WaitCredit c \<or> cliPc (clients x' ! i) = gaveUp)"
  using assms by (induction rule: sched_step.induct) (auto simp: nth_list_update nth_append gaveUp_def)

lemma stranded_reach:
  assumes "(sched_step e p ctx)\<^sup>*\<^sup>* x x'" and "sys_wf x" and "i < length (clients x)"
    and "cliPc (clients x ! i) = WaitCredit c" and "c \<notin> current (sched x)" and "c < nextChan (sched x)"
    and "clen (chans (sched x) c) = 0"
  shows "sys_wf x' \<and> i < length (clients x') \<and> c \<notin> current (sched x') \<and> c < nextChan (sched x') \<and>
    clen (chans (sched x') c) = 0 \<and> (cliPc (clients x' ! i) = WaitCredit c \<or> cliPc (clients x' ! i) = gaveUp)"
  using assms(1)
proof (induction rule: rtranclp_induct)
  case (step y z)
  have "stale_le (sched y) (sched z)" using stale_step [OF step(2)] step.IH by blast
  then have "c < nextChan (sched z)" "c \<notin> current (sched z)" "clen (chans (sched z) c) = 0"
    using step.IH unfolding stale_le_def by fastforce+
  then show ?case using blocked_step [OF step(2)] sys_wf_step [OF step(2)] step.IH by blast
qed (use assms in auto)

text \<open>C36. A weight change strands waiting callers: when a caller is blocked on the empty credit channel
  of a queue and the weight of that queue is changed, the channel is replaced and the caller keeps
  waiting on the old one. In every later state of the system, whatever refills and weight changes
  follow, the caller is still blocked on it or has given up because its context was cancelled; it is
  never granted a credit.\<close>

theorem resize_strands_waiters:
  assumes "sys_wf x" and "i < length (clients x)" and "cliPc (clients x ! i) = WaitCredit (qsCredits qs)"
    and "queues (sched x) q = Some qs" and "clen (chans (sched x) (qsCredits qs)) = 0"
    and "ws q = Some v" and "v \<noteq> qsWeight qs"
    and "updateWeights e ws (sched x) (schedWorld x) = (s1, w1)"
    and "(sched_step e p ctx)\<^sup>*\<^sup>* (x\<lparr>sched := s1, schedWorld := w1\<rparr>) x'"
  shows "cliPc (clients x' ! i) = WaitCredit (qsCredits qs) \<or>
         cliPc (clients x' ! i) = Finished (NewBatchResult, Some (ErrContext ''context canceled''))"
proof -
  let ?s = "(sched x)\<lparr>weights := ws\<rparr>"
  have wf: "sched_wf (sched x)" "sched_wf ?s" using assms(1) by (simp_all add: sys_wf_def sched_wf_def)
  have names: "set (queueNames (sched x)) \<subseteq> dom (queues ?s)" "distinct (queueNames (sched x))"
    "q \<in> set (queueNames (sched x))" using sched_wfD(5,6) [OF wf(1)] assms(4) by auto
  have st: "qsCredits qs \<notin> current s1 \<and> qsCredits qs < nextChan s1 \<and> clen (chans s1 (qsCredits qs)) = 0"
    using updateWeights_stale [OF wf(2) names, of qs ws v e "schedWorld x" s1 w1] assms(4-8)
    by (simp add: updateWeights_def)
  have "sys_wf (x\<lparr>sched := s1, schedWorld := w1\<rparr>)"
    using sys_wf_step [OF sched_step.reweigh [OF assms(8)] assms(1)] .
  from stranded_reach [OF assms(9) this] show ?thesis using assms(2,3) st by (simp add: gaveUp_def)
qed

theorem resize_strands_waiters_witness:
  "\<exists>x s1 w1. sys_wf x \<and> cliPc (clients x ! 0) = WaitCredit 0 \<and>
     updateWeights base_env [''Q'' \<mapsto> 2] (sched x) (schedWorld x) = (s1, w1) \<and>
     clen (chans (refillAllCredits s1) 0) = 0 \<and>
     cliPc (clients (x\<lparr>sched := s1, schedWorld := w1\<rparr>) ! 0) \<in> {WaitCredit 0, gaveUp}"
proof -
  let ?qs = "\<lparr>qsWeight = 1, qsCredits = 0, qsLastProcessed = 0\<rparr>"
  let ?s = "(NewPriorityScheduler 1 10 0 0 True)\<lparr>queueNames := [''Q''], queues := [''Q'' \<mapsto> ?qs],
      chans := (\<lambda>_. \<lparr>ccap = 10, clen = 0\<rparr>), nextChan := 1\<rparr>"
  let ?x = "\<lparr>sched = ?s, clients = [\<lparr>cliQueue = ''Q'', cliMsgs = [sample_message], cliPc = WaitCredit 0\<rparr>],
      schedWorld = init_world\<rparr>"
  have wf: "sys_wf ?x" by (auto simp: sys_wf_def sched_wf_def NewPriorityScheduler_def split: if_splits)
  obtain s1 w1 where u: "updateWeights base_env [''Q'' \<mapsto> 2] ?s init_world = (s1, w1)"
    "clen (chans (refillAllCredits s1) 0) = 0"
    by (simp add: updateWeights_def updateWeight_def resizeCreditChannel_eq refillAllCredits_def
        refillQueueCredits_eq NewPriorityScheduler_def Let_def)
  have "cliPc (clients (?x\<lparr>sched := s1, schedWorld := w1\<rparr>) ! 0) = WaitCredit (qsCredits ?qs) \<or>
      cliPc (clients (?x\<lparr>sched := s1, schedWorld := w1\<rparr>) ! 0) =
        Finished (NewBatchResult, Some (ErrContext ''context canceled''))"
    by (rule resize_strands_waiters [OF wf, where q = "''Q''" and ws = "[''Q'' \<mapsto> 2]" and v = 2 and e = base_env
          and p = sample_processor and ctx = AppCtx])
      (use u in \<open>auto simp: NewPriorityScheduler_def Let_def\<close>)
  then show ?thesis using wf u
    by (intro exI [of _ ?x] exI [of _ s1] exI [of _ w1]) (simp add: gaveUp_def)
qed

text \<open>Starvation prevention: a queue that has not been processed for longer than the maximal
  starvation age is granted at once and keeps its credits; otherwise a grant consumes exactly one
  credit of its channel, and a caller is refused or blocked only when there is none to take or its
  context is done.\<close>

theorem acquireCredit_cases:
  assumes "queues s q = Some qs" and "acquireCredit e ctx b q s w = (r, s', w')"
  shows "let n = clen (chans s (qsCredits qs)); n' = clen (chans s' (qsCredits qs));
             starving = (maxStarvationAge s < time_Since e w (qsLastProcessed qs)) in
     (if starving then r = Granted \<and> n' = n \<and> starvationEvents s' = starvationEvents s + 1
      else case r of
        Granted \<Rightarrow> n = n' + 1
      | Refused err \<Rightarrow> ctxdone w ctx \<and> n' = n
      | Blocked c \<Rightarrow> c = qsCredits qs \<and> n = 0 \<and> n' = 0 \<and> \<not> ctxdone w ctx)"
  using assms by (auto simp: acquireCredit_def Let_def split: if_splits)

theorem acquireCredit_cases_witness:
  "let s = fst (getOrCreateQueueState base_env ''Q'' (NewPriorityScheduler 1 10 0 0 True) init_world);
       (r, s', w') = acquireCredit base_env AppCtx False ''Q'' s init_world in
     r = Granted \<and> clen (chans s 0) = clen (chans s' 0) + 1"
proof -
  let ?s = "fst (getOrCreateQueueState base_env ''Q'' (NewPriorityScheduler 1 10 0 0 True) init_world)"
  have q: "queues ?s ''Q'' = Some \<lparr>qsWeight = 1, qsCredits = 0, qsLastProcessed = 0\<rparr>"
    by (simp add: getOrCreateQueueState_def NewPriorityScheduler_def time_Now_def base_env_def init_world_def Let_def)
  obtain r s' w' where a: "acquireCredit base_env AppCtx False ''Q'' ?s init_world = (r, s', w')"
    by (cases "acquireCredit base_env AppCtx False ''Q'' ?s init_world")
  have r: "fst (acquireCredit base_env AppCtx False ''Q'' ?s init_world) = Granted" by code_simp
  have age: "\<not> maxStarvationAge ?s < time_Since base_env init_world 0" by code_simp
  show ?thesis using acquireCredit_cases [OF q a] a r age by (simp add: Let_def)
qed

end
