(* ===== verification/Message_Router.thy ===== *)
theory Message_Router
  imports Transactional_Handler Priority_Scheduler
begin

text \<open>
  \<^verbatim>\<open>internal/sms/service/message_router.go\<close>: splits a delivery into transactional messages, for
  the fast path, and promotional ones, for the scheduler, and settles it.

  The scheduler's \<^verbatim>\<open>ProcessMessages\<close> may wait for a credit. Here it is a function of what happens
  in the background while the caller waits (refills, new weights and tuning, cancellation); \<open>None\<close>
  means that it still waits when this list is used up. It follows the step relation of
  \<open>Priority_Scheduler\<close>. The scheduler hands granted messages to its own processor.
\<close>

section \<open>The scheduler as its caller sees it\<close>

datatype background =
  BgTick | BgPeriod | BgReweigh "string \<rightharpoonup> int" | BgTune dyn_config | BgCancel

fun applyBg :: "env \<Rightarrow> ctxid \<Rightarrow> background \<Rightarrow> scheduler \<Rightarrow> world \<Rightarrow> (scheduler \<times> world) option" where
  "applyBg e ctx BgTick s w = Some (refillAllCredits s, w)"
| "applyBg e ctx BgPeriod s w =
     (case refillPeriodCh s of
        [] \<Rightarrow> Some (s, w)
      | pd # pds \<Rightarrow> Some (s\<lparr>refillPeriodCh := pds, tickerPeriod := pd\<rparr>, w))"
| "applyBg e ctx (BgReweigh ws) s w = Some (updateWeights e ws s w)"
| "applyBg e ctx (BgTune dc) s w = map_option (\<lambda>s. (s, w)) (applySchedulerConfig dc s)"
| "applyBg e ctx BgCancel s w = Some (s, cancelContext ctx w)"

text \<open>The blocking \<^verbatim>\<open>select\<close> of \<^verbatim>\<open>acquireCredit\<close> on the channel \<open>c\<close> it read before.\<close>

fun awaitCredit ::
  "env \<Rightarrow> ctxid \<Rightarrow> bool \<Rightarrow> nat \<Rightarrow> background list \<Rightarrow> scheduler \<Rightarrow> world \<Rightarrow>
   (goerr option \<times> scheduler \<times> world) option" where
  "awaitCredit e ctx preferDone c bgs s w =
     (if clen (chans s c) > 0 \<and> \<not> (ctxdone w ctx \<and> preferDone) then
        Some (None, s\<lparr>chans := (chans s)(c := (chans s c)\<lparr>clen := clen (chans s c) - 1\<rparr>)\<rparr>, w)
      else if ctxdone w ctx then Some (Some (ErrContext ''context canceled''), s, w)
      else case bgs of
             [] \<Rightarrow> None
           | bg # bgs \<Rightarrow>
               (case applyBg e ctx bg s w of
                  None \<Rightarrow> None
                | Some (s, w) \<Rightarrow> awaitCredit e ctx preferDone c bgs s w))"

declare awaitCredit.simps [simp del]

definition sched_ProcessMessages ::
  "env \<Rightarrow> processor \<Rightarrow> ctxid \<Rightarrow> bool \<Rightarrow> background list \<Rightarrow> message list \<Rightarrow> string \<Rightarrow> scheduler \<Rightarrow> world \<Rightarrow>
   ((batch_result \<times> goerr option) \<times> scheduler \<times> world) option" where
  "sched_ProcessMessages e p ctx preferDone bgs messages queueName s w =
     (if messages = [] then Some ((NewBatchResult, None), s, w)
      else
        (let (s, w) = getOrCreateQueueState e queueName s w in
         case acquireCredit e ctx preferDone queueName s w of
           (Granted, s, w) \<Rightarrow> Some (processGranted e p ctx queueName messages s w)
         | (Refused err, s, w) \<Rightarrow> Some ((NewBatchResult, Some err), s, w)
         | (Blocked c, s, w) \<Rightarrow>
             (case awaitCredit e ctx preferDone c bgs s w of
                None \<Rightarrow> None
              | Some (Some err, s, w) \<Rightarrow> Some ((NewBatchResult, Some err), s, w)
              | Some (None, s, w) \<Rightarrow> Some (processGranted e p ctx queueName messages s w))))"

section \<open>Routing\<close>

record msg_router =
  mrTransactionalHandler :: "tx_handler option"
  mrScheduler :: "processor option" \<comment> \<open>the processor of the scheduler, if there is a scheduler\<close>
  mrProcessor :: "processor option"
  mrMetrics :: bool

record route_state =
  rsTxStats :: tx_stats
  rsSched :: scheduler
  rsTransactional :: "64 word"
  rsPromotional :: "64 word"
  rsWorld :: world

fun routeMetric :: "env \<Rightarrow> bool \<Rightarrow> string \<Rightarrow> string \<Rightarrow> nat \<Rightarrow> world \<Rightarrow> world" where
  "routeMetric e b kind q 0 w = w"
| "routeMetric e b kind q (Suc n) w = routeMetric e b kind q n (metric e b (IncPriorityRouted kind q) w)"

definition routeTransactional ::
  "env \<Rightarrow> msg_router \<Rightarrow> ctxid \<Rightarrow> string \<Rightarrow> message list \<Rightarrow> route_state \<Rightarrow> bool \<times> route_state" where
  "routeTransactional e r ctx queueName transactional x =
     (if length transactional > 0 then
        (let x = x\<lparr>rsTransactional := rsTransactional x + of_nat (length transactional),
                   rsWorld := routeMetric e (mrMetrics r) ''transactional'' queueName (length transactional) (rsWorld x)\<rparr> in
         case mrTransactionalHandler r of
           Some h \<Rightarrow>
             (let (_, st, w) = tx_ProcessBatch e h ctx transactional (rsTxStats x, rsWorld x)
              in (False, x\<lparr>rsTxStats := st, rsWorld := w\<rparr>))
         | None \<Rightarrow>
             (case mrProcessor r of
                Some p \<Rightarrow>
                  (let ((_, err), w) = ProcessMessages e p ctx transactional (rsWorld x)
                   in (err \<noteq> None, x\<lparr>rsWorld := w\<rparr>))
              | None \<Rightarrow> (False, x)))
      else (False, x))"

definition routePromotional ::
  "env \<Rightarrow> msg_router \<Rightarrow> ctxid \<Rightarrow> bool \<Rightarrow> background list \<Rightarrow> string \<Rightarrow> message list \<Rightarrow> route_state \<Rightarrow>
   (bool \<times> route_state) option" where
  "routePromotional e r ctx preferDone bgs queueName promotional x =
     (if length promotional > 0 then
        (let x = x\<lparr>rsPromotional := rsPromotional x + of_nat (length promotional),
                   rsWorld := routeMetric e (mrMetrics r) ''promotional'' queueName (length promotional) (rsWorld x)\<rparr> in
         case mrScheduler r of
           Some p \<Rightarrow>
             (case sched_ProcessMessages e p ctx preferDone bgs promotional queueName (rsSched x) (rsWorld x) of
                None \<Rightarrow> None
              | Some ((_, err), s, w) \<Rightarrow> Some (err \<noteq> None, x\<lparr>rsSched := s, rsWorld := w\<rparr>))
         | None \<Rightarrow>
             (case mrProcessor r of
                Some p \<Rightarrow>
                  (let ((_, err), w) = ProcessMessages e p ctx promotional (rsWorld x)
                   in Some (err \<noteq> None, x\<lparr>rsWorld := w\<rparr>))
              | None \<Rightarrow> Some (False, x)))
      else Some (False, x))"

definition RouteDelivery ::
  "env \<Rightarrow> msg_router \<Rightarrow> ctxid \<Rightarrow> bool \<Rightarrow> background list \<Rightarrow> delivery \<Rightarrow> string \<Rightarrow> route_state \<Rightarrow>
   (goerr option \<times> route_state) option" where
  "RouteDelivery e r ctx preferDone bgs d queueName x =
     (let messages = dMessages d in
      if length messages = 0 then
        (let (err, w) = d_Ack e d (rsWorld x) in Some (err, x\<lparr>rsWorld := w\<rparr>))
      else
        (let transactional = filter IsTransactional messages;
             promotional = filter (\<lambda>m. \<not> IsTransactional m) messages;
             (failed1, x) = routeTransactional e r ctx queueName transactional x in
         case routePromotional e r ctx preferDone bgs queueName promotional x of
           None \<Rightarrow> None
         | Some (failed2, x) \<Rightarrow>
             if failed1 \<or> failed2 then
               (let (err, w) = d_Nack e d True (rsWorld x) in Some (err, x\<lparr>rsWorld := w\<rparr>))
             else
               (let (err, w) = d_Ack e d (rsWorld x) in Some (err, x\<lparr>rsWorld := w\<rparr>))))"

definition ProcessDeliveryWithPriority ::
  "env \<Rightarrow> msg_router \<Rightarrow> ctxid \<Rightarrow> bool \<Rightarrow> background list \<Rightarrow> delivery \<Rightarrow> string \<Rightarrow> route_state \<Rightarrow>
   (goerr option \<times> route_state) option" where
  "ProcessDeliveryWithPriority e r ctx preferDone bgs d queueName x =
     RouteDelivery e r ctx preferDone bgs d queueName x"

section \<open>The caller's view follows the step relation\<close>

definition solo :: "string \<Rightarrow> message list \<Rightarrow> client_pc \<Rightarrow> scheduler \<Rightarrow> world \<Rightarrow> sched_system" where
  "solo q ms pc s w = \<lparr>sched = s, clients = [\<lparr>cliQueue = q, cliMsgs = ms, cliPc = pc\<rparr>], schedWorld = w\<rparr>"

lemma solo_fields [simp]:
  "sched (solo q ms pc s w) = s" "schedWorld (solo q ms pc s w) = w"
  "clients (solo q ms pc s w) = [\<lparr>cliQueue = q, cliMsgs = ms, cliPc = pc\<rparr>]"
  by (simp_all add: solo_def)

lemma solo_upd:
  "(solo q ms pc s w)\<lparr>sched := s', schedWorld := w'\<rparr> = solo q ms pc s' w'"
  "(solo q ms pc s w)\<lparr>sched := s'\<rparr> = solo q ms pc s' w"
  "(solo q ms pc s w)\<lparr>schedWorld := w'\<rparr> = solo q ms pc s w'"
  "(solo q ms pc s w)\<lparr>clients := [\<lparr>cliQueue = q, cliMsgs = ms, cliPc = pc'\<rparr>]\<rparr> = solo q ms pc' s w"
  "(solo q ms pc s w)\<lparr>sched := s', clients := [\<lparr>cliQueue = q, cliMsgs = ms, cliPc = pc'\<rparr>], schedWorld := w'\<rparr> = solo q ms pc' s' w'"
  by (simp_all add: solo_def)

lemma solo_applyBg:
  assumes "applyBg e ctx bg s w = Some (s', w')"
  shows "(sched_step e p ctx)\<^sup>*\<^sup>* (solo q ms pc s w) (solo q ms pc s' w')"
proof (cases bg)
  case BgTick
  then show ?thesis using assms sched_step.tick [of e p ctx "solo q ms pc s w"] by (auto simp: solo_upd)
next
  case BgPeriod
  then show ?thesis
    using assms sched_step.new_period [of "solo q ms pc s w" _ _ e p ctx]
    by (auto simp: solo_upd split: list.splits)
next
  case (BgReweigh ws)
  then show ?thesis
    using assms sched_step.reweigh [of e ws "solo q ms pc s w" s' w' p ctx] by (auto simp: solo_upd)
next
  case (BgTune dc)
  then show ?thesis
    using assms sched_step.tune [of dc "solo q ms pc s w" s' e p ctx] by (auto simp: solo_upd)
next
  case BgCancel
  then show ?thesis using assms sched_step.cancel [of e p ctx "solo q ms pc s w"] by (auto simp: solo_upd)
qed

lemma solo_await:
  "awaitCredit e ctx pd c bgs s w = Some (res, s', w') \<Longrightarrow>
   (\<forall>r s2 w2. res = None \<and> processGranted e p ctx q ms s' w' = (r, s2, w2) \<longrightarrow>
      (sched_step e p ctx)\<^sup>*\<^sup>* (solo q ms (WaitCredit c) s w) (solo q ms (Finished r) s2 w2)) \<and>
   (res \<noteq> None \<longrightarrow> (sched_step e p ctx)\<^sup>*\<^sup>* (solo q ms (WaitCredit c) s w)
      (solo q ms (Finished (NewBatchResult, res)) s' w'))"
proof (induction e ctx pd c bgs s w rule: awaitCredit.induct)
  case (1 e ctx pd c bgs s w)
  let ?x = "solo q ms (WaitCredit c) s w"
  consider (credit) "clen (chans s c) > 0 \<and> \<not> (ctxdone w ctx \<and> pd)"
    | (canc) "\<not> (clen (chans s c) > 0 \<and> \<not> (ctxdone w ctx \<and> pd))" "ctxdone w ctx"
    | (wait) bg bgs' s1 w1 where "\<not> (clen (chans s c) > 0 \<and> \<not> (ctxdone w ctx \<and> pd))" "\<not> ctxdone w ctx"
        "bgs = bg # bgs'" "applyBg e ctx bg s w = Some (s1, w1)"
    using "1.prems" by (subst (asm) awaitCredit.simps) (auto split: if_splits list.splits option.splits)
  then show ?case
  proof cases
    case credit
    then have res: "res = None" "w' = w"
      "s' = s\<lparr>chans := (chans s)(c := (chans s c)\<lparr>clen := clen (chans s c) - 1\<rparr>)\<rparr>"
      using "1.prems" credit by (simp_all add: awaitCredit.simps [of e ctx pd c bgs s w])
    show ?thesis
      using sched_step.wake [of 0 ?x c e p ctx] credit by (auto simp: res solo_upd)
  next
    case canc
    then have "res = Some (ErrContext ''context canceled'')" "w' = w" "s' = s"
      using "1.prems" canc by (auto simp: awaitCredit.simps [of e ctx pd c bgs s w])
    then show ?thesis
      using sched_step.give_up [of 0 ?x c ctx e p] canc by (auto simp: solo_upd)
  next
    case wait
    then have "awaitCredit e ctx pd c bgs' s1 w1 = Some (res, s', w')"
      using "1.prems" awaitCredit.simps [of e ctx pd c bgs s w] by simp
    from "1.IH" [OF wait(1,2,3) wait(4) refl this] show ?thesis
      using rtranclp_trans [OF solo_applyBg [OF wait(4), of p q ms "WaitCredit c"]] by blast
  qed
qed


definition sample_scheduler :: scheduler where
  "sample_scheduler = NewPriorityScheduler 1 10 0 0 True"


section \<open>What processing and routing do to the world\<close>

text \<open>\<open>silent w w'\<close>: nothing was settled and nothing published in between.\<close>

definition silent :: "world \<Rightarrow> world \<Rightarrow> bool" where
  "silent w w' \<longleftrightarrow> world_le w w' \<and> settles w w' = [] \<and> accepted (new_events w w') = []"

text \<open>\<open>published ps w w'\<close>: nothing was settled, and exactly the bodies \<open>ps\<close> were accepted.\<close>

definition published :: "plan \<Rightarrow> world \<Rightarrow> world \<Rightarrow> bool" where
  "published ps w w' \<longleftrightarrow> world_le w w' \<and> settles w w' = [] \<and> accepted (new_events w w') = ps"

lemma silent_published: "silent w w' \<longleftrightarrow> published [] w w'"
  by (simp add: silent_def published_def)

lemma published_trans: "published ps a b \<Longrightarrow> published qs b c \<Longrightarrow> published (ps @ qs) a c"
  using new_events_trans [of a b c] world_le_trans [of a b c] by (auto simp: published_def settles_def)

lemma silent_refl [simp, intro]: "silent w w"
  by (simp add: silent_def settles_def)

lemma silent_trans: "silent a b \<Longrightarrow> silent b c \<Longrightarrow> silent a c"
  using published_trans [of "[]" a b "[]" c] by (simp add: silent_published)

lemma published_silent: "silent a b \<Longrightarrow> published ps b c \<Longrightarrow> published ps a c"
  using published_trans [of "[]" a b ps c] by (simp add: silent_published)

lemma published_silent_right: "published ps a b \<Longrightarrow> silent b c \<Longrightarrow> published ps a c"
  using published_trans [of ps a b "[]" c] by (simp add: silent_published)

lemma published_ctxdone: "published ps w w' \<Longrightarrow> ctxdone w c \<Longrightarrow> ctxdone w' c"
  by (simp add: published_def world_le_def)

lemma silent_metric [simp, intro]: "silent w (metric e b m w)"
  by (simp add: silent_def metric_def settles_def)

lemma silent_cancel [simp, intro]: "silent w (cancelContext c w)"
  by (simp add: silent_def settles_def new_events_def)

lemma silent_routeMetric: "silent w (routeMetric e b kind q n w)"
  by (induction n arbitrary: w) (auto intro: silent_trans [OF silent_metric])

lemma silent_schedMetric: "silent w (schedMetric e b q n w)"
  by (induction n arbitrary: w) (auto intro: silent_trans [OF silent_metric])

lemma silent_updateWeights: "updateWeights e ws s w = (s', w') \<Longrightarrow> silent w w'"
proof -
  have "foldl (updateWeight e ws) (s, w) ns = (s', w') \<Longrightarrow> silent w w'" for ns s w
  proof (induction ns arbitrary: s w)
    case (Cons n ns)
    obtain s1 w1 where u: "updateWeight e ws (s, w) n = (s1, w1)" by (cases "updateWeight e ws (s, w) n")
    then have "silent w w1" by (auto simp: updateWeight_def Let_def)
    moreover have "silent w1 w'" using Cons u by simp
    ultimately show ?case by (rule silent_trans)
  qed simp
  then show "updateWeights e ws s w = (s', w') \<Longrightarrow> silent w w'" by (simp add: updateWeights_def)
qed

lemma silent_applyBg: "applyBg e ctx bg s w = Some (s', w') \<Longrightarrow> silent w w'"
  by (cases bg) (auto simp: silent_updateWeights split: list.splits)

lemma silent_await: "awaitCredit e ctx pd c bgs s w = Some (res, s', w') \<Longrightarrow> silent w w' \<and> (res \<noteq> None \<longrightarrow> ctxdone w' ctx)"
proof (induction e ctx pd c bgs s w rule: awaitCredit.induct)
  case (1 e ctx pd c bgs s w)
  show ?case
  proof (cases "clen (chans s c) > 0 \<and> \<not> (ctxdone w ctx \<and> pd) \<or> ctxdone w ctx")
    case True
    then show ?thesis using "1.prems" by (auto simp: awaitCredit.simps [of e ctx pd c bgs s w] split: if_splits)
  next
    case False
    then obtain bg bgs' s1 w1 where b: "bgs = bg # bgs'" "applyBg e ctx bg s w = Some (s1, w1)"
      "awaitCredit e ctx pd c bgs' s1 w1 = Some (res, s', w')"
      using "1.prems" awaitCredit.simps [of e ctx pd c bgs s w] by (auto split: list.splits option.splits)
    have "silent w1 w' \<and> (res \<noteq> None \<longrightarrow> ctxdone w' ctx)"
      using False by (intro "1.IH" [OF _ _ b(1,2) refl b(3)]) auto
    then show ?thesis using silent_trans [OF silent_applyBg [OF b(2)]] by blast
  qed
qed

lemma silent_getOrCreate: "getOrCreateQueueState e q s w = (s', w') \<Longrightarrow> silent w w'"
  by (auto simp: getOrCreateQueueState_def Let_def split: option.splits)

lemma silent_acquire:
  "acquireCredit e ctx pd q s w = (a, s', w') \<Longrightarrow> silent w w' \<and> (\<forall>err. a = Refused err \<longrightarrow> ctxdone w' ctx)"
  by (auto simp: acquireCredit_def Let_def split: if_splits)

text \<open>The outcome of processing messages and publishing their results: \<open>ok\<close> says whether an error
  was returned; the results answer the messages.\<close>

definition processed_as :: "result_handler \<Rightarrow> ctxid \<Rightarrow> message list \<Rightarrow> bool \<Rightarrow> world \<Rightarrow> world \<Rightarrow> bool" where
  "processed_as h ctx msgs ok w w' \<longleftrightarrow>
     (\<exists>b ps. answers msgs (ctxdone w' ctx) (mset (batch_all b)) \<and> batch_wf b \<and> published ps w w' \<and>
        (if ok then ps = results_plan (rhPublisher h) (expire_spec h b)
         else prefix ps (results_plan (rhPublisher h) (expire_spec h b))))"

lemma processed_as_silent:
  assumes "silent a b" and "processed_as h ctx msgs ok b c" and "silent c d"
  shows "processed_as h ctx msgs ok a d"
proof -
  from assms(2) obtain r ps where r: "answers msgs (ctxdone c ctx) (mset (batch_all r))" "batch_wf r"
    "published ps b c" "if ok then ps = results_plan (rhPublisher h) (expire_spec h r)
         else prefix ps (results_plan (rhPublisher h) (expire_spec h r))"
    by (auto simp: processed_as_def)
  have "published ps a d" using published_silent_right [OF published_silent [OF assms(1) r(3)] assms(3)] .
  moreover have "answers msgs (ctxdone d ctx) (mset (batch_all r))"
    using r(1) published_ctxdone assms(3) by (auto simp: silent_published intro: answers_weaken)
  ultimately show ?thesis using r(2,4) unfolding processed_as_def by blast
qed

text \<open>A processor with its settings in range.\<close>

definition proc_ok :: "processor \<Rightarrow> bool" where
  "proc_ok p \<longleftrightarrow> 0 < workerCount p \<and> 0 < sdpBatchSize p \<and> limits_ok (pResultHandler p)"

lemma proc_ok_New [simp]: "proc_ok (NewProcessor cfg) \<longleftrightarrow> limits_ok (pResultHandler cfg)"
  by (simp add: proc_ok_def)

lemma answers_empty: "answers [] c {#}"
  using answers_list_all2 [of "[]" "[]" c] by simp

lemma expire_spec_New [simp]: "expire_spec h NewBatchResult = NewBatchResult"
  by (simp add: expire_spec_def NewBatchResult_def)

lemma ProcessMessages_facts:
  assumes "proc_ok p" and "ProcessMessages e p ctx msgs w = ((b', err), w')"
  shows "processed_as (pResultHandler p) ctx msgs (err = None) w w'"
proof (cases "msgs = []")
  case True
  then have "err = None" "w' = w" using assms(2) by (simp_all add: ProcessMessages_def)
  then show ?thesis
    unfolding processed_as_def True
    by (intro exI [of _ NewBatchResult] exI [of _ "[]"]) (simp add: answers_empty published_def settles_def)
next
  case False
  obtain b w1 where pb: "processBatch e p ctx msgs w = (b, w1)" by (cases "processBatch e p ctx msgs w")
  obtain err' b2 w2 where hb: "HandleBatchResults e (pResultHandler p) ctx b w1 = ((err', b2), w2)"
    by (cases "HandleBatchResults e (pResultHandler p) ctx b w1") auto
  have r: "err = err'" "w' = w2" using assms(2) False pb hb by (auto simp: ProcessMessages_def split: option.splits)
  note f = process_publish [OF _ _ _ pb hb]
  show ?thesis
    using f assms(1) unfolding processed_as_def r published_def proc_ok_def
    by (intro exI [of _ b] exI [of _ "accepted (new_events w w2)"]) (auto split: if_splits)
qed

lemma processGranted_facts:
  assumes "proc_ok p" and "processGranted e p ctx q msgs s w = ((b', err), s', w')"
  shows "processed_as (pResultHandler p) ctx msgs (err = None) w w'"
proof -
  obtain b1 err1 w1 where pm: "ProcessMessages e p ctx msgs w = ((b1, err1), w1)"
    by (cases "ProcessMessages e p ctx msgs w") auto
  have r: "err = err1" and s: "silent w1 w'"
    using assms(2) pm by (auto simp: processGranted_def Let_def silent_schedMetric)
  show ?thesis using processed_as_silent [OF silent_refl ProcessMessages_facts [OF assms(1) pm] s] by (simp add: r)
qed

lemma refused_processed_as:
  assumes "silent w w'" and "ctxdone w' ctx"
  shows "processed_as h ctx msgs False w w'"
proof -
  have "answers msgs True {#}" unfolding answers_def by (intro exI [of _ "{#}"]) (simp add: rel_mset_Zero)
  then show ?thesis
    unfolding processed_as_def using assms
    by (intro exI [of _ NewBatchResult] exI [of _ "[]"]) (simp add: silent_published)
qed

lemma sched_ProcessMessages_facts:
  assumes "proc_ok p" and "sched_ProcessMessages e p ctx pd bgs msgs q s w = Some ((b', err), s', w')"
  shows "processed_as (pResultHandler p) ctx msgs (err = None) w w'"
proof (cases "msgs = []")
  case True
  then have "ProcessMessages e p ctx msgs w = ((b', err), w')"
    using assms(2) by (simp add: sched_ProcessMessages_def ProcessMessages_def)
  then show ?thesis by (rule ProcessMessages_facts [OF assms(1)])
next
  case False
  obtain s1 w1 where g: "getOrCreateQueueState e q s w = (s1, w1)" by (cases "getOrCreateQueueState e q s w")
  obtain a s2 w2 where a: "acquireCredit e ctx pd q s1 w1 = (a, s2, w2)" by (cases "acquireCredit e ctx pd q s1 w1")
  have s2: "silent w w2" using silent_trans [OF silent_getOrCreate [OF g]] silent_acquire [OF a] by blast
  note defs = sched_ProcessMessages_def False g a
  show ?thesis
  proof (cases a)
    case Granted
    then have "processGranted e p ctx q msgs s2 w2 = ((b', err), s', w')" using assms(2) by (simp add: defs)
    from processed_as_silent [OF s2 processGranted_facts [OF assms(1) this] silent_refl] show ?thesis .
  next
    case (Refused x)
    then show ?thesis using assms(2) refused_processed_as [OF s2] silent_acquire [OF a] by (auto simp: defs)
  next
    case (Blocked c)
    then obtain res s3 w3 where aw: "awaitCredit e ctx pd c bgs s2 w2 = Some (res, s3, w3)"
      using assms(2) by (auto simp: defs split: option.splits)
    note s3 = silent_await [OF aw]
    have w3: "silent w w3" using silent_trans [OF s2] s3 by blast
    show ?thesis
    proof (cases res)
      case None
      then have "processGranted e p ctx q msgs s3 w3 = ((b', err), s', w')" using assms(2) Blocked aw by (simp add: defs)
      from processed_as_silent [OF w3 processGranted_facts [OF assms(1) this] silent_refl] show ?thesis .
    next
      case (Some x)
      then show ?thesis using assms(2) refused_processed_as [OF w3] s3 Blocked aw by (auto simp: defs)
    qed
  qed
qed

section \<open>Routing a delivery\<close>

text \<open>The outcome of the fast path: all messages answered, a prefix of the results published.\<close>

definition tx_processed_as :: "result_handler \<Rightarrow> message list \<Rightarrow> world \<Rightarrow> world \<Rightarrow> bool" where
  "tx_processed_as h msgs w w' \<longleftrightarrow>
     (\<exists>b ps. rel_mset tx_contract (mset msgs) (mset (batch_all b)) \<and> batch_wf b \<and> published ps w w' \<and>
        prefix ps (results_plan (rhPublisher h) (expire_spec h b)))"

lemma routeTransactional_facts:
  assumes "mrTransactionalHandler r = Some h" and "0 < hWorkerCount h" and "limits_ok (hResultHandler h)"
    and "routeTransactional e r ctx q ms x = (failed, x')"
  shows "\<not> failed" and "tx_processed_as (hResultHandler h) ms (rsWorld x) (rsWorld x')" and "rsSched x' = rsSched x"
proof -
  have "\<not> failed \<and> tx_processed_as (hResultHandler h) ms (rsWorld x) (rsWorld x') \<and> rsSched x' = rsSched x"
  proof (cases "ms = []")
    case True
    then have "\<not> failed" "x' = x" using assms(4) by (simp_all add: routeTransactional_def)
    then show ?thesis
      unfolding tx_processed_as_def True
      by (auto intro!: exI [of _ NewBatchResult] exI [of _ "[]"] simp: rel_mset_Zero published_def settles_def)
  next
    case False
    let ?w1 = "routeMetric e (mrMetrics r) ''transactional'' q (length ms) (rsWorld x)"
    obtain b st w where t: "tx_ProcessBatch e h ctx ms (rsTxStats x, ?w1) = (b, st, w)"
      by (cases "tx_ProcessBatch e h ctx ms (rsTxStats x, ?w1)") auto
    have r: "\<not> failed" "rsWorld x' = w" "rsSched x' = rsSched x"
      using assms(1,4) False t by (auto simp: routeTransactional_def Let_def)
    from tx_ProcessBatch_facts [OF assms(2,3) t] obtain b0 where
      b0: "rel_mset tx_contract (mset ms) (mset (batch_all b0))" "batch_wf b0" "b = expire_spec (hResultHandler h) b0"
        "published (accepted (new_events ?w1 w)) ?w1 w"
        "prefix (accepted (new_events ?w1 w)) (results_plan (rhPublisher (hResultHandler h)) b)"
      by (auto simp: published_def)
    then show ?thesis
      using r published_silent [OF silent_routeMetric b0(4)] unfolding tx_processed_as_def by blast
  qed
  then show "\<not> failed" and "tx_processed_as (hResultHandler h) ms (rsWorld x) (rsWorld x')" and "rsSched x' = rsSched x"
    by blast+
qed

lemma routePromotional_facts:
  assumes "mrScheduler r = Some p" and "proc_ok p"
    and "routePromotional e r ctx pd bgs q ms x = Some (failed, x')"
  shows "processed_as (pResultHandler p) ctx ms (\<not> failed) (rsWorld x) (rsWorld x')"
proof (cases "ms = []")
  case True
  then have "\<not> failed" "x' = x" using assms(3) by (simp_all add: routePromotional_def)
  then show ?thesis
    unfolding processed_as_def True
    by (auto intro!: exI [of _ NewBatchResult] exI [of _ "[]"] simp: answers_empty published_def settles_def)
next
  case False
  let ?w1 = "routeMetric e (mrMetrics r) ''promotional'' q (length ms) (rsWorld x)"
  obtain b err s w where t: "sched_ProcessMessages e p ctx pd bgs ms q (rsSched x) ?w1 = Some ((b, err), s, w)"
    using assms(1,3) False by (auto simp: routePromotional_def Let_def split: option.splits)
  have r: "failed \<longleftrightarrow> err \<noteq> None" "rsWorld x' = w"
    using assms(1,3) False t by (auto simp: routePromotional_def Let_def)
  show ?thesis
    using processed_as_silent [OF silent_routeMetric sched_ProcessMessages_facts [OF assms(2) t] silent_refl]
    by (simp add: r)
qed

lemma settle_published:
  assumes "published ps w w1" and "is_settle ev" and "accepted1 ev = []"
  shows "settles w (emit e ev w1) = [ev]" "accepted (new_events w (emit e ev w1)) = ps"
  using assms settle_emit [of w w1 e ev] by (simp_all add: published_def)


definition sample_router :: msg_router where
  "sample_router = \<lparr>mrTransactionalHandler = Some (NewTransactionalHandler sample_tx_handler),
     mrScheduler = Some (NewProcessor sample_processor), mrProcessor = None, mrMetrics = True\<rparr>"

definition sample_route_state :: route_state where
  "sample_route_state = \<lparr>rsTxStats = \<lparr>txProcessed = 0, txFailed = 0\<rparr>, rsSched = sample_scheduler,
     rsTransactional = 0, rsPromotional = 0, rsWorld = init_world\<rparr>"

abbreviation tx_sample :: message where
  "tx_sample \<equiv> sample_message\<lparr>PackageID := ''TRANSACTIONAL''\<rparr>"

lemma sample_router_ok [simp]:
  "mrTransactionalHandler sample_router = Some (NewTransactionalHandler sample_tx_handler)"
  "mrScheduler sample_router = Some (NewProcessor sample_processor)"
  "limits_ok (hResultHandler sample_tx_handler)"
  by (simp_all add: sample_router_def sample_tx_handler_def sample_handler_def limits_ok_static)


section \<open>What the fast path does not promise\<close>

text \<open>A broker that refuses every publication.\<close>

definition refusing :: "env \<Rightarrow> bool" where
  "refusing e \<longleftrightarrow> (\<forall>t c q b. amqpPublish e t c q b \<noteq> None)"

definition no_accept :: "event \<Rightarrow> bool" where
  "no_accept ev \<longleftrightarrow> accepted1 ev = []"

lemma frame_no_accept: "frame no_accept w w' \<Longrightarrow> accepted (new_events w w') = []"
  by (erule frame_silent(2)) (simp add: no_accept_def)

lemma refusing_publish:
  assumes "refusing e"
  shows "frame no_accept w (snd (publish e ctx q b w)) \<and> fst (publish e ctx q b w) \<noteq> None"
proof -
  have "fst (publish e ctx q b w) \<noteq> None"
    using assms by (auto simp: publish_def refusing_def Let_def split: prod.splits option.splits)
  then show ?thesis
    using publish_contract [of w e ctx q b] by (auto simp: frame_def accepted_def list_all_iff no_accept_def)
qed

lemma refusing_run_plan: "refusing e \<Longrightarrow> frame no_accept w (snd (run_plan e ctx ps w))"
proof (cases ps)
  case (Cons a ps')
  assume "refusing e"
  then show ?thesis
    using refusing_publish [of e w ctx "fst a" "snd a"] by (cases a) (auto simp: Cons split: prod.splits option.splits)
qed simp

lemma refusing_tx_ProcessBatch:
  assumes "refusing e" and "limits_ok (hResultHandler h)"
  shows "frame no_accept w (snd (snd (tx_ProcessBatch e h ctx ms (st, w))))"
proof -
  have 1: "frame no_accept w (snd (pworld (pool_run (tx_pool e h) pk (pool_prefilled ms n True (st, w)))))" for pk n
    using tx_pool_progress [OF refl, of st w e h pk ms n] tx_event_silent
    by (auto simp: tx_progress_def no_accept_def intro: frame_mono)
  have 2: "frame no_accept v (snd (HandleBatchResults e (hResultHandler h) ctx b v))" for b v
    using refusing_run_plan [OF assms(1)]
    by (simp add: HandleBatchResults_eq [OF assms(2)] PublishBatchResults_plan Let_def case_prod_beta)
  show ?thesis
    by (simp add: tx_ProcessBatch_def Let_def case_prod_beta) (use frame_trans [OF 1 2] in blast)
qed

text \<open>C22. The fast path acknowledges what it could not publish: a delivery of transactional messages
  is always acknowledged, whatever became of the publication of its results; if the broker refuses
  every publication the messages are in no queue at all afterwards, although they are acknowledged.\<close>

theorem RouteDelivery_acks_unpublished:
  assumes "mrTransactionalHandler r = Some (NewTransactionalHandler h)" and "limits_ok (hResultHandler h)"
    and "dMessages d \<noteq> []" and "list_all IsTransactional (dMessages d)"
  shows "\<exists>x' t. RouteDelivery e r ctx preferDone bgs d queueName x = Some (t, x') \<and>
     settles (rsWorld x) (rsWorld x') = [EvAck (dTag d) t] \<and>
     (refusing e \<longrightarrow> accepted (new_events (rsWorld x) (rsWorld x')) = [])"
proof -
  let ?h = "NewTransactionalHandler h"
  have h: "0 < hWorkerCount ?h" "hResultHandler ?h = hResultHandler h" by (simp_all add: NewTransactionalHandler_def)
  have f: "filter IsTransactional (dMessages d) = dMessages d" "filter (\<lambda>m. \<not> IsTransactional m) (dMessages d) = []"
    using assms(4) by (auto simp: list_all_iff filter_id_conv filter_empty_conv)
  let ?w1 = "routeMetric e (mrMetrics r) ''transactional'' queueName (length (dMessages d)) (rsWorld x)"
  obtain b st w where t: "tx_ProcessBatch e ?h ctx (dMessages d) (rsTxStats x, ?w1) = (b, st, w)"
    by (cases "tx_ProcessBatch e ?h ctx (dMessages d) (rsTxStats x, ?w1)") auto
  obtain f1 x1 where tr: "routeTransactional e r ctx queueName (dMessages d) x = (f1, x1)" and w: "rsWorld x1 = w"
    using assms(1,3) t by (simp add: routeTransactional_def Let_def)
  note tf = routeTransactional_facts [OF assms(1) h(1) _ tr]
  from tf(2) assms(2) obtain ps where ps: "published ps (rsWorld x) w" by (auto simp: tx_processed_as_def h w)
  let ?t = "amqpAck e (trace w) (dTag d)"
  have r: "RouteDelivery e r ctx preferDone bgs d queueName x =
      Some (?t, x1\<lparr>rsWorld := emit e (EvAck (dTag d) ?t) w\<rparr>)"
    using assms(2,3) tr tf(1) f by (simp add: RouteDelivery_def routePromotional_def d_Ack_def Let_def w h)
  have "ps = []" if "refusing e"
  proof -
    have "accepted (new_events ?w1 w) = []"
      using refusing_tx_ProcessBatch [OF that, of ?h ?w1 ctx "dMessages d" "rsTxStats x"] assms(2) t
      by (simp add: h frame_no_accept)
    moreover have "silent (rsWorld x) ?w1" by (rule silent_routeMetric)
    moreover have "world_le ?w1 w" using tx_ProcessBatch_facts [OF h(1) _ t] assms(2) by (auto simp: h)
    ultimately show ?thesis using ps new_events_trans [of "rsWorld x" ?w1 w] by (simp add: published_def silent_def)
  qed
  moreover have "settles (rsWorld x) (emit e (EvAck (dTag d) ?t) w) = [EvAck (dTag d) ?t]"
    "accepted (new_events (rsWorld x) (emit e (EvAck (dTag d) ?t) w)) = ps"
    by (rule settle_published [OF ps]; simp)+
  ultimately show ?thesis using r by auto
qed

theorem RouteDelivery_acks_unpublished_witness:
  "let e = base_env\<lparr>amqpPublish := \<lambda>_ _ _ _. Some (ErrExternal ''channel/connection is not open'')\<rparr> in
   \<exists>x' t. RouteDelivery e sample_router AppCtx False [] \<lparr>dTag = 3, dMessages = [tx_sample]\<rparr> ''Q'' sample_route_state = Some (t, x') \<and>
     settles init_world (rsWorld x') = [EvAck 3 t] \<and> accepted (new_events init_world (rsWorld x')) = []"
proof -
  let ?e = "base_env\<lparr>amqpPublish := \<lambda>_ _ _ _. Some (ErrExternal ''channel/connection is not open'')\<rparr>"
  have t: "list_all IsTransactional [tx_sample]" by code_simp
  have "refusing ?e" by (simp add: refusing_def)
  then show ?thesis
    using RouteDelivery_acks_unpublished [OF sample_router_ok(1,3), of "\<lparr>dTag = 3, dMessages = [tx_sample]\<rparr>" ?e AppCtx False
        "[]" "''Q''" sample_route_state] t by (simp add: sample_route_state_def)
qed

end
