(* ===== verification/At_Processor.thy ===== *)
theory At_Processor
  imports At_Reporter Message_Router
begin

text \<open>
  \<^verbatim>\<open>internal/sms/service/africas_talking_processor.go\<close>: sends each message of a delivery once,
  then saves and reports its result, retrying only these two steps, in process and with exponential
  backoff. The message and \<^verbatim>\<open>result.Message\<close> are the same object, so what is dead-lettered carries
  the status of the result.
\<close>

record at_processor =
  apSender :: at_sender
  apReporter :: at_reporter
  apLimiter :: "limiter option"
  apMetrics :: bool
  apPublisher :: bool
  apSaveToDBQueue :: string
  apDeadLetterQueue :: string
  maxReportRetries :: int
  reportRetryBaseDelay :: int
  reportRetryMaxDelay :: int

datatype message_outcome = OutcomeAck | OutcomeNackRequeue | OutcomeNackDrop

definition NewAfricasTalkingProcessor :: "at_processor \<Rightarrow> at_processor" where
  "NewAfricasTalkingProcessor cfg =
     cfg\<lparr>maxReportRetries := (if maxReportRetries cfg \<le> 0 then 5 else maxReportRetries cfg),
         reportRetryBaseDelay := (if reportRetryBaseDelay cfg \<le> 0 then 2 * 10 ^ 9 else reportRetryBaseDelay cfg),
         reportRetryMaxDelay := (if reportRetryMaxDelay cfg \<le> 0 then 60 * 10 ^ 9 else reportRetryMaxDelay cfg)\<rparr>"

text \<open>\<^verbatim>\<open>base * time.Duration(uint(1) << uint(attempt-1))\<close>: the shift is on 64 bits, the conversion
  and the product wrap around.\<close>

definition retryBackoff :: "at_processor \<Rightarrow> int \<Rightarrow> int" where
  "retryBackoff p attempt =
     (let attempt = (if attempt < 1 then 1 else attempt);
          shifted = 2 ^ nat (attempt - 1) mod 2 ^ 64;
          backoff = wrap64 (reportRetryBaseDelay p * wrap64 shifted) in
      if reportRetryMaxDelay p > 0 \<and> backoff > reportRetryMaxDelay p then reportRetryMaxDelay p else backoff)"

text \<open>The loop of \<^verbatim>\<open>retryInProcess\<close>. Its \<^verbatim>\<open>select\<close> has both cases ready when the context is done
  and the delay is not positive; it then takes either.\<close>

function retryLoop ::
  "env \<Rightarrow> at_processor \<Rightarrow> ctxid \<Rightarrow> (world \<Rightarrow> goerr option \<times> world) \<Rightarrow> int \<Rightarrow> world \<Rightarrow> goerr option \<times> world" where
  "retryLoop e p ctx fn attempt w =
     (case fn w of
        (None, w) \<Rightarrow> (None, w)
      | (Some err, w) \<Rightarrow>
          if attempt > maxReportRetries p then (Some err, w)
          else
            (let backoff = retryBackoff p attempt in
             if ctxdone w ctx \<and> (backoff > 0 \<or> pick e (trace w) 0 mod 2 = 0) then
               (Some (ErrContext ''context canceled''), w)
             else
               (let w = emit e (EvSleep backoff) w in
                if ctxdone w ctx \<and> backoff > 0 then (Some (ErrContext ''context canceled''), w)
                else retryLoop e p ctx fn (attempt + 1) w)))"
  by pat_completeness auto
termination
  by (relation "measure (\<lambda>(e, p, ctx, fn, attempt, w). nat (maxReportRetries p + 1 - attempt))") auto

declare retryLoop.simps [simp del]

definition retryInProcess ::
  "env \<Rightarrow> at_processor \<Rightarrow> ctxid \<Rightarrow> (world \<Rightarrow> goerr option \<times> world) \<Rightarrow> world \<Rightarrow> goerr option \<times> world" where
  "retryInProcess e p ctx fn w = retryLoop e p ctx fn 1 w"

definition finalizeExhausted ::
  "env \<Rightarrow> at_processor \<Rightarrow> ctxid \<Rightarrow> message \<Rightarrow> world \<Rightarrow> message_outcome \<times> world" where
  "finalizeExhausted e p ctx msg w =
     (if ctxdone w ctx then (OutcomeNackRequeue, w)
      else if apPublisher p \<and> apDeadLetterQueue p \<noteq> [] then
        (case Publish e ctx (apDeadLetterQueue p) msg w of (_, w) \<Rightarrow> (OutcomeNackDrop, w))
      else (OutcomeNackDrop, w))"

text \<open>What follows the send: saving, then reporting.\<close>

definition at_saveStep :: "env \<Rightarrow> at_processor \<Rightarrow> ctxid \<Rightarrow> send_result \<Rightarrow> world \<Rightarrow> goerr option \<times> world" where
  "at_saveStep e p ctx result w =
     (if apPublisher p \<and> (IsSuccess result \<or> IsPermanent result) then
        retryInProcess e p ctx (Publish e ctx (apSaveToDBQueue p) (rMessage result)) w
      else (None, w))"

definition at_downstream ::
  "env \<Rightarrow> at_processor \<Rightarrow> ctxid \<Rightarrow> send_result \<Rightarrow> world \<Rightarrow> message_outcome \<times> world" where
  "at_downstream e p ctx result w =
     (case at_saveStep e p ctx result w of
        (Some err, w) \<Rightarrow> finalizeExhausted e p ctx (rMessage result) w
      | (None, w) \<Rightarrow>
          (case retryInProcess e p ctx (Report e (apReporter p) ctx result) w of
             (Some err, w) \<Rightarrow> finalizeExhausted e p ctx (rMessage result) w
           | (None, w) \<Rightarrow> (OutcomeAck, w)))"

definition at_waitRate :: "env \<Rightarrow> at_processor \<Rightarrow> ctxid \<Rightarrow> world \<Rightarrow> goerr option \<times> world" where
  "at_waitRate e p ctx w =
     (case apLimiter p of
        None \<Rightarrow> (None, w)
      | Some l \<Rightarrow> rl_Wait e l ctx NetworkINTNL w)"

definition at_processMessage ::
  "env \<Rightarrow> at_processor \<Rightarrow> ctxid \<Rightarrow> message \<Rightarrow> at_world \<Rightarrow> message_outcome \<times> at_world" where
  "at_processMessage e p ctx msg aw =
     (let msg = Clone msg; (depleted, w) = aw in
      case Validate msg of
        Some err \<Rightarrow> (OutcomeNackDrop, aw)
      | None \<Rightarrow>
          if OutboxID msg \<le> 0 then (OutcomeNackDrop, aw)
          else
            (case at_waitRate e p ctx w of
               (Some err, w) \<Rightarrow>
                 (OutcomeNackRequeue, depleted, metric e (apMetrics p) (IncRateLimitHits NetworkINTNL) w)
             | (None, w) \<Rightarrow>
                 (let (result, depleted, w) = at_Send e (apSender p) ctx msg (depleted, w);
                      (outcome, w) = at_downstream e p ctx result w
                  in (outcome, depleted, w))))"

text \<open>The loop over the messages of a delivery: the flags \<^verbatim>\<open>requeue\<close> and \<^verbatim>\<open>drop\<close>.\<close>

fun at_loop ::
  "env \<Rightarrow> at_processor \<Rightarrow> ctxid \<Rightarrow> message list \<Rightarrow> bool \<times> bool \<Rightarrow> at_world \<Rightarrow> (bool \<times> bool) \<times> at_world" where
  "at_loop e p ctx [] flags aw = (flags, aw)"
| "at_loop e p ctx (msg # msgs) (requeue, drop') aw =
     (case at_processMessage e p ctx msg aw of
        (OutcomeAck, aw) \<Rightarrow> at_loop e p ctx msgs (requeue, drop') aw
      | (OutcomeNackRequeue, aw) \<Rightarrow> at_loop e p ctx msgs (True, drop') aw
      | (OutcomeNackDrop, aw) \<Rightarrow> at_loop e p ctx msgs (requeue, True) aw)"

definition at_ProcessDelivery ::
  "env \<Rightarrow> at_processor \<Rightarrow> ctxid \<Rightarrow> delivery \<Rightarrow> at_world \<Rightarrow> goerr option \<times> at_world" where
  "at_ProcessDelivery e p ctx d aw =
     (let messages = dMessages d in
      if length messages = 0 then (case d_Ack e d (snd aw) of (err, w) \<Rightarrow> (err, fst aw, w))
      else
        (let ((requeue, drop'), depleted, w) = at_loop e p ctx messages (False, False) aw in
         case (if requeue then d_Nack e d True w
               else if drop' then d_Nack e d False w
               else d_Ack e d w) of
           (err, w) \<Rightarrow> (err, depleted, w)))"

section \<open>Backoff\<close>

text \<open>Backoff: as long as \<open>base * 2 ^ (attempt - 1)\<close> fits into 64 bits, the delay before the next
  attempt is that product, capped at the maximal delay, and it is positive; it never decreases from
  one such attempt to the next. With the default delays this covers the first 33 attempts; at
  attempt 34 the product wraps around to a negative delay, which \<^verbatim>\<open>time.After\<close> takes as zero.\<close>

theorem retryBackoff_bounds:
  assumes "p = NewAfricasTalkingProcessor cfg" and "1 \<le> attempt"
    and "reportRetryBaseDelay p * 2 ^ nat (attempt - 1) < 2 ^ 63"
  shows "retryBackoff p attempt = min (reportRetryMaxDelay p) (reportRetryBaseDelay p * 2 ^ nat (attempt - 1)) \<and>
    0 < retryBackoff p attempt \<and> retryBackoff p attempt \<le> reportRetryMaxDelay p \<and>
    (\<forall>k. 1 \<le> k \<and> k \<le> attempt \<longrightarrow> retryBackoff p k \<le> retryBackoff p attempt)"
proof -
  let ?b = "reportRetryBaseDelay p"
  have b: "1 \<le> ?b" and m: "0 < reportRetryMaxDelay p" using assms(1) by (simp_all add: NewAfricasTalkingProcessor_def)
  have eq: "retryBackoff p k = min (reportRetryMaxDelay p) (?b * 2 ^ nat (k - 1))" if k: "1 \<le> k" "k \<le> attempt" for k
  proof -
    have le: "(2::int) ^ nat (k - 1) \<le> 2 ^ nat (attempt - 1)" using k by (intro power_increasing) auto
    have "(2::int) ^ nat (k - 1) \<le> ?b * 2 ^ nat (k - 1)" using b by simp
    also have bk: "?b * 2 ^ nat (k - 1) \<le> ?b * 2 ^ nat (attempt - 1)" using le b by (intro mult_left_mono) auto
    finally have "(2::int) ^ nat (k - 1) < 2 ^ 63" using assms(3) by simp
    moreover from this have "(2::int) ^ nat (k - 1) mod 2 ^ 64 = 2 ^ nat (k - 1)" by simp
    moreover have "wrap64 (2 ^ nat (k - 1)) = 2 ^ nat (k - 1)"
    proof (rule wrap64_id)
      have "(0::int) < 2 ^ nat (k - 1)" by simp
      with calculation(1) show "int64 (2 ^ nat (k - 1))" by linarith
    qed
    moreover have "wrap64 (?b * 2 ^ nat (k - 1)) = ?b * 2 ^ nat (k - 1)"
    proof (rule wrap64_id)
      have "0 < ?b * 2 ^ nat (k - 1)" using b by simp
      with bk assms(3) show "int64 (?b * 2 ^ nat (k - 1))" by linarith
    qed
    ultimately show ?thesis using k m by (simp add: retryBackoff_def Let_def min_def)
  qed
  have "retryBackoff p k \<le> retryBackoff p attempt" if "1 \<le> k" "k \<le> attempt" for k
  proof -
    have "?b * 2 ^ nat (k - 1) \<le> ?b * 2 ^ nat (attempt - 1)" using b that by (intro mult_left_mono power_increasing) auto
    then show ?thesis using eq [of k] eq [of attempt] that by (simp add: min_def)
  qed
  moreover have "0 < ?b * 2 ^ nat (attempt - 1)" using b by simp
  ultimately show ?thesis using eq [of attempt] assms(2) m by (simp add: min_def)
qed

definition sample_at_processor :: at_processor where
  "sample_at_processor = \<lparr>apSender = NewAfricasTalkingSender sample_at, apReporter = \<lparr>repURL = ''https://api'', repToken = ''t''\<rparr>,
     apLimiter = Some (rl_New None), apMetrics = True, apPublisher = True, apSaveToDBQueue = ''SAVE_TO_DB'',
     apDeadLetterQueue = ''DLQ'', maxReportRetries = 0, reportRetryBaseDelay = 0, reportRetryMaxDelay = 0\<rparr>"

theorem retryBackoff_bounds_witness:
  "retryBackoff (NewAfricasTalkingProcessor sample_at_processor) 3 = 8 * 10 ^ 9 \<and>
   retryBackoff (NewAfricasTalkingProcessor sample_at_processor) 33 = 60 * 10 ^ 9 \<and>
   retryBackoff (NewAfricasTalkingProcessor sample_at_processor) 34 < 0"
proof -
  let ?p = "NewAfricasTalkingProcessor sample_at_processor"
  have f: "reportRetryBaseDelay ?p = 2 * 10 ^ 9" "reportRetryMaxDelay ?p = 60 * 10 ^ 9"
    by (simp_all add: NewAfricasTalkingProcessor_def sample_at_processor_def)
  have "retryBackoff ?p 34 < 0" by code_simp
  then show ?thesis
    using retryBackoff_bounds [OF refl, of 3 sample_at_processor] retryBackoff_bounds [OF refl, of 33 sample_at_processor] f
    by (simp add: min_def)
qed

section \<open>Retrying a step\<close>

text \<open>Induction over the loop, with the number \<open>k\<close> of retries that are left: it ends with the
  result of a call, or with the error of the context after a failed call, or it sleeps and goes on.\<close>

lemma retryLoop_rule:
  assumes ret: "\<And>k w r w1. fn w = (r, w1) \<Longrightarrow> Q k w r w1"
    and canc: "\<And>k w err w1. fn w = (Some err, w1) \<Longrightarrow> Q k w (Some (ErrContext ''context canceled'')) w1"
    and canc_sleep: "\<And>k w err w1 d. fn w = (Some err, w1) \<Longrightarrow>
      Q k w (Some (ErrContext ''context canceled'')) (emit e (EvSleep d) w1)"
    and again: "\<And>k w err w1 d r w'. fn w = (Some err, w1) \<Longrightarrow> Q k (emit e (EvSleep d) w1) r w' \<Longrightarrow> Q (Suc k) w r w'"
    and run: "retryLoop e p ctx fn attempt w = (r, w')"
  shows "Q (nat (maxReportRetries p + 1 - attempt)) w r w'"
  using run
proof (induction "nat (maxReportRetries p + 1 - attempt)" arbitrary: attempt w)
  case 0
  obtain r1 w1 where f: "fn w = (r1, w1)" by (cases "fn w")
  with 0 show ?case
    by (cases r1) (auto simp: retryLoop.simps [of e p ctx fn attempt w] Let_def intro: ret)
next
  case (Suc k)
  let ?b = "retryBackoff p attempt"
  obtain r1 w1 where f: "fn w = (r1, w1)" by (cases "fn w")
  show ?case
  proof (cases r1)
    case None
    then show ?thesis using f Suc.prems ret by (simp add: retryLoop.simps [of e p ctx fn attempt w])
  next
    case (Some err)
    have le: "\<not> maxReportRetries p < attempt" "k = nat (maxReportRetries p + 1 - (attempt + 1))"
      "nat (maxReportRetries p + 1 - attempt) = Suc k" using Suc.hyps(2) by auto
    let ?w2 = "emit e (EvSleep ?b) w1"
    show ?thesis
    proof (cases "ctxdone w1 ctx \<and> (?b > 0 \<or> pick e (trace w1) 0 mod 2 = 0) \<or> ctxdone ?w2 ctx \<and> ?b > 0")
      case True
      then have "r = Some (ErrContext ''context canceled'') \<and> (w' = w1 \<or> w' = ?w2)"
        using f Some Suc.prems le(1) by (auto simp: retryLoop.simps [of e p ctx fn attempt w] Let_def split: if_splits)
      then show ?thesis using f Some canc canc_sleep by blast
    next
      case False
      then have "retryLoop e p ctx fn (attempt + 1) ?w2 = (r, w')"
        using f Some Suc.prems le(1) by (auto simp: retryLoop.simps [of e p ctx fn attempt w] Let_def split: if_splits)
      from Suc.hyps(1) [OF le(2) this] show ?thesis using f Some again le(2,3) by metis
    qed
  qed
qed

lemma retryInProcess_rule:
  assumes "\<And>k w r w1. fn w = (r, w1) \<Longrightarrow> Q k w r w1"
    and "\<And>k w err w1. fn w = (Some err, w1) \<Longrightarrow> Q k w (Some (ErrContext ''context canceled'')) w1"
    and "\<And>k w err w1 d. fn w = (Some err, w1) \<Longrightarrow>
      Q k w (Some (ErrContext ''context canceled'')) (emit e (EvSleep d) w1)"
    and "\<And>k w err w1 d r w'. fn w = (Some err, w1) \<Longrightarrow> Q k (emit e (EvSleep d) w1) r w' \<Longrightarrow> Q (Suc k) w r w'"
    and "retryInProcess e p ctx fn w = (r, w')"
  shows "Q (nat (maxReportRetries p)) w r w'"
  using retryLoop_rule [of fn Q e p ctx 1 w r w'] assms by (simp add: retryInProcess_def)

lemma retryInProcess_frame:
  assumes "retryInProcess e p ctx fn w = (r, w')"
    and fn: "\<And>w r w1. fn w = (r, w1) \<Longrightarrow> frame P w w1" and sl: "\<And>d. P (EvSleep d)"
  shows "frame P w w'"
proof (rule retryInProcess_rule [where Q = "\<lambda>k w r w'. frame P w w'", OF _ _ _ _ assms(1)])
  fix w err w1 d r w' assume "fn w = (Some err, w1)" "frame P (emit e (EvSleep d) w1) w'"
  then show "frame P w w'" using frame_trans [of P w "emit e (EvSleep d) w1" w'] fn sl by simp
qed (auto dest: fn simp: sl)

text \<open>Success means that a call succeeded, and it was the last thing that happened.\<close>

lemma retryInProcess_success:
  assumes "retryInProcess e p ctx fn w = (None, w')" and le: "\<And>w r w1. fn w = (r, w1) \<Longrightarrow> world_le w w1"
  shows "\<exists>w0. world_le w w0 \<and> fn w0 = (None, w')"
proof -
  have "r = None \<longrightarrow> (\<exists>w0. world_le w w0 \<and> fn w0 = (None, w'))" if "retryInProcess e p ctx fn w = (r, w')" for r w'
  proof (rule retryInProcess_rule [where Q = "\<lambda>k w r w'. r = None \<longrightarrow> (\<exists>w0. world_le w w0 \<and> fn w0 = (None, w'))", OF _ _ _ _ that])
    fix w err w1 d r w'
    assume "fn w = (Some err, w1)" "r = None \<longrightarrow> (\<exists>w0. world_le (emit e (EvSleep d) w1) w0 \<and> fn w0 = (None, w'))"
    then show "r = None \<longrightarrow> (\<exists>w0. world_le w w0 \<and> fn w0 = (None, w'))"
      using world_le_trans [of w "emit e (EvSleep d) w1"] le by (meson world_le_emit_trans)
  qed auto
  then show ?thesis using assms(1) by blast
qed

text \<open>A bound on the number of events of a kind, if a call causes at most one.\<close>

lemma retryInProcess_bound:
  assumes "retryInProcess e p ctx fn w = (r, w')"
    and le: "\<And>w r w1. fn w = (r, w1) \<Longrightarrow> world_le w w1 \<and> length (filter P (new_events w w1)) \<le> 1"
    and sl: "\<And>d. \<not> P (EvSleep d)"
  shows "world_le w w' \<and> length (filter P (new_events w w')) \<le> nat (maxReportRetries p) + 1"
proof (rule retryInProcess_rule [where Q = "\<lambda>k w r w'. world_le w w' \<and> length (filter P (new_events w w')) \<le> k + 1", OF _ _ _ _ assms(1)])
  fix k w err w1 d r w'
  assume f: "fn w = (Some err, w1)"
    and h: "world_le (emit e (EvSleep d) w1) w' \<and> length (filter P (new_events (emit e (EvSleep d) w1) w')) \<le> k + 1"
  have le1: "world_le w (emit e (EvSleep d) w1)" using le [OF f] by simp
  have "length (filter P (new_events w (emit e (EvSleep d) w1))) \<le> 1"
    using le [OF f] sl by (simp add: new_events_emit_trans)
  then show "world_le w w' \<and> length (filter P (new_events w w')) \<le> Suc k + 1"
    using h new_events_trans [OF le1, of w'] world_le_trans [OF le1, of w'] by simp
qed (use le sl in \<open>fastforce simp: new_events_emit_trans\<close>)+

section \<open>One message\<close>

text \<open>The events after the send: publishing, reporting and sleeping. Only the send itself posts a
  form.\<close>

fun down_event :: "event \<Rightarrow> bool" where
  "down_event (EvPublish q b r) = True"
| "down_event (EvChannel r) = True"
| "down_event (EvSleep d) = True"
| "down_event (EvHttp req out) = (\<exists>j. hBody req = JsonBody j)"
| "down_event _ = False"

fun is_send :: "event \<Rightarrow> bool" where
  "is_send (EvHttp req out) = (\<exists>f. hBody req = FormBody f)"
| "is_send _ = False"

definition sends :: "world \<Rightarrow> world \<Rightarrow> event list" where
  "sends w w' = filter is_send (new_events w w')"

lemma sends_http: "sends w w' = filter is_send (http_calls w w')"
proof -
  have "is_send ev \<Longrightarrow> is_http ev" for ev by (cases ev) auto
  then show ?thesis by (auto simp: sends_def http_calls_def intro: filter_cong)
qed

lemma down_event_silent: "down_event ev \<Longrightarrow> \<not> is_send ev \<and> \<not> is_settle ev"
  by (cases ev) auto

lemma Report_down:
  assumes "Report e r ctx result w = (err, w')"
  shows "frame down_event w w'"
  using assms by (auto simp: Report_def http_Do_def Let_def report_request_def
      split: option.splits http_outcome.splits if_splits)

lemma Publish_down:
  assumes "Publish e ctx q m w = (err, w')"
  shows "frame down_event w w'"
proof -
  have "frame publisher_event w w'"
    using publish_contract [of w e ctx q "BodyObject (wire m)"] assms by (simp add: Publish_def)
  moreover have "publisher_event ev \<Longrightarrow> down_event ev" for ev by (cases ev) auto
  ultimately show ?thesis by (rule frame_mono)
qed

lemma Publish_accepted:
  assumes "Publish e ctx q m w = (None, w')"
  shows "accepted (new_events w w') = [(q, BodyObject (wire m))]"
  using publish_contract [of w e ctx q "BodyObject (wire m)"] assms by (simp add: Publish_def)

lemma finalizeExhausted_facts:
  assumes "finalizeExhausted e p ctx m w = (oc, w')"
  shows "frame down_event w w'" and "oc \<noteq> OutcomeAck"
    and "\<not> ctxdone w ctx \<and> apPublisher p \<and> apDeadLetterQueue p \<noteq> [] \<Longrightarrow>
      oc = OutcomeNackDrop \<and> (\<exists>err. Publish e ctx (apDeadLetterQueue p) m w = (err, w'))"
  using assms Publish_down by (auto simp: finalizeExhausted_def split: if_splits prod.splits)

text \<open>A message is handled when its result was reported and, unless it is retryable, saved.\<close>

definition at_handled :: "at_processor \<Rightarrow> message \<Rightarrow> event list \<Rightarrow> bool" where
  "at_handled p m es \<longleftrightarrow>
     (\<exists>result. send_contract m result \<and> (\<exists>x \<in> set es. reported (apReporter p) result x) \<and>
        (apPublisher p \<and> \<not> IsRetryable result \<longrightarrow>
           (apSaveToDBQueue p, BodyObject (wire (rMessage result))) \<in> set (accepted es)))"

lemma at_handled_mono: "at_handled p m es \<Longrightarrow> at_handled p m (as @ es @ bs)"
  by (auto simp: at_handled_def)

lemma at_saveStep_facts:
  assumes "at_saveStep e p ctx result w = (err, w')"
  shows "frame down_event w w'"
    and "err = None \<and> apPublisher p \<and> \<not> IsRetryable result \<Longrightarrow>
      (apSaveToDBQueue p, BodyObject (wire (rMessage result))) \<in> set (accepted (new_events w w'))"
proof -
  let ?fn = "Publish e ctx (apSaveToDBQueue p) (rMessage result)"
  show f: "frame down_event w w'"
    using assms retryInProcess_frame [where P = down_event and fn = ?fn] Publish_down
    by (auto simp: at_saveStep_def split: if_splits)
  assume a: "err = None \<and> apPublisher p \<and> \<not> IsRetryable result"
  then have "IsSuccess result \<or> IsPermanent result"
    by (cases "rType result") (auto simp: IsSuccess_def IsPermanent_def IsRetryable_def)
  with a assms have "retryInProcess e p ctx ?fn w = (None, w')" by (simp add: at_saveStep_def)
  then obtain w0 where w0: "world_le w w0" "?fn w0 = (None, w')"
    using retryInProcess_success [where fn = ?fn] Publish_down frame_world_le by metis
  have "world_le w0 w'" using Publish_down [OF w0(2)] by (rule frame_world_le)
  then show "(apSaveToDBQueue p, BodyObject (wire (rMessage result))) \<in> set (accepted (new_events w w'))"
    using new_events_trans [OF w0(1), of w'] Publish_accepted [OF w0(2)] by simp
qed

lemma Report_http_bound:
  assumes "Report e r ctx result w = (err, w')"
  shows "world_le w w' \<and> length (filter is_http (new_events w w')) \<le> 1"
  using Report_facts(1,3) [OF assms] by (auto simp: quiet_le http_calls_def)

lemma at_downstream_facts:
  assumes "at_downstream e p ctx result w = (oc, w')" and "send_contract m result"
  shows "frame down_event w w'" and "oc = OutcomeAck \<Longrightarrow> at_handled p m (new_events w w')"
proof -
  let ?fn = "Report e (apReporter p) ctx result"
  obtain err1 w1 where s: "at_saveStep e p ctx result w = (err1, w1)" by (cases "at_saveStep e p ctx result w")
  obtain err2 w2 where r: "retryInProcess e p ctx ?fn w1 = (err2, w2)" by (cases "retryInProcess e p ctx ?fn w1")
  note f1 = at_saveStep_facts(1) [OF s]
  have f2: "frame down_event w1 w2"
    by (rule retryInProcess_frame [OF r Report_down]) simp_all
  have w': "if err1 \<noteq> None then finalizeExhausted e p ctx (rMessage result) w1 = (oc, w')
      else if err2 \<noteq> None then finalizeExhausted e p ctx (rMessage result) w2 = (oc, w')
      else oc = OutcomeAck \<and> w' = w2"
    using assms(1) s r by (auto simp: at_downstream_def split: option.splits)
  then show "frame down_event w w'"
    using frame_trans [OF f1 finalizeExhausted_facts(1)] frame_trans [OF f1 frame_trans [OF f2 finalizeExhausted_facts(1)]]
      frame_trans [OF f1 f2] by (auto split: if_splits)
  assume "oc = OutcomeAck"
  with w' finalizeExhausted_facts(2) have n: "err1 = None" "err2 = None" "w' = w2" by (auto split: if_splits)
  then obtain w0 where w0: "world_le w1 w0" "?fn w0 = (None, w2)"
    using retryInProcess_success [where fn = ?fn] r Report_down frame_world_le by metis
  obtain x where x: "new_events w0 w2 = [x]" "reported (apReporter p) result x" using Report_facts(2) [OF w0(2)] by blast
  have "world_le w0 w2" using Report_down [OF w0(2)] by (rule frame_world_le)
  then have ev: "new_events w w2 = new_events w w1 @ new_events w1 w0 @ [x]"
    using new_events_trans [of w w1 w2] new_events_trans [OF w0(1), of w2] frame_world_le f1 f2 x(1) by simp
  show "at_handled p m (new_events w w')"
    unfolding at_handled_def n(3) ev
    using assms(2) x(2) at_saveStep_facts(2) [OF s] n(1) by (intro exI [of _ result]) auto
qed

lemma at_processMessage_facts:
  assumes "at_processMessage e p ctx m (d, w) = (oc, d', w')"
  shows "world_le w w'" and "settles w w' = []"
    and "sends w w' = [] \<or> (\<exists>out. sends w w' = [EvHttp (at_request (apSender p) m) out])"
    and "oc = OutcomeAck \<Longrightarrow> at_handled p m (new_events w w')"
proof -
  have "world_le w w' \<and> settles w w' = [] \<and>
      (sends w w' = [] \<or> (\<exists>out. sends w w' = [EvHttp (at_request (apSender p) m) out])) \<and>
      (oc = OutcomeAck \<longrightarrow> at_handled p m (new_events w w'))"
  proof (cases "Validate m \<noteq> None \<or> OutboxID m \<le> 0")
    case True
    then have "oc = OutcomeNackDrop" "w' = w" using assms by (auto simp: at_processMessage_def Let_def split: option.splits)
    then show ?thesis by (simp add: settles_def sends_def)
  next
    case False
    obtain r w1 where wr: "at_waitRate e p ctx w = (r, w1)" by (cases "at_waitRate e p ctx w")
    have q: "world_le w w1 \<and> settles w w1 = [] \<and> sends w w1 = []"
      using wr by (auto simp: at_waitRate_def rl_Wait_def bucket_WaitN_def settles_def sends_def Let_def new_events_def
          split: option.splits)
    show ?thesis
    proof (cases r)
      case (Some err)
      then have w: "oc = OutcomeNackRequeue" "w' = metric e (apMetrics p) (IncRateLimitHits NetworkINTNL) w1"
        using assms False wr by (auto simp: at_processMessage_def Let_def)
      show ?thesis using q new_events_emit_trans [of w w1] by (simp add: w metric_def settles_def sends_def)
    next
      case None
      obtain res d2 w2 where s: "at_Send e (apSender p) ctx m (d, w1) = (res, d2, w2)"
        by (cases "at_Send e (apSender p) ctx m (d, w1)") auto
      have ds: "at_downstream e p ctx res w2 = (oc, w')"
        using assms False wr None s by (auto simp: at_processMessage_def Let_def split: prod.splits)
      have c: "send_contract m res" "quiet sender_event w1 w2"
        using at.send_result [of m e "apSender p" ctx d w1] at.send_quiet [of w1 e "apSender p" ctx d m]
        by (simp_all add: at_send_from_def s)
      have hs: "sends w1 w2 = [] \<or> (\<exists>out. sends w1 w2 = [EvHttp (at_request (apSender p) m) out])"
        using at_Send_outcome [OF s] by (auto simp: sends_http at_call_def at_request_def split: if_splits)
      note f = at_downstream_facts [OF ds c(1)]
      have le: "world_le w1 w2" "world_le w2 w'" using c(2) f(1) by (auto intro: quiet_le frame_world_le)
      have ev: "new_events w w' = new_events w w1 @ new_events w1 w2 @ new_events w2 w'"
        using new_events_trans [of w w1 w'] new_events_trans [of w1 w2 w'] q le world_le_trans by simp
      have "settles w1 w2 = []" using frame_silent(1) [OF quiet_frame [OF c(2)]] proc_event_silent sender_proc_event by blast
      moreover have "settles w2 w' = []" "sends w2 w' = []"
        using f(1) down_event_silent frame_silent(1) [OF f(1)]
        by (auto simp: frame_def sends_def list_all_iff filter_empty_conv)
      ultimately have "settles w w' = []" "sends w w' = sends w1 w2"
        using q by (simp_all add: ev settles_def sends_def)
      moreover have "world_le w w'" using q world_le_trans [OF _ world_le_trans [OF le]] by blast
      moreover have "oc = OutcomeAck \<longrightarrow> at_handled p m (new_events w w')"
        using f(2) at_handled_mono [of p m "new_events w2 w'" "new_events w w1 @ new_events w1 w2" "[]"] by (simp add: ev)
      ultimately show ?thesis using hs by simp
    qed
  qed
  then show "world_le w w'" and "settles w w' = []"
    and "sends w w' = [] \<or> (\<exists>out. sends w w' = [EvHttp (at_request (apSender p) m) out])"
    and "oc = OutcomeAck \<Longrightarrow> at_handled p m (new_events w w')" by blast+
qed

section \<open>Deliveries\<close>

text \<open>The sends of a delivery: one request for each message of a subsequence of its messages.\<close>

definition sent_once :: "at_processor \<Rightarrow> message list \<Rightarrow> event list \<Rightarrow> bool" where
  "sent_once p ms es \<longleftrightarrow>
     (\<exists>ms'. subseq ms' ms \<and> list_all2 (\<lambda>m x. \<exists>out. x = EvHttp (at_request (apSender p) m) out) ms' es)"

lemma sent_once_Cons:
  assumes "es1 = [] \<or> (\<exists>out. es1 = [EvHttp (at_request (apSender p) m) out])" and "sent_once p ms es2"
  shows "sent_once p (m # ms) (es1 @ es2)"
proof -
  from assms(2) obtain ms' where ms': "subseq ms' ms"
    "list_all2 (\<lambda>m x. \<exists>out. x = EvHttp (at_request (apSender p) m) out) ms' es2" by (auto simp: sent_once_def)
  show ?thesis
    using assms(1) ms' unfolding sent_once_def
    by (auto intro: exI [of _ ms'] exI [of _ "m # ms'"])
qed

lemma at_loop_facts:
  assumes "at_loop e p ctx ms (rq, dr) (d, w) = ((rq', dr'), d', w')"
  shows "world_le w w' \<and> settles w w' = [] \<and> sent_once p ms (sends w w') \<and> (rq \<longrightarrow> rq') \<and> (dr \<longrightarrow> dr') \<and>
    (\<not> rq' \<and> \<not> dr' \<longrightarrow> list_all (\<lambda>m. at_handled p m (new_events w w')) ms)"
  using assms
proof (induction ms arbitrary: rq dr d w)
  case Nil
  then show ?case by (simp add: settles_def sends_def sent_once_def)
next
  case (Cons m ms)
  obtain oc d1 w1 where pm: "at_processMessage e p ctx m (d, w) = (oc, d1, w1)"
    by (cases "at_processMessage e p ctx m (d, w)") auto
  note f = at_processMessage_facts [OF pm]
  define rq1 where "rq1 = (rq \<or> oc = OutcomeNackRequeue)"
  define dr1 where "dr1 = (dr \<or> oc = OutcomeNackDrop)"
  have "at_loop e p ctx ms (rq1, dr1) (d1, w1) = ((rq', dr'), d', w')"
    using Cons.prems pm by (cases oc) (auto simp: rq1_def dr1_def)
  note ih = Cons.IH [OF this]
  have ev: "new_events w w' = new_events w w1 @ new_events w1 w'" using new_events_trans [OF f(1), of w'] ih by simp
  have "list_all (\<lambda>m. at_handled p m (new_events w w')) (m # ms)" if "\<not> rq' \<and> \<not> dr'"
  proof -
    have "oc = OutcomeAck" using that ih by (cases oc) (auto simp: rq1_def dr1_def)
    then have "at_handled p m (new_events w w')"
      using at_handled_mono [OF f(4), of "[]" "new_events w1 w'"] by (simp add: ev)
    moreover have "list_all (\<lambda>m. at_handled p m (new_events w w')) ms"
      using ih that at_handled_mono [of p _ "new_events w1 w'" "new_events w w1" "[]"] by (auto simp: ev list_all_iff)
    ultimately show ?thesis by simp
  qed
  moreover have "sent_once p (m # ms) (sends w w')"
    using sent_once_Cons [OF f(3)] ih by (simp add: sends_def ev)
  moreover have "world_le w w'" using world_le_trans [OF f(1)] ih by blast
  moreover have "settles w w' = []" using f(2) ih by (simp add: settles_def ev)
  ultimately show ?case using ih by (auto simp: rq1_def dr1_def)
qed


fun is_publish :: "event \<Rightarrow> bool" where
  "is_publish (EvPublish q b r) = True"
| "is_publish _ = False"

lemma Publish_bound:
  assumes "Publish e ctx q m w = (err, w')"
  shows "world_le w w' \<and> length (filter is_publish (new_events w w')) \<le> 1 \<and> http_calls w w' = []"
  using assms
  by (auto simp: Publish_def publish_def getChannel_def conn_NewChannel_def Let_def http_calls_def
      new_events_emit_trans split: option.splits if_splits)

lemma Report_no_publish:
  assumes "Report e r ctx result w = (err, w')"
  shows "filter is_publish (new_events w w') = []"
  using assms by (auto simp: Report_def http_Do_def Let_def split: option.splits http_outcome.splits if_splits)

text \<open>Counting events of a kind over consecutive steps.\<close>

definition at_most :: "(event \<Rightarrow> bool) \<Rightarrow> nat \<Rightarrow> world \<Rightarrow> world \<Rightarrow> bool" where
  "at_most P n w w' \<longleftrightarrow> world_le w w' \<and> length (filter P (new_events w w')) \<le> n"

lemma at_most_trans: "at_most P n a b \<Longrightarrow> at_most P k b c \<Longrightarrow> at_most P (n + k) a c"
  using new_events_trans [of a b c] world_le_trans [of a b c] by (auto simp: at_most_def)

lemma at_most_mono: "at_most P n a b \<Longrightarrow> n \<le> k \<Longrightarrow> at_most P k a b"
  by (simp add: at_most_def)

lemma retryInProcess_at_most:
  assumes "retryInProcess e p ctx fn w = (r, w')" and "\<And>w r w1. fn w = (r, w1) \<Longrightarrow> at_most P 1 w w1"
    and "\<And>d. \<not> P (EvSleep d)"
  shows "at_most P (nat (maxReportRetries p) + 1) w w'"
  using retryInProcess_bound [OF assms(1), where P = P] assms(2,3) by (simp add: at_most_def)

lemma retryInProcess_none:
  assumes "retryInProcess e p ctx fn w = (r, w')" and "\<And>w r w1. fn w = (r, w1) \<Longrightarrow> at_most P 0 w w1"
    and "\<And>d. \<not> P (EvSleep d)"
  shows "at_most P 0 w w'"
proof -
  have "frame (\<lambda>ev. \<not> P ev) w w'"
    by (rule retryInProcess_frame [OF assms(1)])
      (use assms(2,3) in \<open>auto simp: frame_def at_most_def list_all_iff filter_empty_conv\<close>)
  then show ?thesis by (simp add: frame_def at_most_def list_all_iff filter_empty_conv)
qed

text \<open>C37. Downstream retries are bounded: after the send at most \<open>maxReportRetries + 1\<close> reports are
  made, and at most \<open>maxReportRetries + 2\<close> bodies are published, the last one to the dead-letter
  queue; processing returns in every case.\<close>

theorem at_downstream_bounded:
  "let (oc, w') = at_downstream e p ctx result w in
     length (http_calls w w') \<le> nat (maxReportRetries p) + 1 \<and>
     length (filter is_publish (new_events w w')) \<le> nat (maxReportRetries p) + 2"
proof -
  let ?n = "nat (maxReportRetries p) + 1"
  obtain oc w' where ds: "at_downstream e p ctx result w = (oc, w')" by (cases "at_downstream e p ctx result w")
  let ?pub = "Publish e ctx (apSaveToDBQueue p) (rMessage result)" and ?rep = "Report e (apReporter p) ctx result"
  obtain err1 w1 where s: "at_saveStep e p ctx result w = (err1, w1)" by (cases "at_saveStep e p ctx result w")
  obtain err2 w2 where r: "retryInProcess e p ctx ?rep w1 = (err2, w2)" by (cases "retryInProcess e p ctx ?rep w1")
  have pub: "at_most is_publish 1 a b" "at_most is_http 0 a b" if "Publish e ctx q m a = (x, b)" for q m a x b
    using Publish_bound [OF that] by (auto simp: at_most_def http_calls_def)
  have rep: "at_most is_http 1 a b" "at_most is_publish 0 a b" if "?rep a = (x, b)" for a x b
    using Report_http_bound [OF that] Report_no_publish [OF that] by (auto simp: at_most_def)
  have s1: "at_most is_publish ?n w w1 \<and> at_most is_http 0 w w1"
    using s retryInProcess_at_most [where P = is_publish and fn = ?pub] retryInProcess_none [where P = is_http and fn = ?pub] pub
    by (auto simp: at_saveStep_def at_most_def split: if_splits)
  have r1: "at_most is_http ?n w1 w2" "at_most is_publish 0 w1 w2"
    by (rule retryInProcess_at_most [OF r rep(1)]; simp) (rule retryInProcess_none [OF r rep(2)]; simp)
  have fin: "at_most is_publish 1 v v' \<and> at_most is_http 0 v v'"
    if "finalizeExhausted e p ctx (rMessage result) v = (oc, v')" for v v'
    using that pub by (auto simp: finalizeExhausted_def at_most_def split: if_splits prod.splits)
  have "at_most is_publish (?n + 1) w w' \<and> at_most is_http ?n w w'"
  proof -
    consider "finalizeExhausted e p ctx (rMessage result) w1 = (oc, w')"
      | "finalizeExhausted e p ctx (rMessage result) w2 = (oc, w')" | "w' = w2"
      using ds s r by (auto simp: at_downstream_def split: option.splits)
    then show ?thesis
    proof cases
      case 1
      then show ?thesis
        using s1 fin [OF 1] at_most_trans [of is_publish ?n w w1 1 w'] at_most_trans [of is_http 0 w w1 0 w']
        by (auto intro: at_most_mono)
    next
      case 2
      note f = fin [OF 2]
      have "at_most is_publish (0 + 1) w1 w'" "at_most is_http (?n + 0) w1 w'"
        using at_most_trans [OF r1(2)] at_most_trans [OF r1(1)] f by blast+
      then show ?thesis using s1 at_most_trans [of _ _ w w1] by fastforce
    next
      case 3
      then have "at_most is_publish (?n + 0) w w'" "at_most is_http (0 + ?n) w w'"
        using s1 r1 at_most_trans by blast+
      then show ?thesis by (auto intro: at_most_mono)
    qed
  qed
  then show ?thesis by (simp add: ds at_most_def http_calls_def)
qed

end
