(* ===== verification/Priority_Store.thy ===== *)
theory Priority_Store
  imports Priority_Scheduler "HOL-Library.AList"
begin

text \<open>
  \<^verbatim>\<open>internal/sms/adapters/redis/priority_store.go\<close>: queue weights in a Redis hash, with a local
  cache and a channel of capacity one to the scheduler. \<^verbatim>\<open>fetchWeightsFromRedis\<close> takes its lock
  only after the answer of Redis is there, so it is split into the call and the commit to the cache:
  other operations may come in between. Maps that the code iterates over are lists of pairs in some
  order. At the end, what the scheduler does with the store (\<^verbatim>\<open>loadWeights\<close>, \<^verbatim>\<open>Start\<close>).
\<close>

type_synonym weights = "string \<rightharpoonup> int"

record pri_store =
  psWeightsKey :: string
  psDefaults :: "(string \<times> int) list"
  psCached :: weights
  psCacheValid :: bool
  psWatch :: "weights list"

definition psPubsubKey :: "pri_store \<Rightarrow> string" where
  "psPubsubKey s = psWeightsKey s @ '':notifications''"

section \<open>Reading\<close>

text \<open>The loop over the answer: entries that are no numbers are skipped.\<close>

definition parseWeights :: "(string \<times> string) list \<Rightarrow> weights" where
  "parseWeights result =
     foldl (\<lambda>m (queue, weightStr). case ParseInt weightStr of None \<Rightarrow> m | Some v \<Rightarrow> m(queue \<mapsto> v)) Map.empty result"

definition fetch_call :: "env \<Rightarrow> pri_store \<Rightarrow> world \<Rightarrow> (goerr + weights) \<times> world" where
  "fetch_call e s w =
     (case redis_Do e (RHGetAll (psWeightsKey s)) w of
        (RErr err, w) \<Rightarrow> (Inl err, w)
      | (RHash kvs, w) \<Rightarrow> (Inr (parseWeights kvs), w)
      | (_, w) \<Rightarrow> (Inl (ErrExternal ''redis: unexpected reply''), w))"

definition fetch_commit :: "weights \<Rightarrow> pri_store \<Rightarrow> pri_store" where
  "fetch_commit ws s = s\<lparr>psCached := ws, psCacheValid := True\<rparr>"

definition fetchWeightsFromRedis :: "env \<Rightarrow> pri_store \<Rightarrow> world \<Rightarrow> (goerr + weights) \<times> pri_store \<times> world" where
  "fetchWeightsFromRedis e s w =
     (case fetch_call e s w of
        (Inl err, w) \<Rightarrow> (Inl err, s, w)
      | (Inr ws, w) \<Rightarrow> (Inr ws, fetch_commit ws s, w))"

definition GetQueueWeights :: "env \<Rightarrow> pri_store \<Rightarrow> world \<Rightarrow> (goerr + weights) \<times> pri_store \<times> world" where
  "GetQueueWeights e s w =
     (if psCacheValid s then (Inr (psCached s), s, w) else fetchWeightsFromRedis e s w)"

definition GetQueueWeight ::
  "env \<Rightarrow> pri_store \<Rightarrow> string \<Rightarrow> int \<Rightarrow> world \<Rightarrow> (int \<times> goerr option) \<times> world" where
  "GetQueueWeight e s queueName dflt w =
     (if psCacheValid s then
        (case psCached s queueName of
           Some weight \<Rightarrow> ((weight, None), w)
         | None \<Rightarrow> ((dflt, None), w))
      else
        (case redis_Do e (RHGet (psWeightsKey s) queueName) w of
           (RNil, w) \<Rightarrow> ((dflt, None), w)
         | (RErr err, w) \<Rightarrow> ((dflt, Some err), w)
         | (RStr result, w) \<Rightarrow>
             (case ParseInt result of
                None \<Rightarrow> ((dflt, None), w)
              | Some weight \<Rightarrow> ((weight, None), w))
         | (_, w) \<Rightarrow> ((dflt, Some (ErrExternal ''redis: unexpected reply'')), w)))"

section \<open>Writing\<close>

definition notifyChange :: "env \<Rightarrow> pri_store \<Rightarrow> world \<Rightarrow> world" where
  "notifyChange e s w = snd (redis_Do e (RPublish (psPubsubKey s) ''weights_updated'') w)"

definition SetQueueWeight ::
  "env \<Rightarrow> string \<Rightarrow> int \<Rightarrow> pri_store \<Rightarrow> world \<Rightarrow> goerr option \<times> pri_store \<times> world" where
  "SetQueueWeight e queueName weight s w =
     (case redis_Do e (RHSet (psWeightsKey s) [(queueName, Itoa weight)]) w of
        (RErr err, w) \<Rightarrow> (Some err, s, w)
      | (_, w) \<Rightarrow> (None, s\<lparr>psCacheValid := False\<rparr>, notifyChange e s w))"

definition SetQueueWeights ::
  "env \<Rightarrow> (string \<times> int) list \<Rightarrow> pri_store \<Rightarrow> world \<Rightarrow> goerr option \<times> pri_store \<times> world" where
  "SetQueueWeights e ws s w =
     (if length ws = 0 then (None, s, w)
      else
        (case redis_Do e (RHSet (psWeightsKey s) (map (\<lambda>(q, v). (q, Itoa v)) ws)) w of
           (RErr err, w) \<Rightarrow> (Some err, s, w)
         | (_, w) \<Rightarrow> (None, s\<lparr>psCacheValid := False\<rparr>, notifyChange e s w)))"

definition NewPriorityStore ::
  "env \<Rightarrow> string \<Rightarrow> (string \<times> int) list \<Rightarrow> world \<Rightarrow> (goerr + pri_store) \<times> world" where
  "NewPriorityStore e key defaultWeights w =
     (let store = \<lparr>psWeightsKey = key, psDefaults = defaultWeights, psCached = Map.empty, psCacheValid = False,
                   psWatch = []\<rparr>;
          (rep, w) = redis_Do e (RExists key) w;
          init = (case rep of
              RErr err \<Rightarrow> (Some err, store, w)
            | RInt n \<Rightarrow>
                if n = 0 \<and> length defaultWeights > 0 then SetQueueWeights e defaultWeights store w
                else (None, store, w)
            | _ \<Rightarrow> (Some (ErrExternal ''redis: unexpected reply''), store, w)) in
      case init of
        (Some err, store, w) \<Rightarrow> (Inl err, w)
      | (None, store, w) \<Rightarrow>
          (case fetchWeightsFromRedis e store w of
             (Inl err, store, w) \<Rightarrow> (Inr (fetch_commit (map_of defaultWeights) store), w)
           | (Inr ws, store, w) \<Rightarrow> (Inr store, w)))"

text \<open>One notification in the goroutine of \<^verbatim>\<open>WatchWeights\<close>: the send on the channel does not block,
  a full channel drops the new weights.\<close>

definition watchNotification :: "env \<Rightarrow> pri_store \<Rightarrow> world \<Rightarrow> pri_store \<times> world" where
  "watchNotification e s w =
     (case fetchWeightsFromRedis e s w of
        (Inl err, s, w) \<Rightarrow> (s, w)
      | (Inr ws, s, w) \<Rightarrow> (if length (psWatch s) < 1 then s\<lparr>psWatch := psWatch s @ [ws]\<rparr> else s, w))"

section \<open>The scheduler's use of the store\<close>

definition loadWeights ::
  "env \<Rightarrow> pri_store option \<Rightarrow> scheduler \<Rightarrow> world \<Rightarrow> goerr option \<times> pri_store option \<times> scheduler \<times> world" where
  "loadWeights e store s w =
     (case store of
        None \<Rightarrow> (None, None, s, w)
      | Some st \<Rightarrow>
          (case GetQueueWeights e st w of
             (Inl err, st, w) \<Rightarrow> (Some err, Some st, s, w)
           | (Inr ws, st, w) \<Rightarrow> (case updateWeights e ws s w of (s, w) \<Rightarrow> (None, Some st, s, w))))"

text \<open>\<^verbatim>\<open>Start\<close>: an error of \<^verbatim>\<open>loadWeights\<close> is logged, and the refill loop starts with the current
  period; the loops themselves are the steps of \<open>sched_step\<close>.\<close>

definition sched_Start ::
  "env \<Rightarrow> pri_store option \<Rightarrow> scheduler \<Rightarrow> world \<Rightarrow> pri_store option \<times> scheduler \<times> world" where
  "sched_Start e store s w =
     (case loadWeights e store s w of
        (_, store, s, w) \<Rightarrow> (store, s\<lparr>tickerPeriod := refillPeriod s\<rparr>, w))"

text \<open>One round of \<^verbatim>\<open>watchWeights\<close>: the scheduler takes the pending weights.\<close>

definition watchWeights_round ::
  "env \<Rightarrow> pri_store \<Rightarrow> scheduler \<Rightarrow> world \<Rightarrow> pri_store \<times> scheduler \<times> world" where
  "watchWeights_round e st s w =
     (case psWatch st of
        [] \<Rightarrow> (st, s, w)
      | ws # rest \<Rightarrow> (case updateWeights e ws s w of (s, w) \<Rightarrow> (st\<lparr>psWatch := rest\<rparr>, s, w)))"

section \<open>Redis hashes\<close>

fun hash_step :: "string \<Rightarrow> event \<Rightarrow> (string \<rightharpoonup> string) \<Rightarrow> (string \<rightharpoonup> string)" where
  "hash_step key (EvRedis (RHSet k kvs) (RErr err)) m = m"
| "hash_step key (EvRedis (RHSet k kvs) rep) m = (if k = key then fold (\<lambda>(f, v) m. m(f \<mapsto> v)) kvs m else m)"
| "hash_step key _ m = m"

definition hash_of :: "string \<Rightarrow> event list \<Rightarrow> (string \<rightharpoonup> string)" where
  "hash_of key t = fold (hash_step key) t Map.empty"

text \<open>A Redis whose hashes hold what was written: the answer to \<^verbatim>\<open>HGETALL\<close> lists each field once
  with its last value.\<close>

definition hash_sound :: "env \<Rightarrow> bool" where
  "hash_sound e \<longleftrightarrow>
     (\<forall>t k kvs. redisDo e t (RHGetAll k) = RHash kvs \<longrightarrow> distinct (map fst kvs) \<and> map_of kvs = hash_of k t)"

lemma hash_of_snoc [simp]: "hash_of k (t @ [ev]) = hash_step k ev (hash_of k t)"
  by (simp add: hash_of_def)

lemma parseWeights_eq:
  "distinct (map fst kvs) \<Longrightarrow> parseWeights kvs q = Option.bind (map_of kvs q) ParseInt"
proof -
  have "foldl (\<lambda>m (queue, weightStr). case ParseInt weightStr of None \<Rightarrow> m | Some v \<Rightarrow> m(queue \<mapsto> v)) m kvs q =
      (case map_of kvs q of None \<Rightarrow> m q | Some s \<Rightarrow> (case ParseInt s of None \<Rightarrow> m q | Some v \<Rightarrow> Some v))"
    if "distinct (map fst kvs)" for m
    using that
  proof (induction kvs arbitrary: m)
    case (Cons p kvs)
    obtain k s where p: "p = (k, s)" by (cases p)
    then have "map_of kvs k = None" using Cons.prems by (simp add: map_of_eq_None_iff)
    then show ?case using Cons by (auto simp: p split: option.splits)
  qed simp
  then show "distinct (map fst kvs) \<Longrightarrow> ?thesis"
    by (auto simp: parseWeights_def split: option.splits)
qed

lemma fetch_call_world: "snd (fetch_call e s w) = emit e (EvRedis (RHGetAll (psWeightsKey s)) (redisDo e (trace w) (RHGetAll (psWeightsKey s)))) w"
  by (simp add: fetch_call_def redis_Do_def Let_def split: redis_reply.split)

lemma fetch_call_sound:
  "\<lbrakk> hash_sound e; fetch_call e s w = (Inr ws, w') \<rbrakk> \<Longrightarrow>
   ws q = Option.bind (hash_of (psWeightsKey s) (trace w) q) ParseInt"
  using parseWeights_eq
  by (auto simp: fetch_call_def redis_Do_def Let_def hash_sound_def split: redis_reply.splits)

lemma fetch_facts:
  assumes "fetchWeightsFromRedis e s w = (r, s', w')"
  shows "hash_of k (trace w') = hash_of k (trace w)" and "psWeightsKey s' = psWeightsKey s" and "psWatch s' = psWatch s"
    and "r = Inr ws \<Longrightarrow> s' = fetch_commit ws s \<and> fetch_call e s w = (Inr ws, w')"
  using assms fetch_call_world [of e s w]
  by (auto simp: fetchWeightsFromRedis_def fetch_commit_def split: prod.splits sum.splits)

lemma notifyChange_hash [simp]: "hash_of k (trace (notifyChange e s w)) = hash_of k (trace w)"
  by (simp add: notifyChange_def redis_Do_def Let_def)

lemma SetQueueWeight_facts:
  assumes "SetQueueWeight e q v s w = (None, s', w')"
  shows "s' = s\<lparr>psCacheValid := False\<rparr>" and
    "hash_of (psWeightsKey s) (trace w') = (hash_of (psWeightsKey s) (trace w))(q \<mapsto> Itoa v)"
  using assms by (auto simp: SetQueueWeight_def redis_Do_def Let_def split: redis_reply.splits)

text \<open>Weights read back: on a Redis that keeps what is written, once \<^verbatim>\<open>SetQueueWeight\<close> has
  succeeded, the next \<^verbatim>\<open>GetQueueWeights\<close> that succeeds returns the new weight of that queue and
  the stored weight of every other queue whose value is a number; the cached copy then gives the
  same answers without asking Redis.\<close>

theorem SetQueueWeight_GetQueueWeights:
  assumes "hash_sound e" and "int64 v" and "SetQueueWeight e q v s w = (None, s1, w1)"
    and "GetQueueWeights e s1 w1 = (Inr ws, s2, w2)"
  shows "ws q = Some v \<and>
    (\<forall>q'. ws q' = (if q' = q then Some v else Option.bind (hash_of (psWeightsKey s) (trace w) q') ParseInt)) \<and>
    (\<forall>w3. GetQueueWeights e s2 w3 = (Inr ws, s2, w3) \<and>
       GetQueueWeight e s2 q' d w3 = ((case ws q' of Some x \<Rightarrow> x | None \<Rightarrow> d, None), w3))"
proof -
  note f = SetQueueWeight_facts [OF assms(3)]
  have fe: "fetchWeightsFromRedis e s1 w1 = (Inr ws, s2, w2)" using assms(4) f(1) by (simp add: GetQueueWeights_def)
  note g = fetch_facts(4) [OF fe refl]
  have "ws q' = Option.bind (hash_of (psWeightsKey s) (trace w1) q') ParseInt" for q'
    using fetch_call_sound [OF assms(1), of s1 w1 ws w2 q'] g f(1) by simp
  moreover have "ParseInt (Itoa v) = Some v" using assms(2) by (simp add: ParseInt_Itoa)
  ultimately have "ws q' = (if q' = q then Some v else Option.bind (hash_of (psWeightsKey s) (trace w) q') ParseInt)" for q'
    using f(2) by simp
  moreover have "psCacheValid s2" "psCached s2 = ws" using g by (simp_all add: fetch_commit_def)
  ultimately show ?thesis by (auto simp: GetQueueWeights_def GetQueueWeight_def split: option.split)
qed

text \<open>An environment whose Redis keeps hashes.\<close>

fun hash_list :: "string \<Rightarrow> event list \<Rightarrow> (string \<times> string) list" where
  "hash_list key [] = []"
| "hash_list key (EvRedis (RHSet k kvs) (RErr err) # t) = hash_list key t"
| "hash_list key (EvRedis (RHSet k kvs) rep # t) =
     (if k = key then fold (\<lambda>(f, v). AList.update f v) kvs (hash_list key t) else hash_list key t)"
| "hash_list key (ev # t) = hash_list key t"

definition hash_env :: env where
  "hash_env = base_env\<lparr>redisDo := (\<lambda>t c. case c of
     RHGetAll k \<Rightarrow> RHash (hash_list k (rev t)) | RExists k \<Rightarrow> RInt (if hash_list k (rev t) = [] then 0 else 1) | _ \<Rightarrow> ROk)\<rparr>"

lemma hash_list_distinct: "distinct (map fst (hash_list k t))"
proof -
  have "distinct (map fst m) \<Longrightarrow> distinct (map fst (fold (\<lambda>(f, v). AList.update f v) kvs m))" for kvs and m :: "(string \<times> string) list"
    by (induction kvs arbitrary: m) (auto simp: distinct_update)
  then show ?thesis by (induction k t rule: hash_list.induct) auto
qed

lemma hash_list_map: "map_of (hash_list k (rev t)) = hash_of k t"
proof -
  have fold: "map_of (fold (\<lambda>(f, v). AList.update f v) kvs m) = fold (\<lambda>(f, v) m. m(f \<mapsto> v)) kvs (map_of m)" for kvs m
    by (induction kvs arbitrary: m) (auto simp: update_conv')
  have step: "map_of (hash_list k (ev # t)) = hash_step k ev (map_of (hash_list k t))" for ev t
  proof (cases ev)
    case (EvRedis c rep)
    then show ?thesis by (cases c; cases rep) (auto simp: fold)
  qed auto
  show ?thesis by (induction t rule: rev_induct) (simp_all add: hash_of_def step)
qed

lemma hash_sound_hash_env [simp]: "hash_sound hash_env"
  by (auto simp: hash_sound_def hash_env_def hash_list_distinct hash_list_map)

definition sample_store :: pri_store where
  "sample_store = \<lparr>psWeightsKey = ''w'', psDefaults = [], psCached = Map.empty, psCacheValid = True, psWatch = []\<rparr>"

theorem SetQueueWeight_GetQueueWeights_witness:
  "\<exists>s1 w1 ws s2 w2. SetQueueWeight hash_env ''Q'' 4 sample_store init_world = (None, s1, w1) \<and>
     GetQueueWeights hash_env s1 w1 = (Inr ws, s2, w2) \<and> ws ''Q'' = Some 4"
proof -
  obtain s1 w1 where s: "SetQueueWeight hash_env ''Q'' 4 sample_store init_world = (None, s1, w1)"
    by (simp add: SetQueueWeight_def redis_Do_def hash_env_def Let_def)
  have "\<not> psCacheValid s1" using SetQueueWeight_facts(1) [OF s] by simp
  then obtain ws s2 w2 where g: "GetQueueWeights hash_env s1 w1 = (Inr ws, s2, w2)"
    by (auto simp: GetQueueWeights_def fetchWeightsFromRedis_def fetch_call_def redis_Do_def hash_env_def Let_def)
  have "ws ''Q'' = Some 4" using SetQueueWeight_GetQueueWeights [OF _ _ s g] by simp
  with s g show ?thesis by blast
qed

section \<open>Stale weights\<close>

text \<open>A read that overlaps a write leaves a stale cache: when \<^verbatim>\<open>fetchWeightsFromRedis\<close> has its
  answer, then \<^verbatim>\<open>SetQueueWeight\<close> completes, and then the fetch commits to the cache, the store
  answers with the old weights from its cache, without asking Redis, although Redis holds the new
  weight.\<close>

theorem overlapping_fetch_is_stale:
  assumes "fetch_call e s w = (Inr old, w1)" and "SetQueueWeight e q v s w1 = (None, s2, w2)"
  shows "GetQueueWeights e (fetch_commit old s2) w3 = (Inr old, fetch_commit old s2, w3) \<and>
    GetQueueWeight e (fetch_commit old s2) q d w3 = ((case old q of Some x \<Rightarrow> x | None \<Rightarrow> d, None), w3) \<and>
    hash_of (psWeightsKey s) (trace w2) q = Some (Itoa v)"
  using SetQueueWeight_facts [OF assms(2)]
  by (simp add: GetQueueWeights_def GetQueueWeight_def fetch_commit_def split: option.split)

theorem overlapping_fetch_is_stale_witness:
  "\<exists>old w1 s2 w2. fetch_call hash_env sample_store init_world = (Inr old, w1) \<and>
     SetQueueWeight hash_env ''Q'' 4 sample_store w1 = (None, s2, w2) \<and>
     GetQueueWeight hash_env (fetch_commit old s2) ''Q'' 1 w2 = ((1, None), w2) \<and>
     hash_of ''w'' (trace w2) ''Q'' = Some (Itoa 4)"
proof -
  obtain old w1 where f: "fetch_call hash_env sample_store init_world = (Inr old, w1)"
    by (simp add: fetch_call_def redis_Do_def hash_env_def Let_def)
  obtain s2 w2 where s: "SetQueueWeight hash_env ''Q'' 4 sample_store w1 = (None, s2, w2)"
    by (simp add: SetQueueWeight_def redis_Do_def hash_env_def Let_def)
  have "old ''Q'' = None"
    using fetch_call_sound [OF hash_sound_hash_env f, of "''Q''"] by (simp add: hash_of_def init_world_def)
  then show ?thesis
    using f s overlapping_fetch_is_stale [OF f s, of w2 1] by (auto simp: sample_store_def)
qed

text \<open>The watcher can miss the newest weights: while an update is pending in the channel to the
  scheduler, a further notification does not replace it. The store then knows the new weights, but
  what the scheduler applies next are the old ones, and nothing is left in the channel.\<close>

theorem watch_drops_newest:
  assumes "psWatch st = [old]" and "watchNotification e st w = (st1, w1)"
    and "watchWeights_round e st1 s w1 = (st2, s', w2)"
  shows "psWatch st1 = [old] \<and> weights s' = old \<and> psWatch st2 = [] \<and>
    (\<forall>new. fst (fetch_call e st w) = Inr new \<longrightarrow> psCached st1 = new \<and> psCached st2 = new)"
proof -
  obtain r st0 w0 where f: "fetchWeightsFromRedis e st w = (r, st0, w0)" by (cases "fetchWeightsFromRedis e st w")
  have w1: "psWatch st1 = [old]" "st1 = st0"
    using assms(1,2) f fetch_facts(3) [OF f] by (auto simp: watchNotification_def split: sum.splits if_splits)
  obtain s2 w3 where u: "updateWeights e old s w1 = (s2, w3)" by (cases "updateWeights e old s w1")
  have "foldl (updateWeight e ws) (t, v) ns = (t', v') \<Longrightarrow> weights t' = weights t" for ws t v ns t' v'
  proof (induction ns arbitrary: t v)
    case (Cons n ns)
    then show ?case
      by (cases "updateWeight e ws (t, v) n")
        (auto simp: updateWeight_def resizeCreditChannel_eq Let_def split: if_splits)
  qed simp
  then have "weights s2 = old" using u by (force simp: updateWeights_def)
  moreover have "psCached st1 = new" if "fst (fetch_call e st w) = Inr new" for new
    using that f w1(2) by (auto simp: fetchWeightsFromRedis_def fetch_commit_def split: prod.splits)
  ultimately show ?thesis using assms(3) w1 u by (auto simp: watchWeights_round_def)
qed

theorem watch_drops_newest_witness:
  "\<exists>st1 w1 st2 s' w2. watchNotification hash_env (sample_store\<lparr>psWatch := [[''Q'' \<mapsto> 3]]\<rparr>) init_world = (st1, w1) \<and>
     watchWeights_round hash_env st1 (NewPriorityScheduler 1 10 0 0 True) w1 = (st2, s', w2) \<and>
     weights s' = [''Q'' \<mapsto> 3] \<and> psCached st2 = Map.empty"
proof -
  let ?st = "sample_store\<lparr>psWatch := [[''Q'' \<mapsto> 3]]\<rparr>"
  obtain st1 w1 where n: "watchNotification hash_env ?st init_world = (st1, w1)"
    by (cases "watchNotification hash_env ?st init_world")
  obtain st2 s' w2 where r: "watchWeights_round hash_env st1 (NewPriorityScheduler 1 10 0 0 True) w1 = (st2, s', w2)"
    by (cases "watchWeights_round hash_env st1 (NewPriorityScheduler 1 10 0 0 True) w1")
  have "fst (fetch_call hash_env ?st init_world) = Inr Map.empty"
    by (simp add: fetch_call_def redis_Do_def hash_env_def init_world_def parseWeights_def Let_def)
  with watch_drops_newest [OF _ n r, of "[''Q'' \<mapsto> 3]"] n r show ?thesis by auto
qed

text \<open>Starting the scheduler keeps it well formed, whatever the store answers.\<close>

lemma sched_wf_Start:
  assumes "sched_wf s" and "sched_Start e store s w = (store', s', w')"
  shows "sched_wf s'"
proof -
  obtain err st1 s1 w1 where l: "loadWeights e store s w = (err, st1, s1, w1)" by (cases "loadWeights e store s w")
  have "sched_wf s1"
    using l assms(1) sched_wf_updateWeights by (fastforce simp: loadWeights_def split: option.splits sum.splits prod.splits)
  moreover have "s' = s1\<lparr>tickerPeriod := refillPeriod s1\<rparr>" using assms(2) l by (simp add: sched_Start_def)
  ultimately show ?thesis by (simp add: sched_wf_def)
qed

end
