(* ===== verification/Config.thy ===== *)
theory Config
  imports Go_Url "HOL-Library.AList"
begin

text \<open>
  \<^verbatim>\<open>internal/config/config.go\<close>: the configuration as a function of the environment variables.
  Maps are association lists with distinct keys, in some order. Durations are nanoseconds;
  \<^verbatim>\<open>time.ParseDuration\<close> is modelled with its overflow checks and with the rounding of its
  \<^verbatim>\<open>float64\<close> arithmetic on fractions.
\<close>

type_synonym environment = "string \<rightharpoonup> string"

section \<open>\<^verbatim>\<open>strconv.ParseBool\<close> and \<^verbatim>\<open>time.ParseDuration\<close>\<close>

definition ParseBool :: "string \<Rightarrow> bool option" where
  "ParseBool s =
     (if s \<in> {''1'', ''t'', ''T'', ''TRUE'', ''true'', ''True''} then Some True
      else if s \<in> {''0'', ''f'', ''F'', ''FALSE'', ''false'', ''False''} then Some False
      else None)"

abbreviation Second :: int where "Second \<equiv> 10 ^ 9"
abbreviation Minute :: int where "Minute \<equiv> 60 * 10 ^ 9"

text \<open>\<open>leadingInt\<close> reads a natural number and fails above \<open>2 ^ 63\<close>.\<close>

fun leadingInt :: "int \<Rightarrow> string \<Rightarrow> (int \<times> string) option" where
  "leadingInt x [] = Some (x, [])"
| "leadingInt x (c # cs) =
     (case digit_val c of
        None \<Rightarrow> Some (x, c # cs)
      | Some d \<Rightarrow>
          if x > 2 ^ 63 div 10 then None
          else if 10 * x + int d > 2 ^ 63 then None
          else leadingInt (10 * x + int d) cs)"

text \<open>\<open>leadingFraction\<close> stops accumulating when the number would overflow but reads all digits.\<close>

fun leadingFraction :: "int \<Rightarrow> int \<Rightarrow> bool \<Rightarrow> string \<Rightarrow> int \<times> int \<times> string" where
  "leadingFraction x scale overflow [] = (x, scale, [])"
| "leadingFraction x scale overflow (c # cs) =
     (case digit_val c of
        None \<Rightarrow> (x, scale, c # cs)
      | Some d \<Rightarrow>
          if overflow then leadingFraction x scale True cs
          else if x > (2 ^ 63 - 1) div 10 then leadingFraction x scale True cs
          else if 10 * x + int d > 2 ^ 63 then leadingFraction x scale True cs
          else leadingFraction (10 * x + int d) (scale * 10) False cs)"

function nbits :: "int \<Rightarrow> int" where
  "nbits n = (if n \<le> 0 then 0 else 1 + nbits (n div 2))"
  by auto
termination by (relation "measure nat") auto

declare nbits.simps [simp del]

text \<open>The double nearest to \<open>a / b\<close> (ties to even) as a fraction; the numbers that occur here are
  positive and far from the limits of the exponent.\<close>

definition nearest_even :: "int \<Rightarrow> int \<Rightarrow> int" where
  "nearest_even a b =
     (let q = a div b; r = a mod b in if 2 * r < b \<or> (2 * r = b \<and> even q) then q else q + 1)"

definition float64_div :: "int \<Rightarrow> int \<Rightarrow> int \<times> int" where
  "float64_div a b =
     (let s0 = 53 + nbits b - nbits a;
          big = (a * 2 ^ nat s0) div (b * 2 ^ nat (- s0)) \<ge> 2 ^ 53;
          s = (if big then s0 - 1 else s0);
          m = nearest_even (a * 2 ^ nat s) (b * 2 ^ nat (- s))
      in (m * 2 ^ nat (- s), 2 ^ nat s))"

text \<open>\<^verbatim>\<open>uint64(float64(f) * (float64(unit) / scale))\<close>; the powers of ten that \<^verbatim>\<open>scale\<close> takes
  and the units are exact doubles.\<close>

definition float64_scaled :: "int \<Rightarrow> int \<Rightarrow> int \<Rightarrow> int" where
  "float64_scaled f unit scale =
     (let (a, b) = float64_div f 1;
          (c, d) = float64_div unit scale;
          (m, n) = float64_div (a * c) (b * d)
      in m div n)"

definition unitMap :: "string \<Rightarrow> int option" where
  "unitMap u =
     map_of [(''ns'', 1), (''us'', 10 ^ 3), ([CHR 0xC2, CHR 0xB5, CHR ''s''], 10 ^ 3),
             ([CHR 0xCE, CHR 0xBC, CHR ''s''], 10 ^ 3), (''ms'', 10 ^ 6), (''s'', 10 ^ 9),
             (''m'', 60 * 10 ^ 9), (''h'', 3600 * 10 ^ 9)] u"

definition number_char :: "char \<Rightarrow> bool" where
  "number_char c \<longleftrightarrow> c = CHR ''.'' \<or> digit_val c \<noteq> None"

text \<open>One round of the loop: a number with its unit, in nanoseconds, and the rest of the string.\<close>

definition duration_item :: "string \<Rightarrow> (int \<times> string) option" where
  "duration_item s =
     (if s = [] \<or> \<not> number_char (hd s) then None
      else
        (case leadingInt 0 s of
           None \<Rightarrow> None
         | Some (v, s1) \<Rightarrow>
             (let pre = (length s1 \<noteq> length s);
                  (f, scale, s2, post) =
                    (if s1 \<noteq> [] \<and> hd s1 = CHR ''.'' then
                       (case leadingFraction 0 1 False (tl s1) of
                          (f, scale, s2) \<Rightarrow> (f, scale, s2, length s2 \<noteq> length (tl s1)))
                     else (0, 1, s1, False));
                  u = takeWhile (\<lambda>c. \<not> number_char c) s2;
                  rest = dropWhile (\<lambda>c. \<not> number_char c) s2 in
              if \<not> pre \<and> \<not> post then None
              else if u = [] then None
              else
                (case unitMap u of
                   None \<Rightarrow> None
                 | Some unit \<Rightarrow>
                     if v > 2 ^ 63 div unit then None
                     else
                       (let v = v * unit + (if f > 0 then float64_scaled f unit scale else 0) in
                        if f > 0 \<and> v > 2 ^ 63 then None else Some (v, rest))))))"

lemma length_dropWhile_less: "takeWhile P s \<noteq> [] \<Longrightarrow> length (dropWhile P s) < length s"
  by (cases s) (auto simp: le_imp_less_Suc length_dropWhile_le split: if_splits)

lemma leadingInt_length: "leadingInt x s = Some (v, r) \<Longrightarrow> length r \<le> length s"
  by (induction x s rule: leadingInt.induct) (auto split: option.splits if_splits)

lemma leadingFraction_length: "leadingFraction x sc ov s = (f, sc', r) \<Longrightarrow> length r \<le> length s"
  by (induction x sc ov s rule: leadingFraction.induct) (auto split: option.splits if_splits)

lemma duration_item_shorter: "duration_item s = Some (v, rest) \<Longrightarrow> length rest < length s"
proof -
  assume a: "duration_item s = Some (v, rest)"
  then obtain v1 s1 where s1: "leadingInt 0 s = Some (v1, s1)"
    by (auto simp: duration_item_def split: if_splits option.splits)
  define t where "t = (if s1 \<noteq> [] \<and> hd s1 = CHR ''.'' then snd (snd (leadingFraction 0 1 False (tl s1))) else s1)"
  have "length (snd (snd (leadingFraction 0 1 False (tl s1)))) \<le> length s1"
    using leadingFraction_length [of 0 1 False "tl s1"]
    by (cases "leadingFraction 0 1 False (tl s1)") fastforce
  then have t: "length t \<le> length s" using leadingInt_length [OF s1] by (auto simp: t_def)
  have "takeWhile (\<lambda>c. \<not> number_char c) t \<noteq> [] \<and> rest = dropWhile (\<lambda>c. \<not> number_char c) t"
    using a s1 by (auto simp: duration_item_def t_def Let_def split: if_splits option.splits prod.splits)
  then show ?thesis using t length_dropWhile_less [of _ t] by fastforce
qed

function duration_sum :: "int \<Rightarrow> string \<Rightarrow> int option" where
  "duration_sum d s =
     (if s = [] then Some d
      else
        (case duration_item s of
           None \<Rightarrow> None
         | Some (v, rest) \<Rightarrow>
             (let d = (d + v) mod 2 ^ 64 in if d > 2 ^ 63 then None else duration_sum d rest)))"
  by auto
termination
  by (relation "measure (\<lambda>(d, s). length s)") (auto dest: duration_item_shorter)

declare duration_sum.simps [simp del]

definition ParseDuration :: "string \<Rightarrow> int option" where
  "ParseDuration s =
     (let neg = (s \<noteq> [] \<and> hd s = CHR ''-'');
          s = (if s \<noteq> [] \<and> (hd s = CHR ''-'' \<or> hd s = CHR ''+'') then tl s else s) in
      if s = ''0'' then Some 0
      else if s = [] then None
      else
        (case duration_sum 0 s of
           None \<Rightarrow> None
         | Some d \<Rightarrow> if neg then Some (wrap64 (- d)) else if d > 2 ^ 63 - 1 then None else Some d))"

section \<open>Reading the environment\<close>

definition getEnv :: "environment \<Rightarrow> string \<Rightarrow> string \<Rightarrow> string" where
  "getEnv env key defaultValue = (case env key of Some v \<Rightarrow> v | None \<Rightarrow> defaultValue)"

definition getEnvAsInt :: "environment \<Rightarrow> string \<Rightarrow> int \<Rightarrow> int" where
  "getEnvAsInt env key defaultValue =
     (case env key of
        Some v \<Rightarrow> (case ParseInt v of Some intVal \<Rightarrow> intVal | None \<Rightarrow> defaultValue)
      | None \<Rightarrow> defaultValue)"

definition getEnvAsDuration :: "environment \<Rightarrow> string \<Rightarrow> int \<Rightarrow> int" where
  "getEnvAsDuration env key defaultValue =
     (case env key of
        Some v \<Rightarrow> (case ParseDuration v of Some duration \<Rightarrow> duration | None \<Rightarrow> defaultValue)
      | None \<Rightarrow> defaultValue)"

definition getEnvAsStringSlice :: "environment \<Rightarrow> string \<Rightarrow> string list \<Rightarrow> string list" where
  "getEnvAsStringSlice env key defaultValue =
     (case env key of
        None \<Rightarrow> defaultValue
      | Some v \<Rightarrow>
          if v \<noteq> [] then
            (let result = filter (\<lambda>trimmed. trimmed \<noteq> []) (map TrimSpace (split_on (CHR '','') v))
             in if length result > 0 then result else defaultValue)
          else defaultValue)"

definition getEnvAsBool :: "environment \<Rightarrow> string \<Rightarrow> bool \<Rightarrow> bool" where
  "getEnvAsBool env key defaultValue =
     (case env key of
        Some v \<Rightarrow> (case ParseBool v of Some boolVal \<Rightarrow> boolVal | None \<Rightarrow> defaultValue)
      | None \<Rightarrow> defaultValue)"

definition buildRabbitMQURL :: "environment \<Rightarrow> string" where
  "buildRabbitMQURL env =
     (case env ''RABBITMQ_URL'' of
        Some (c # cs) \<Rightarrow> c # cs
      | _ \<Rightarrow>
          (let host = getEnv env ''RABBITMQ_HOST'' ''localhost'';
               port = getEnv env ''RABBITMQ_PORT'' ''5672'';
               user = getEnv env ''RABBITMQ_USER'' ''guest'';
               pass = getEnv env ''RABBITMQ_PASS'' ''guest'' in
           if user = [] \<and> pass = [] then ''amqp://'' @ host @ '':'' @ port @ ''/''
           else ''amqp://'' @ QueryEscape user @ '':'' @ QueryEscape pass @ ''@'' @ host @ '':'' @ port @ ''/''))"

text \<open>One pair of \<open>QUEUE1:10,QUEUE2:5\<close>; \<^verbatim>\<open>strings.SplitN(s, ":", 2)\<close> has two parts exactly when
  there is a colon.\<close>

definition parseQueueWeight :: "string \<Rightarrow> (string \<times> int) option" where
  "parseQueueWeight pair =
     (let pair = TrimSpace pair in
      if CHR '':'' \<in> set pair then
        (let (name, val) = cut (CHR '':'') pair;
             queueName = TrimSpace name in
         case ParseInt (TrimSpace val) of
           Some weight \<Rightarrow> if queueName \<noteq> [] then Some (queueName, weight) else None
         | None \<Rightarrow> None)
      else None)"

definition getEnvAsQueueWeights ::
  "environment \<Rightarrow> string \<Rightarrow> (string \<times> int) list \<Rightarrow> (string \<times> int) list" where
  "getEnvAsQueueWeights env key defaultValue =
     (case env key of
        None \<Rightarrow> defaultValue
      | Some v \<Rightarrow>
          if v \<noteq> [] then
            (let result = foldl (\<lambda>result pair.
                   case parseQueueWeight pair of
                     Some (queueName, weight) \<Rightarrow> AList.update queueName weight result
                   | None \<Rightarrow> result) [] (split_on (CHR '','') v)
             in if length result > 0 then result else defaultValue)
          else defaultValue)"

section \<open>The configuration\<close>

record app_config =
  app_Env :: string
  app_LogLevel :: string
  app_WorkerCount :: int

record http_config =
  http_Port :: int
  http_ReadTimeout :: int
  http_WriteTimeout :: int
  http_IdleTimeout :: int

record redis_config =
  redis_Host :: string
  redis_Port :: int
  redis_Password :: string
  redis_DB :: int

record rabbitmq_config =
  rabbit_URL :: string
  rabbit_PrefetchCount :: int
  rabbit_ReconnectWait :: int

record queues_config =
  queues_InputQueues :: "string list"
  queues_SaveToDBQueue :: string
  queues_RetryQueue :: string
  queues_DeadLetterQueue :: string
  queues_GatewayQueueName :: string
  queues_TransactionalRetryQueue :: string
  queues_PromotionalRetryQueue :: string
  queues_TransactionalDelayQueue :: string
  queues_PromotionalDelayQueue :: string
  queues_SDPBatchSizes :: "(string \<times> int) list"
  queues_DLQMigratorEnabled :: bool
  queues_DLQMigratorDestQueue :: string
  queues_DLQPermQueue :: string
  queues_SaveToDBDLQ :: string
  queues_SaveToDBDLQMigratorEnabled :: bool

record sdp_settings =
  sdp_AuthURL :: string
  sdp_SendURL :: string
  sdp_AuthUser :: string
  sdp_CountryPrefix :: string
  sdp_Username :: string
  sdp_Password :: string
  sdp_DLRURL :: string
  sdp_DLRURLApiV2 :: string
  sdp_TokenKey :: string
  sdp_TokenTTL :: int
  sdp_PromoSDPBatchSize :: int
  sdp_ResponseHeaderTimeout :: int
  sdp_RequestTimeout :: int

record smpp_settings =
  smpp_URL :: string
  smpp_SMSC :: string
  smpp_Username :: string
  smpp_Password :: string
  smpp_DLRURL :: string
  smpp_DLRURLApiV2 :: string

record rate_limit_config =
  rate_Safaricom :: int
  rate_Airtel :: int
  rate_Telkom :: int
  rate_Equitel :: int
  rate_CM :: int
  rate_Default :: int

record retry_config =
  retry_TransactionalDelayMs :: int
  retry_PromotionalDelayMs :: int
  retry_TransactionalWorkerCount :: int
  retry_TransactionalPrefetch :: int
  retry_PromotionalWorkerCount :: int
  retry_PromotionalPrefetch :: int
  retry_RateLimitSafaricomSDP :: int
  retry_RateLimitSafaricomSMPP :: int
  retry_RateLimitAirtel :: int
  retry_RateLimitEquitel :: int
  retry_RateLimitTelkom :: int
  retry_RateLimitCM :: int
  retry_BurstFactor :: int
  retry_MaxRetriesTransactional :: int
  retry_MaxRetriesPromotional :: int

record africas_talking_config =
  at_QueueName :: string
  at_WorkerCount :: int
  at_Prefetch :: int
  at_SandboxURL :: string
  at_ProductionURL :: string
  at_Mode :: string
  at_APIKey :: string
  at_APIKeyProd :: string
  at_Username :: string
  at_SendResultURL :: string
  at_InternalToken :: string
  at_BalanceCooldown :: int
  at_MaxReportRetries :: int
  at_ReportRetryBaseDelay :: int
  at_ReportRetryMaxDelay :: int

record priority_config =
  priority_Enabled :: bool
  priority_RedisWeightsKey :: string
  priority_DefaultQueueWeights :: "(string \<times> int) list"
  priority_DefaultWeight :: int
  priority_TransactionalWorkers :: int
  priority_CreditMultiplier :: int
  priority_RefillPeriodMs :: int
  priority_MaxStarvationAgeSec :: int

record config =
  cfg_App :: app_config
  cfg_HTTP :: http_config
  cfg_Redis :: redis_config
  cfg_RabbitMQ :: rabbitmq_config
  cfg_Queues :: queues_config
  cfg_SafaricomSDP :: sdp_settings
  cfg_SafaricomSMPP :: smpp_settings
  cfg_Airtel :: smpp_settings
  cfg_AirtelPromo :: smpp_settings
  cfg_Telkom :: smpp_settings
  cfg_Equitel :: smpp_settings
  cfg_CM :: smpp_settings
  cfg_RateLimit :: rate_limit_config
  cfg_Priority :: priority_config
  cfg_Retry :: retry_config
  cfg_AfricasTalking :: africas_talking_config

section \<open>Loading\<close>

definition Load_App :: "environment \<Rightarrow> app_config" where
  "Load_App env =
     \<lparr>app_Env = getEnv env ''APP_ENV'' ''development'',
      app_LogLevel = getEnv env ''LOG_LEVEL'' ''info'',
      app_WorkerCount = getEnvAsInt env ''WORKER_COUNT'' 10\<rparr>"

definition Load_HTTP :: "environment \<Rightarrow> http_config" where
  "Load_HTTP env =
     \<lparr>http_Port = getEnvAsInt env ''HTTP_PORT'' 8080,
      http_ReadTimeout = getEnvAsDuration env ''HTTP_READ_TIMEOUT'' (30 * Second),
      http_WriteTimeout = getEnvAsDuration env ''HTTP_WRITE_TIMEOUT'' (30 * Second),
      http_IdleTimeout = getEnvAsDuration env ''HTTP_IDLE_TIMEOUT'' (60 * Second)\<rparr>"

definition Load_Redis :: "environment \<Rightarrow> redis_config" where
  "Load_Redis env =
     \<lparr>redis_Host = getEnv env ''REDIS_HOST'' ''localhost'',
      redis_Port = getEnvAsInt env ''REDIS_PORT'' 6379,
      redis_Password = getEnv env ''REDIS_PASSWORD'' [],
      redis_DB = getEnvAsInt env ''REDIS_DB'' 0\<rparr>"

definition Load_RabbitMQ :: "environment \<Rightarrow> rabbitmq_config" where
  "Load_RabbitMQ env =
     \<lparr>rabbit_URL = buildRabbitMQURL env,
      rabbit_PrefetchCount = getEnvAsInt env ''RABBITMQ_PREFETCH'' 10,
      rabbit_ReconnectWait = getEnvAsDuration env ''RABBITMQ_RECONNECT_WAIT'' (5 * Second)\<rparr>"

definition Load_Queues :: "environment \<Rightarrow> queues_config" where
  "Load_Queues env =
     \<lparr>queues_InputQueues = getEnvAsStringSlice env ''INPUT_QUEUES'' [''TITANIC-KE_SMS_QUEUE'', ''CONSUME_TO_MNO''],
      queues_SaveToDBQueue = getEnv env ''SAVE_TO_DB_QUEUE'' ''SAVE_TO_DB'',
      queues_RetryQueue = getEnv env ''SMS_RETRY_QUEUE'' ''SMS_RETRY_QUEUE'',
      queues_DeadLetterQueue = getEnv env ''SMS_DEAD_LETTER_QUEUE'' ''SMS_DEAD_LETTER_QUEUE'',
      queues_GatewayQueueName = getEnv env ''GATEWAY_QUEUE_NAME'' ''SMS_MNO_GATEWAY_QUEUE'',
      queues_TransactionalRetryQueue = getEnv env ''SMS_TRANSACTIONAL_RETRY_QUEUE'' ''SMS_TRANSACTIONAL_RETRY_QUEUE'',
      queues_PromotionalRetryQueue = getEnv env ''SMS_PROMOTIONAL_RETRY_QUEUE'' ''SMS_PROMOTIONAL_RETRY_QUEUE'',
      queues_TransactionalDelayQueue = getEnv env ''SMS_TRANSACTIONAL_DELAY_QUEUE'' ''SMS_TRANSACTIONAL_DELAY_QUEUE'',
      queues_PromotionalDelayQueue = getEnv env ''SMS_PROMOTIONAL_DELAY_QUEUE'' ''SMS_PROMOTIONAL_DELAY_QUEUE'',
      queues_SDPBatchSizes = getEnvAsQueueWeights env ''QUEUE_SDP_BATCH_SIZES'' [],
      queues_DLQMigratorEnabled = getEnvAsBool env ''DLQ_MIGRATOR_ENABLED'' True,
      queues_DLQMigratorDestQueue = getEnv env ''DLQ_MIGRATOR_DEST_QUEUE'' ''sms_transactional'',
      queues_DLQPermQueue = getEnv env ''DLQ_PERM_QUEUE'' ''SMS_DEAD_LETTER_QUEUE_PERM'',
      queues_SaveToDBDLQ = getEnv env ''SAVE_TO_DB_DLQ'' ''SAVE_TO_DB_DLQ'',
      queues_SaveToDBDLQMigratorEnabled = getEnvAsBool env ''SAVE_TO_DB_DLQ_MIGRATOR_ENABLED'' True\<rparr>"

definition Load_SafaricomSDP :: "environment \<Rightarrow> sdp_settings" where
  "Load_SafaricomSDP env =
     \<lparr>sdp_AuthURL = getEnv env ''SDP_AUTH_URL'' ''https://dsvc2.safaricom.com:9480/api/auth/login'',
      sdp_SendURL = getEnv env ''SDP_SEND_URL'' ''https://dsvc2.safaricom.com:9480/api/public/CMS/bulksms'',
      sdp_AuthUser = getEnv env ''SDP_USERNAME'' (getEnv env ''SDP_USER'' []),
      sdp_CountryPrefix = getEnv env ''COUNTRY_PREFIX'' [],
      sdp_Username = getEnv env ''SDP_USER'' (getEnv env ''SDP_USERNAME'' []),
      sdp_Password = getEnv env ''SDP_PASSWORD'' [],
      sdp_DLRURL = getEnv env ''SDP_DLR_URL'' ''https://smsdlr.emalify.com/save'',
      sdp_DLRURLApiV2 = getEnv env ''SDP_DLR_URL_API_V2'' (getEnv env ''SDP_DLR_URL'' ''https://smsdlr.emalify.com/save''),
      sdp_TokenKey = getEnv env ''SDP_TOKEN_KEY'' ''SDP_TOKEN_KEY'',
      sdp_TokenTTL = getEnvAsDuration env ''SDP_TOKEN_TTL'' (25 * Minute),
      sdp_PromoSDPBatchSize = getEnvAsInt env ''SDP_PROMO_BATCH_SIZE'' 1,
      sdp_ResponseHeaderTimeout = getEnvAsDuration env ''SDP_RESPONSE_HEADER_TIMEOUT'' (60 * Second),
      sdp_RequestTimeout = getEnvAsDuration env ''SDP_REQUEST_TIMEOUT'' (65 * Second)\<rparr>"

definition Load_SafaricomSMPP :: "environment \<Rightarrow> smpp_settings" where
  "Load_SafaricomSMPP env =
     \<lparr>smpp_URL = getEnv env ''SAFARICOM_SMPP_URL'' ''http://10.0.0.87:80/cgi-bin/sendsms'',
      smpp_SMSC = getEnv env ''SAFARICOM_SMPP_SMSC'' ''SAFARICOM'',
      smpp_Username = getEnv env ''SAFARICOM_SMPP_USERNAME'' [],
      smpp_Password = getEnv env ''SAFARICOM_SMPP_PASSWORD'' [],
      smpp_DLRURL = getEnv env ''SAFARICOM_SMPP_DLR_URL'' ''http://10.0.0.100:8088/save'',
      smpp_DLRURLApiV2 = getEnv env ''SAFARICOM_SMPP_DLR_URL_API_V2'' (getEnv env ''SAFARICOM_SMPP_DLR_URL'' ''http://10.0.0.100:8088/save'')\<rparr>"

definition Load_Airtel :: "environment \<Rightarrow> smpp_settings" where
  "Load_Airtel env =
     \<lparr>smpp_URL = getEnv env ''AIRTEL_SMPP_URL'' ''http://10.0.0.88:14013/cgi-bin/sendsms'',
      smpp_SMSC = getEnv env ''AIRTEL_SMPP_SMSC'' ''AIRTEL'',
      smpp_Username = getEnv env ''AIRTEL_SMPP_USERNAME'' [],
      smpp_Password = getEnv env ''AIRTEL_SMPP_PASSWORD'' [],
      smpp_DLRURL = getEnv env ''AIRTEL_SMPP_DLR_URL'' ''http://10.0.0.100:8088/save'',
      smpp_DLRURLApiV2 = getEnv env ''AIRTEL_SMPP_DLR_URL_API_V2'' (getEnv env ''AIRTEL_SMPP_DLR_URL'' ''http://10.0.0.100:8088/save'')\<rparr>"

definition Load_AirtelPromo :: "environment \<Rightarrow> smpp_settings" where
  "Load_AirtelPromo env =
     \<lparr>smpp_URL = getEnv env ''AIRTEL_SMPP_URL_PROMO'' (getEnv env ''AIRTEL_SMPP_URL'' ''http://10.0.0.88:14013/cgi-bin/sendsms''),
      smpp_SMSC = getEnv env ''AIRTEL_SMPP_SMSC_PROMO'' (getEnv env ''AIRTEL_SMPP_SMSC'' ''AIRTEL''),
      smpp_Username = getEnv env ''AIRTEL_SMPP_USERNAME_PROMO'' (getEnv env ''AIRTEL_SMPP_USERNAME'' []),
      smpp_Password = getEnv env ''AIRTEL_SMPP_PASSWORD_PROMO'' (getEnv env ''AIRTEL_SMPP_PASSWORD'' []),
      smpp_DLRURL = getEnv env ''AIRTEL_SMPP_DLR_URL_PROMO'' (getEnv env ''AIRTEL_SMPP_DLR_URL'' ''http://10.0.0.100:8088/save''),
      smpp_DLRURLApiV2 = getEnv env ''AIRTEL_SMPP_DLR_URL_PROMO_API_V2'' (getEnv env ''AIRTEL_SMPP_DLR_URL_PROMO'' (getEnv env ''AIRTEL_SMPP_DLR_URL'' ''http://10.0.0.100:8088/save''))\<rparr>"

definition Load_Telkom :: "environment \<Rightarrow> smpp_settings" where
  "Load_Telkom env =
     \<lparr>smpp_URL = getEnv env ''TELKOM_SMPP_URL'' ''http://34.77.25.98:14013/cgi-bin/sendsms'',
      smpp_SMSC = getEnv env ''TELKOM_SMPP_SMSC'' ''TELKOM'',
      smpp_Username = getEnv env ''TELKOM_SMPP_USERNAME'' [],
      smpp_Password = getEnv env ''TELKOM_SMPP_PASSWORD'' [],
      smpp_DLRURL = getEnv env ''TELKOM_SMPP_DLR_URL'' ''http://197.248.69.107:48088/save'',
      smpp_DLRURLApiV2 = getEnv env ''TELKOM_SMPP_DLR_URL_API_V2'' (getEnv env ''TELKOM_SMPP_DLR_URL'' ''http://197.248.69.107:48088/save'')\<rparr>"

definition Load_Equitel :: "environment \<Rightarrow> smpp_settings" where
  "Load_Equitel env =
     \<lparr>smpp_URL = getEnv env ''EQUITEL_SMPP_URL'' ''http://10.0.0.87:80/cgi-bin/sendsms'',
      smpp_SMSC = getEnv env ''EQUITEL_SMPP_SMSC'' ''EQUITEL'',
      smpp_Username = getEnv env ''EQUITEL_SMPP_USERNAME'' [],
      smpp_Password = getEnv env ''EQUITEL_SMPP_PASSWORD'' [],
      smpp_DLRURL = getEnv env ''EQUITEL_SMPP_DLR_URL'' ''http://10.0.0.100:8088/save'',
      smpp_DLRURLApiV2 = getEnv env ''EQUITEL_SMPP_DLR_URL_API_V2'' (getEnv env ''EQUITEL_SMPP_DLR_URL'' ''http://10.0.0.100:8088/save'')\<rparr>"

definition Load_CM :: "environment \<Rightarrow> smpp_settings" where
  "Load_CM env =
     \<lparr>smpp_URL = getEnv env ''CM_SMPP_URL'' ''http://34.77.25.98:14013/cgi-bin/sendsms'',
      smpp_SMSC = getEnv env ''CM_SMPP_SMSC'' ''CM'',
      smpp_Username = getEnv env ''CM_SMPP_USERNAME'' [],
      smpp_Password = getEnv env ''CM_SMPP_PASSWORD'' [],
      smpp_DLRURL = getEnv env ''CM_SMPP_DLR_URL'' ''http://10.0.0.100:8088/save'',
      smpp_DLRURLApiV2 = []\<rparr>"

definition Load_RateLimit :: "environment \<Rightarrow> rate_limit_config" where
  "Load_RateLimit env =
     \<lparr>rate_Safaricom = getEnvAsInt env ''RATE_LIMIT_SAFARICOM'' 200,
      rate_Airtel = getEnvAsInt env ''RATE_LIMIT_AIRTEL'' 50,
      rate_Telkom = getEnvAsInt env ''RATE_LIMIT_TELKOM'' 100,
      rate_Equitel = getEnvAsInt env ''RATE_LIMIT_EQUITEL'' 20,
      rate_CM = getEnvAsInt env ''RATE_LIMIT_CM'' 20,
      rate_Default = getEnvAsInt env ''RATE_LIMIT_DEFAULT'' 20\<rparr>"

definition Load_Retry :: "environment \<Rightarrow> retry_config" where
  "Load_Retry env =
     \<lparr>retry_TransactionalDelayMs = getEnvAsInt env ''RETRY_TRANSACTIONAL_DELAY_MS'' 5000,
      retry_PromotionalDelayMs = getEnvAsInt env ''RETRY_PROMOTIONAL_DELAY_MS'' 30000,
      retry_TransactionalWorkerCount = getEnvAsInt env ''RETRY_TRANSACTIONAL_WORKER_COUNT'' 50,
      retry_TransactionalPrefetch = getEnvAsInt env ''RETRY_TRANSACTIONAL_PREFETCH'' 100,
      retry_PromotionalWorkerCount = getEnvAsInt env ''RETRY_PROMOTIONAL_WORKER_COUNT'' 200,
      retry_PromotionalPrefetch = getEnvAsInt env ''RETRY_PROMOTIONAL_PREFETCH'' 400,
      retry_RateLimitSafaricomSDP = getEnvAsInt env ''RATE_LIMIT_RETRY_SAFARICOM_SDP'' 200,
      retry_RateLimitSafaricomSMPP = getEnvAsInt env ''RATE_LIMIT_RETRY_SAFARICOM_SMPP'' 40,
      retry_RateLimitAirtel = getEnvAsInt env ''RATE_LIMIT_RETRY_AIRTEL'' 5,
      retry_RateLimitEquitel = getEnvAsInt env ''RATE_LIMIT_RETRY_EQUITEL'' 10,
      retry_RateLimitTelkom = getEnvAsInt env ''RATE_LIMIT_RETRY_TELKOM'' 10,
      retry_RateLimitCM = getEnvAsInt env ''RATE_LIMIT_RETRY_CM'' 5,
      retry_BurstFactor = getEnvAsInt env ''RATE_LIMIT_RETRY_BURST_FACTOR'' 1,
      retry_MaxRetriesTransactional = getEnvAsInt env ''RETRY_MAX_RETRIES_TRANSACTIONAL'' 5,
      retry_MaxRetriesPromotional = getEnvAsInt env ''RETRY_MAX_RETRIES_PROMOTIONAL'' 10\<rparr>"

definition Load_AfricasTalking :: "environment \<Rightarrow> africas_talking_config" where
  "Load_AfricasTalking env =
     \<lparr>at_QueueName = getEnv env ''AFRICAS_TALKING_SMS_QUEUE'' ''AFRICAS_TALKING_SMS_QUEUE'',
      at_WorkerCount = getEnvAsInt env ''AFRICAS_TALKING_WORKER_COUNT'' 5,
      at_Prefetch = getEnvAsInt env ''AFRICAS_TALKING_PREFETCH'' 20,
      at_SandboxURL = getEnv env ''AFRICAS_TALKING_SANDBOX_API_URL'' ''https://api.sandbox.africastalking.com/version1/messaging'',
      at_ProductionURL = getEnv env ''AFRICAS_TALKING_PRODUCTION_API_URL'' ''https://api.africastalking.com/version1/messaging'',
      at_Mode = getEnv env ''AFRICAS_TALKING_MODE'' ''sandbox'',
      at_APIKey = getEnv env ''AFRICAS_TALKING_API_KEY'' [],
      at_APIKeyProd = getEnv env ''AFRICAS_TALKING_API_KEY_PROD'' [],
      at_Username = getEnv env ''AFRICAS_TALKING_USERNAME'' [],
      at_SendResultURL = getEnv env ''AFRICAS_TALKING_SEND_RESULT_URL'' [],
      at_InternalToken = getEnv env ''AFRICAS_TALKING_INTERNAL_TOKEN'' [],
      at_BalanceCooldown = getEnvAsDuration env ''AFRICAS_TALKING_BALANCE_COOLDOWN'' (5 * Minute),
      at_MaxReportRetries = getEnvAsInt env ''AFRICAS_TALKING_MAX_REPORT_RETRIES'' 5,
      at_ReportRetryBaseDelay = getEnvAsDuration env ''AFRICAS_TALKING_REPORT_RETRY_BASE_DELAY'' (2 * Second),
      at_ReportRetryMaxDelay = getEnvAsDuration env ''AFRICAS_TALKING_REPORT_RETRY_MAX_DELAY'' (60 * Second)\<rparr>"

definition Load_Priority :: "environment \<Rightarrow> priority_config" where
  "Load_Priority env =
     \<lparr>priority_Enabled = getEnvAsBool env ''PRIORITY_ROUTING_ENABLED'' False,
      priority_RedisWeightsKey = getEnv env ''PRIORITY_REDIS_WEIGHTS_KEY'' ''sms:priority:queue_weights'',
      priority_DefaultQueueWeights = getEnvAsQueueWeights env ''PRIORITY_DEFAULT_WEIGHTS'' [(''GOLD_PARTNERS_QUEUE'', 10), (''BETIKA_GOLD'', 10), (''PEPETA_GOLD'', 10), (''TITANIC-KE_SMS_QUEUE'', 1), (''CONSUME_TO_MNO'', 1), (''SMS_MNO_GATEWAY_QUEUE'', 1)],
      priority_DefaultWeight = getEnvAsInt env ''PRIORITY_DEFAULT_WEIGHT'' 1,
      priority_TransactionalWorkers = getEnvAsInt env ''PRIORITY_TRANSACTIONAL_WORKERS'' 5,
      priority_CreditMultiplier = getEnvAsInt env ''PRIORITY_CREDIT_MULTIPLIER'' 10,
      priority_RefillPeriodMs = getEnvAsInt env ''PRIORITY_REFILL_PERIOD_MS'' 100,
      priority_MaxStarvationAgeSec = getEnvAsInt env ''PRIORITY_MAX_STARVATION_AGE_SEC'' 10\<rparr>"

definition Load :: "environment \<Rightarrow> config" where
  "Load env =
     \<lparr>cfg_App = Load_App env, cfg_HTTP = Load_HTTP env, cfg_Redis = Load_Redis env,
      cfg_RabbitMQ = Load_RabbitMQ env, cfg_Queues = Load_Queues env,
      cfg_SafaricomSDP = Load_SafaricomSDP env, cfg_SafaricomSMPP = Load_SafaricomSMPP env,
      cfg_Airtel = Load_Airtel env, cfg_AirtelPromo = Load_AirtelPromo env,
      cfg_Telkom = Load_Telkom env, cfg_Equitel = Load_Equitel env, cfg_CM = Load_CM env,
      cfg_RateLimit = Load_RateLimit env, cfg_Priority = Load_Priority env,
      cfg_Retry = Load_Retry env, cfg_AfricasTalking = Load_AfricasTalking env\<rparr>"

definition redis_Addr :: "redis_config \<Rightarrow> string" where
  "redis_Addr c = redis_Host c @ '':'' @ Itoa (redis_Port c)"

definition IsProduction :: "app_config \<Rightarrow> bool" where
  "IsProduction c \<longleftrightarrow> app_Env c = ''production''"

definition IsDevelopment :: "app_config \<Rightarrow> bool" where
  "IsDevelopment c \<longleftrightarrow> app_Env c = ''development''"

section \<open>Facts\<close>

lemma duration_sum_bound: "duration_sum d s = Some r \<Longrightarrow> 0 \<le> d \<and> d \<le> 2 ^ 63 \<Longrightarrow> 0 \<le> r \<and> r \<le> 2 ^ 63"
proof (induction d s rule: duration_sum.induct)
  case (1 d s)
  show ?case
  proof (cases "s = []")
    case False
    with "1.prems"(1) obtain v rest where i: "duration_item s = Some (v, rest)"
      and b: "(d + v) mod 2 ^ 64 \<le> 2 ^ 63" and r: "duration_sum ((d + v) mod 2 ^ 64) rest = Some r"
      by (auto simp: duration_sum.simps [of d s] Let_def split: option.splits prod.splits if_splits)
    then show ?thesis using "1.IH" [OF False i] by (auto simp: not_less)
  qed (use 1 in \<open>simp add: duration_sum.simps\<close>)
qed

lemma ParseDuration_int64: "ParseDuration s = Some d \<Longrightarrow> int64 d"
  by (auto simp: ParseDuration_def Let_def wrap64_range dest!: duration_sum_bound split: option.splits if_splits)

lemma getEnvAs_int64:
  "int64 d \<Longrightarrow> int64 (getEnvAsInt env key d)" "int64 d \<Longrightarrow> int64 (getEnvAsDuration env key d)"
  by (auto simp: getEnvAsInt_def getEnvAsDuration_def dest!: ParseInt_range ParseDuration_int64 split: option.splits)

lemmas getEnvAs_bounds =
  getEnvAs_int64(1) [THEN conjunct1, simplified] getEnvAs_int64(1) [THEN conjunct2, simplified]
  getEnvAs_int64(2) [THEN conjunct1, simplified] getEnvAs_int64(2) [THEN conjunct2, simplified]

lemma getEnvAsStringSlice_wf:
  "\<lbrakk> d \<noteq> []; list_all (\<lambda>q. q \<noteq> [] \<and> TrimSpace q = q) d \<rbrakk> \<Longrightarrow>
   getEnvAsStringSlice env key d \<noteq> [] \<and>
   list_all (\<lambda>q. q \<noteq> [] \<and> TrimSpace q = q) (getEnvAsStringSlice env key d)"
  by (auto simp: getEnvAsStringSlice_def list_all_iff Let_def split: option.splits)

text \<open>Association lists that \<^verbatim>\<open>getEnvAsQueueWeights\<close> returns: distinct non-empty names, 64-bit
  weights.\<close>

definition weights_wf :: "(string \<times> int) list \<Rightarrow> bool" where
  "weights_wf ws \<longleftrightarrow> distinct (map fst ws) \<and> list_all (\<lambda>(q, v). q \<noteq> [] \<and> int64 v) ws"

lemma parseQueueWeight_wf: "parseQueueWeight p = Some (q, v) \<Longrightarrow> q \<noteq> [] \<and> int64 v"
  by (auto simp: parseQueueWeight_def Let_def dest: ParseInt_range split: if_splits option.splits prod.splits)

lemma weights_wf_update: "\<lbrakk> weights_wf ws; q \<noteq> []; int64 v \<rbrakk> \<Longrightarrow> weights_wf (AList.update q v ws)"
proof -
  assume a: "weights_wf ws" "q \<noteq> []" "int64 v"
  have "set (AList.update q v ws) \<subseteq> insert (q, v) (set ws)"
    by (induction ws) auto
  with a show ?thesis by (fastforce simp: weights_wf_def list_all_iff distinct_update)
qed

lemma weights_wf_fold:
  "weights_wf acc \<Longrightarrow>
   weights_wf (foldl (\<lambda>result pair.
      case parseQueueWeight pair of
        Some (queueName, weight) \<Rightarrow> AList.update queueName weight result
      | None \<Rightarrow> result) acc pairs)"
  by (induction pairs arbitrary: acc)
    (auto dest: parseQueueWeight_wf simp: weights_wf_update split: option.splits)

lemma getEnvAsQueueWeights_wf: "weights_wf d \<Longrightarrow> weights_wf (getEnvAsQueueWeights env key d)"
  by (auto simp: getEnvAsQueueWeights_def Let_def weights_wf_fold split: option.splits)
    (use weights_wf_fold [of "[]"] in \<open>simp add: weights_wf_def\<close>)

section \<open>Properties\<close>

text \<open>What \<^verbatim>\<open>Load\<close> guarantees of its result whatever the environment is: all numbers and durations
  are 64-bit integers, there is at least one input queue, queue names are trimmed and not empty, and
  the maps of queue weights and batch sizes have distinct, non-empty queue names.\<close>

definition config_wf :: "config \<Rightarrow> bool" where
  "config_wf c \<longleftrightarrow>
     list_all (\<lambda>x. int64 x)
       [app_WorkerCount (cfg_App c), http_Port (cfg_HTTP c), http_ReadTimeout (cfg_HTTP c),
        http_WriteTimeout (cfg_HTTP c), http_IdleTimeout (cfg_HTTP c), redis_Port (cfg_Redis c), redis_DB (cfg_Redis c),
        rabbit_PrefetchCount (cfg_RabbitMQ c), rabbit_ReconnectWait (cfg_RabbitMQ c)] \<and>
     list_all (\<lambda>f. int64 (f (cfg_SafaricomSDP c)))
       [sdp_TokenTTL, sdp_PromoSDPBatchSize, sdp_ResponseHeaderTimeout, sdp_RequestTimeout] \<and>
     list_all (\<lambda>f. int64 (f (cfg_RateLimit c)))
       [rate_Safaricom, rate_Airtel, rate_Telkom, rate_Equitel, rate_CM, rate_Default] \<and>
     list_all (\<lambda>f. int64 (f (cfg_Priority c)))
       [priority_DefaultWeight, priority_TransactionalWorkers, priority_CreditMultiplier,
        priority_RefillPeriodMs, priority_MaxStarvationAgeSec] \<and>
     list_all (\<lambda>f. int64 (f (cfg_Retry c)))
       [retry_TransactionalDelayMs, retry_PromotionalDelayMs, retry_TransactionalWorkerCount,
        retry_TransactionalPrefetch, retry_PromotionalWorkerCount, retry_PromotionalPrefetch,
        retry_RateLimitSafaricomSDP, retry_RateLimitSafaricomSMPP, retry_RateLimitAirtel,
        retry_RateLimitEquitel, retry_RateLimitTelkom, retry_RateLimitCM, retry_BurstFactor,
        retry_MaxRetriesTransactional, retry_MaxRetriesPromotional] \<and>
     list_all (\<lambda>f. int64 (f (cfg_AfricasTalking c)))
       [at_WorkerCount, at_Prefetch, at_BalanceCooldown, at_MaxReportRetries, at_ReportRetryBaseDelay,
        at_ReportRetryMaxDelay] \<and>
     queues_InputQueues (cfg_Queues c) \<noteq> [] \<and>
     list_all (\<lambda>q. q \<noteq> [] \<and> TrimSpace q = q) (queues_InputQueues (cfg_Queues c)) \<and>
     weights_wf (queues_SDPBatchSizes (cfg_Queues c)) \<and> weights_wf (priority_DefaultQueueWeights (cfg_Priority c))"

lemma weights_wf_defaults:
  "weights_wf []"
  "weights_wf [(''GOLD_PARTNERS_QUEUE'', 10), (''BETIKA_GOLD'', 10), (''PEPETA_GOLD'', 10),
     (''TITANIC-KE_SMS_QUEUE'', 1), (''CONSUME_TO_MNO'', 1), (''SMS_MNO_GATEWAY_QUEUE'', 1)]"
  by (simp_all add: weights_wf_def)

lemma input_queue_defaults:
  "list_all (\<lambda>q. q \<noteq> [] \<and> TrimSpace q = q) [''TITANIC-KE_SMS_QUEUE'', ''CONSUME_TO_MNO'']"
  by (simp add: TrimSpace_def is_space_def)

lemmas Load_simps =
  Load_def Load_App_def Load_HTTP_def Load_Redis_def Load_RabbitMQ_def Load_Queues_def Load_SafaricomSDP_def
  Load_RateLimit_def Load_Priority_def Load_Retry_def Load_AfricasTalking_def


text \<open>How a map of queue weights is written in the environment.\<close>

definition show_weight :: "string \<times> int \<Rightarrow> string" where
  "show_weight qv = fst qv @ '':'' @ Itoa (snd qv)"

definition show_weights :: "(string \<times> int) list \<Rightarrow> string" where
  "show_weights ws = join '','' (map show_weight ws)"

definition plain_queue :: "string \<Rightarrow> bool" where
  "plain_queue q \<longleftrightarrow> q \<noteq> [] \<and> TrimSpace q = q \<and> CHR '','' \<notin> set q \<and> CHR '':'' \<notin> set q"

lemma show_nat_chars: "c \<in> set (show_nat n) \<Longrightarrow> digit_val c \<noteq> None"
proof (induction n rule: show_nat.induct)
  case (1 n)
  then show ?case by (cases "n < 10") (auto simp: show_nat.simps [of n])
qed

lemma Itoa_chars: "c \<in> set (Itoa i) \<Longrightarrow> c = CHR ''-'' \<or> digit_val c \<noteq> None"
  by (auto simp: Itoa_def dest: show_nat_chars split: if_splits)

lemma Itoa_ne [simp]: "Itoa i \<noteq> []"
proof -
  have "show_nat n \<noteq> []" for n using show_nat_hd [of n] by auto
  then show ?thesis by (simp add: Itoa_def)
qed

lemma special_chars:
  "digit_val (CHR '','') = None" "is_space c \<Longrightarrow> digit_val c = None"
  by (auto simp: digit_val_def is_space_def Let_def)

lemma TrimSpace_Itoa [simp]: "TrimSpace (Itoa i) = Itoa i"
proof -
  have "\<not> is_space c" if "c \<in> set (Itoa i)" for c
    using Itoa_chars [OF that] special_chars(2) [of c] by (auto simp: is_space_def)
  then have "\<not> is_space (hd (Itoa i))" "\<not> is_space (last (Itoa i))" by simp_all
  then show ?thesis by (intro TrimSpace_fixed) simp_all
qed

lemma TrimSpace_show_weight:
  assumes "plain_queue q" shows "TrimSpace (show_weight (q, v)) = show_weight (q, v)"
proof (rule TrimSpace_fixed)
  have "\<not> is_space (hd q)" using assms hd_TrimSpace [of q] by (simp add: plain_queue_def)
  then show "show_weight (q, v) = [] \<or> \<not> is_space (hd (show_weight (q, v)))"
    using assms by (simp add: show_weight_def plain_queue_def)
  show "show_weight (q, v) = [] \<or> \<not> is_space (last (show_weight (q, v)))"
    using last_TrimSpace [of "Itoa v"] by (simp add: show_weight_def)
qed

lemma parseQueueWeight_show:
  assumes "plain_queue q" "int64 v" shows "parseQueueWeight (show_weight (q, v)) = Some (q, v)"
proof -
  have "cut (CHR '':'') (show_weight (q, v)) = (q, Itoa v)"
    using assms by (simp add: show_weight_def plain_queue_def cut_append)
  then show ?thesis
    using assms TrimSpace_show_weight [OF assms(1), of v] ParseInt_Itoa [OF assms(2)]
    by (simp add: parseQueueWeight_def plain_queue_def) (simp add: show_weight_def)
qed

lemma AList_update_new: "q \<notin> fst ` set ws \<Longrightarrow> AList.update q v ws = ws @ [(q, v)]"
  by (induction ws) auto

lemma fold_show_weights:
  assumes "list_all (\<lambda>(q, v). plain_queue q \<and> int64 v) ws" "distinct (map fst (acc @ ws))"
  shows "foldl (\<lambda>result pair.
      case parseQueueWeight pair of
        Some (queueName, weight) \<Rightarrow> AList.update queueName weight result
      | None \<Rightarrow> result) acc (map show_weight ws) = acc @ ws"
  using assms
proof (induction ws arbitrary: acc)
  case (Cons p ws)
  obtain q v where p: "p = (q, v)" by fastforce
  have "parseQueueWeight (show_weight p) = Some (q, v)" using Cons.prems(1) by (simp add: p parseQueueWeight_show)
  moreover have "AList.update q v acc = acc @ [(q, v)]"
    using Cons.prems(2) by (intro AList_update_new) (auto simp: p)
  ultimately show ?case using Cons.IH [of "acc @ [(q, v)]"] Cons.prems by (simp add: p)
qed simp

text \<open>C26. Queue weights survive the environment: printing a non-empty map with distinct queue names
  (without commas, colons or surrounding white space) as \<^verbatim>\<open>QUEUE1:10,QUEUE2:5\<close> and loading it gives
  the same map, for every 64-bit weight, negative ones included.\<close>

theorem queue_weights_roundtrip:
  assumes "ws \<noteq> []" and "distinct (map fst ws)" and "list_all (\<lambda>(q, v). plain_queue q \<and> int64 v) ws"
    and "env key = Some (show_weights ws)"
  shows "getEnvAsQueueWeights env key dflt = ws"
proof -
  have "CHR '','' \<notin> set (Itoa v)" for v using Itoa_chars [of "CHR '',''" v] special_chars(1) by auto
  then have "list_all (\<lambda>x. CHR '','' \<notin> set x) (map show_weight ws)"
    using assms(3) by (auto simp: list_all_iff show_weight_def plain_queue_def)
  then have s: "split_on (CHR '','') (show_weights ws) = map show_weight ws"
    unfolding show_weights_def using assms(1) by (intro split_on_join) auto
  have ne: "show_weights ws \<noteq> []"
    using assms(1) by (cases ws rule: remdups_adj.cases) (auto simp: show_weights_def show_weight_def)
  show ?thesis
    using fold_show_weights [of ws "[]"] assms ne by (simp add: getEnvAsQueueWeights_def s)
qed

theorem queue_weights_roundtrip_witness:
  "getEnvAsQueueWeights [''W'' \<mapsto> ''GOLD:10,SMS_QUEUE:-1''] ''W'' [] = [(''GOLD'', 10), (''SMS_QUEUE'', -1)]"
proof -
  have "list_all (\<lambda>(q, v). plain_queue q \<and> int64 v) [(''GOLD'', 10), (''SMS_QUEUE'', -1)]"
    by (simp add: plain_queue_def TrimSpace_def is_space_def)
  moreover have "show_weights [(''GOLD'', 10), (''SMS_QUEUE'', -1)] = ''GOLD:10,SMS_QUEUE:-1''" by code_simp
  ultimately show ?thesis
    using queue_weights_roundtrip [of "[(''GOLD'', 10), (''SMS_QUEUE'', -1)]" "[''W'' \<mapsto> ''GOLD:10,SMS_QUEUE:-1'']" "''W''" "[]"]
    by simp
qed

section \<open>Credentials in the broker URL\<close>

text \<open>How \<^verbatim>\<open>net/url\<close> reads the URL back, as the AMQP client does: the authority ends at the first
  slash, the user information at the last \<^verbatim>\<open>@\<close> in it, the user name at the first colon, and percent escapes
  (but not \<^verbatim>\<open>+\<close>) are undone.\<close>

fun unescape_userinfo :: "string \<Rightarrow> string option" where
  "unescape_userinfo [] = Some []"
| "unescape_userinfo (c # cs) =
     (if c = CHR ''%'' then
        (case cs of
           h # l # rest \<Rightarrow>
             (case (unhex h, unhex l) of
                (Some x, Some y) \<Rightarrow> map_option ((#) (char_of (16 * x + y))) (unescape_userinfo rest)
              | _ \<Rightarrow> None)
         | _ \<Rightarrow> None)
      else map_option ((#) c) (unescape_userinfo cs))"

definition url_credentials :: "string \<Rightarrow> (string \<times> string) option" where
  "url_credentials url =
     (let authority = takeWhile (\<lambda>c. c \<noteq> CHR ''/'') (TrimPrefix url ''amqp://'');
          (user, pass) = cut (CHR '':'') (rev (snd (cut (CHR ''@'') (rev authority)))) in
      case (unescape_userinfo user, unescape_userinfo pass) of
        (Some u, Some p) \<Rightarrow> Some (u, p)
      | _ \<Rightarrow> None)"

definition plus_for_space :: "string \<Rightarrow> string" where
  "plus_for_space s = map (\<lambda>c. if c = CHR '' '' then CHR ''+'' else c) s"

lemma unescape_userinfo_escape_char:
  "unescape_userinfo (escape_char c @ s) =
     map_option ((#) (if c = CHR '' '' then CHR ''+'' else c)) (unescape_userinfo s)"
proof (cases "unreserved c")
  case True
  then show ?thesis by (auto simp: escape_char_def unreserved_def byte_eq_iff)
next
  case False
  have "byte c div 16 < 16" using byte_less [of c] by auto
  then show ?thesis using False by (simp add: escape_char_def)
qed

lemma unescape_userinfo_QueryEscape: "unescape_userinfo (QueryEscape s) = Some (plus_for_space s)"
  by (induction s) (simp_all add: QueryEscape_def plus_for_space_def unescape_userinfo_escape_char)

lemma upperhex_alnum: "d < 16 \<Longrightarrow> unreserved (upperhex d)"
  by (simp add: unreserved_def byte_upperhex)

lemma escape_char_chars: "d \<in> set (escape_char c) \<Longrightarrow> unreserved d \<or> d = CHR ''%'' \<or> d = CHR ''+''"
proof -
  have "byte c div 16 < 16" using byte_less [of c] by auto
  then show "d \<in> set (escape_char c) \<Longrightarrow> ?thesis"
    by (auto simp: escape_char_def upperhex_alnum split: if_splits)
qed

lemma QueryEscape_plain:
  "CHR ''/'' \<notin> set (QueryEscape s)" "CHR '':'' \<notin> set (QueryEscape s)" "CHR ''@'' \<notin> set (QueryEscape s)"
  using escape_char_chars
  by (auto simp: QueryEscape_def) (fastforce simp: unreserved_def byte_def)+

text \<open>Broker credentials: without \<^verbatim>\<open>RABBITMQ_URL\<close>, and with at least one of user and password
  set, the client reads back from the URL that \<^verbatim>\<open>buildRabbitMQURL\<close> builds the configured user and
  password with every space replaced by a plus sign (for a host and port without \<^verbatim>\<open>@\<close>): every other character, separators of the URL
  included, survives.\<close>

theorem buildRabbitMQURL_credentials:
  assumes "env ''RABBITMQ_URL'' = None \<or> env ''RABBITMQ_URL'' = Some []"
    and "user = getEnv env ''RABBITMQ_USER'' ''guest''" and "pass = getEnv env ''RABBITMQ_PASS'' ''guest''"
    and "user \<noteq> [] \<or> pass \<noteq> []"
    and "CHR ''@'' \<notin> set (getEnv env ''RABBITMQ_HOST'' ''localhost'' @ getEnv env ''RABBITMQ_PORT'' ''5672'')"
  shows "url_credentials (buildRabbitMQURL env) = Some (plus_for_space user, plus_for_space pass)"
proof -
  let ?u = "QueryEscape user" and ?p = "QueryEscape pass"
  let ?hp = "getEnv env ''RABBITMQ_HOST'' ''localhost'' @ '':'' @ getEnv env ''RABBITMQ_PORT'' ''5672'' @ ''/''"
  let ?tw = "takeWhile (\<lambda>c. c \<noteq> CHR ''/'')"
  have url: "buildRabbitMQURL env = ''amqp://'' @ ?u @ '':'' @ ?p @ ''@'' @ ?hp"
    using assms by (auto simp: buildRabbitMQURL_def Let_def)
  have tw: "?tw ((?u @ '':'' @ ?p) @ ''@'' @ ?hp) = (?u @ '':'' @ ?p) @ CHR ''@'' # ?tw ?hp"
    using QueryEscape_plain(1) by (subst takeWhile_append2) auto
  have "CHR ''@'' \<notin> set ?hp" using assms(5) by auto
  then have "CHR ''@'' \<notin> set (rev (?tw ?hp))" by (metis set_rev set_takeWhileD)
  then have "cut (CHR ''@'') (rev (?tw ?hp) @ CHR ''@'' # rev (?u @ '':'' @ ?p)) = (rev (?tw ?hp), rev (?u @ '':'' @ ?p))"
    by (rule cut_append)
  then have "rev (snd (cut (CHR ''@'') (rev (?tw ((?u @ '':'' @ ?p) @ ''@'' @ ?hp))))) = ?u @ '':'' @ ?p"
    unfolding tw by simp
  moreover have "cut (CHR '':'') (?u @ '':'' @ ?p) = (?u, ?p)"
    using QueryEscape_plain(2) by (simp add: cut_append)
  moreover have "TrimPrefix (buildRabbitMQURL env) ''amqp://'' = (?u @ '':'' @ ?p) @ ''@'' @ ?hp"
    unfolding url TrimPrefix_def by (simp add: HasPrefix_def)
  ultimately show ?thesis
    by (simp only: url_credentials_def Let_def case_prod_conv unescape_userinfo_QueryEscape option.case)
qed

theorem buildRabbitMQURL_credentials_witness:
  "url_credentials (buildRabbitMQURL [''RABBITMQ_USER'' \<mapsto> ''sms@prod'', ''RABBITMQ_PASS'' \<mapsto> ''a b:c'']) =
     Some (''sms@prod'', ''a+b:c'')"
  using buildRabbitMQURL_credentials
    [of "[''RABBITMQ_USER'' \<mapsto> ''sms@prod'', ''RABBITMQ_PASS'' \<mapsto> ''a b:c'']" "''sms@prod''" "''a b:c''"]
  by (simp add: getEnv_def plus_for_space_def)

end
