(* ===== verification/Dlq_Migrator.thy ===== *)
theory Dlq_Migrator
  imports Consumer Config Result_Handler
begin

text \<open>
  The two queue migrators of \<^verbatim>\<open>internal/bootstrap/app.go\<close>: one moves dead-lettered messages to a
  destination queue (those that ran out of retries) or to the permanent dead-letter queue, the other
  moves bodies from the dead-letter queue of the database writer back. What a migrator receives on its
  channel is a list; a migrator on an open channel with nothing left waits. \<^verbatim>\<open>ch.Consume\<close> of the AMQP
  library is the argument \<open>consumeErr\<close>. Bodies are forwarded unchanged.
\<close>

section \<open>Routing\<close>

abbreviation ran_out :: "message \<Rightarrow> bool" where
  "ran_out m \<equiv> Description m = error_text ErrMaxRetriesExceeded"

text \<open>An object (or \<^verbatim>\<open>null\<close>, which decodes to the zero message) is looked at first, then an array;
  \<^verbatim>\<open>null\<close> entries of an array are zero messages.\<close>

definition dlq_dest :: "queues_config \<Rightarrow> amqp_body \<Rightarrow> string" where
  "dlq_dest q body =
     (let destQueue = queues_DLQMigratorDestQueue q; permQueue = queues_DLQPermQueue q in
      case body of
        BodyObject single \<Rightarrow> if ran_out single then destQueue else permQueue
      | BodyNull \<Rightarrow> permQueue
      | BodyArray batch \<Rightarrow>
          if list_ex (\<lambda>m. case m of Some m \<Rightarrow> ran_out m | None \<Rightarrow> False) batch then destQueue else permQueue
      | BodyInvalid _ \<Rightarrow> permQueue)"

definition amqp_Ack :: "env \<Rightarrow> nat \<Rightarrow> world \<Rightarrow> world" where
  "amqp_Ack e tag w = emit e (EvAck tag (amqpAck e (trace w) tag)) w"

text \<open>Forwarding one delivery, with the metrics of either migrator.\<close>

definition forward ::
  "env \<Rightarrow> ctxid \<Rightarrow> string \<Rightarrow> metric \<Rightarrow> metric \<Rightarrow> nat \<Rightarrow> amqp_body \<Rightarrow> world \<Rightarrow> world" where
  "forward e ctx dest forwarded publishError tag body w =
     (let err = amqpPublish e (trace w) ctx dest body;
          w = emit e (EvPublish dest body err) w in
      case err of
        Some _ \<Rightarrow> snd (amqp_Nack e tag True (metric e True publishError w))
      | None \<Rightarrow> amqp_Ack e tag (metric e True forwarded w))"

datatype mig_input = MigDelivery nat amqp_body | MigClosed

text \<open>The loop of both migrators: \<open>None\<close> says that it still waits, \<open>Some None\<close> that it stopped with the
  context, \<open>Some (Some err)\<close> that its channel was closed. A cancelled context and a pending delivery are
  both ready; the \<^verbatim>\<open>select\<close> takes either.\<close>

fun migrate_loop ::
  "env \<Rightarrow> ctxid \<Rightarrow> (nat \<Rightarrow> amqp_body \<Rightarrow> world \<Rightarrow> world) \<Rightarrow> mig_input list \<Rightarrow> world \<Rightarrow>
   (goerr option option \<times> mig_input list) \<times> world" where
  "migrate_loop e ctx step [] w = ((if ctxdone w ctx then Some None else None, []), w)"
| "migrate_loop e ctx step (i # is) w =
     (if ctxdone w ctx \<and> pick e (trace w) 0 mod 2 = 0 then ((Some None, i # is), w)
      else
        (case i of
           MigClosed \<Rightarrow> ((Some (Some (ErrExternal ''channel closed'')), i # is), w)
         | MigDelivery tag body \<Rightarrow> migrate_loop e ctx step is (step tag body w)))"

fun declareMig :: "env \<Rightarrow> string list \<Rightarrow> world \<Rightarrow> goerr option \<times> world" where
  "declareMig e [] w = (None, w)"
| "declareMig e (q # qs) w =
     (case DeclareQueue e q w of
        (Some err, w) \<Rightarrow> (Some (Wrapf (''declare '' @ q @ '': '' @ error_text err) err), w)
      | (None, w) \<Rightarrow> declareMig e qs w)"

text \<open>Opening a channel, declaring two queues, consuming the source queue.\<close>

definition run_migrator ::
  "env \<Rightarrow> ctxid \<Rightarrow> string list \<Rightarrow> string \<Rightarrow> goerr option \<Rightarrow> (nat \<Rightarrow> amqp_body \<Rightarrow> world \<Rightarrow> world) \<Rightarrow>
   mig_input list \<Rightarrow> world \<Rightarrow> (goerr option option \<times> mig_input list) \<times> world" where
  "run_migrator e ctx declared source consumeErr step inputs w =
     (case conn_NewChannel e w of
        (Some err, w) \<Rightarrow> ((Some (Some (Wrapf (''open channel: '' @ error_text err) err)), inputs), w)
      | (None, w) \<Rightarrow>
     (case declareMig e declared w of
        (Some err, w) \<Rightarrow> ((Some (Some err), inputs), w)
      | (None, w) \<Rightarrow>
     (case consumeErr of
        Some err \<Rightarrow> ((Some (Some (Wrapf (''consume '' @ source @ '': '' @ error_text err) err)), inputs), w)
      | None \<Rightarrow> migrate_loop e ctx step inputs w)))"

definition dlq_step :: "env \<Rightarrow> queues_config \<Rightarrow> ctxid \<Rightarrow> nat \<Rightarrow> amqp_body \<Rightarrow> world \<Rightarrow> world" where
  "dlq_step e q ctx tag body w =
     (let dest = dlq_dest q body
      in forward e ctx dest (IncDLQMigratorForwarded dest) IncDLQMigratorPublishError tag body w)"

definition runDLQMigratorOnce ::
  "env \<Rightarrow> queues_config \<Rightarrow> ctxid \<Rightarrow> goerr option \<Rightarrow> mig_input list \<Rightarrow> world \<Rightarrow>
   (goerr option option \<times> mig_input list) \<times> world" where
  "runDLQMigratorOnce e q ctx consumeErr inputs w =
     run_migrator e ctx [queues_DLQMigratorDestQueue q, queues_DLQPermQueue q] (queues_DeadLetterQueue q)
       consumeErr (dlq_step e q ctx) inputs w"

definition save_step :: "env \<Rightarrow> queues_config \<Rightarrow> ctxid \<Rightarrow> nat \<Rightarrow> amqp_body \<Rightarrow> world \<Rightarrow> world" where
  "save_step e q ctx tag body w =
     forward e ctx (queues_SaveToDBQueue q) IncSaveToDBDLQMigratorForwarded IncSaveToDBDLQMigratorPublishError tag body w"

definition runSaveToDBDLQMigratorOnce ::
  "env \<Rightarrow> queues_config \<Rightarrow> ctxid \<Rightarrow> goerr option \<Rightarrow> mig_input list \<Rightarrow> world \<Rightarrow>
   (goerr option option \<times> mig_input list) \<times> world" where
  "runSaveToDBDLQMigratorOnce e q ctx consumeErr inputs w =
     run_migrator e ctx [queues_SaveToDBDLQ q, queues_SaveToDBQueue q] (queues_SaveToDBDLQ q)
       consumeErr (save_step e q ctx) inputs w"

section \<open>Supervision\<close>

text \<open>The goroutines that restart a migrator: \<open>sessions\<close> gives, for each run, the answer of
  \<^verbatim>\<open>ch.Consume\<close> and what arrives on the channel. \<open>True\<close>: the goroutine returned.\<close>

fun supervise ::
  "env \<Rightarrow> ctxid \<Rightarrow> metric \<Rightarrow>
   (goerr option \<Rightarrow> mig_input list \<Rightarrow> world \<Rightarrow> (goerr option option \<times> mig_input list) \<times> world) \<Rightarrow>
   (goerr option \<times> mig_input list) list \<Rightarrow> world \<Rightarrow> bool \<times> world" where
  "supervise e ctx restart run [] w = (ctxdone w ctx, w)"
| "supervise e ctx restart run ((consumeErr, inputs) # sessions) w =
     (if ctxdone w ctx then (True, w)
      else
        (case run consumeErr inputs w of
           ((None, _), w) \<Rightarrow> (False, w)
         | ((Some None, _), w) \<Rightarrow> supervise e ctx restart run sessions w
         | ((Some (Some err), _), w) \<Rightarrow>
             if ctxdone w ctx then (True, w)
             else
               (let w = emit e (EvSleep (5 * 10 ^ 9)) (metric e True restart w) in
                if ctxdone w ctx then (True, w) else supervise e ctx restart run sessions w)))"

definition startDLQMigrator ::
  "env \<Rightarrow> queues_config \<Rightarrow> ctxid \<Rightarrow> (goerr option \<times> mig_input list) list \<Rightarrow> world \<Rightarrow> bool \<times> world" where
  "startDLQMigrator e q ctx sessions w =
     (if \<not> queues_DLQMigratorEnabled q then (True, w)
      else supervise e ctx IncDLQMigratorChannelRestart (runDLQMigratorOnce e q ctx) sessions w)"

definition startSaveToDBDLQMigrator ::
  "env \<Rightarrow> queues_config \<Rightarrow> ctxid \<Rightarrow> (goerr option \<times> mig_input list) list \<Rightarrow> world \<Rightarrow> bool \<times> world" where
  "startSaveToDBDLQMigrator e q ctx sessions w =
     (if \<not> queues_SaveToDBDLQMigratorEnabled q then (True, w)
      else supervise e ctx IncSaveToDBDLQMigratorChannelRestart (runSaveToDBDLQMigratorOnce e q ctx) sessions w)"

section \<open>Interface: migrators\<close>

text \<open>The deliveries taken, in order, each with the events that deal with it.\<close>

definition accounts ::
  "(nat \<Rightarrow> amqp_body \<Rightarrow> event list \<Rightarrow> bool) \<Rightarrow> mig_input list \<Rightarrow> mig_input list \<Rightarrow> event list \<Rightarrow> bool" where
  "accounts handled inputs rest es \<longleftrightarrow>
     (\<exists>taken evss. inputs = map (\<lambda>(t, b). MigDelivery t b) taken @ rest \<and>
        list_all2 (\<lambda>(t, b). handled t b) taken evss \<and> es = concat evss)"

lemma accounts_none [simp]: "accounts handled inputs inputs []"
  unfolding accounts_def by (intro exI [of _ "[]"]) simp

lemma accounts_cons:
  assumes "handled t b es" and "accounts handled inputs rest es'"
  shows "accounts handled (MigDelivery t b # inputs) rest (es @ es')"
proof -
  from assms(2) obtain taken evss where "inputs = map (\<lambda>(t, b). MigDelivery t b) taken @ rest"
    "list_all2 (\<lambda>(t, b). handled t b) taken evss" "es' = concat evss"
    by (auto simp: accounts_def)
  with assms(1) show ?thesis
    unfolding accounts_def by (intro exI [of _ "(t, b) # taken"] exI [of _ "es # evss"]) simp
qed

text \<open>What a step must do with a delivery for the loop to account for it: \<open>handled t b es\<close> says that
  the events \<open>es\<close> deal with body \<open>b\<close> of delivery \<open>t\<close>.\<close>

locale migrator =
  fixes step :: "nat \<Rightarrow> amqp_body \<Rightarrow> world \<Rightarrow> world" and handled :: "nat \<Rightarrow> amqp_body \<Rightarrow> event list \<Rightarrow> bool"
  assumes step_le: "world_le w (step t b w)"
    and step_handled: "handled t b (new_events w (step t b w))"
begin

lemma loop_accounts:
  "migrate_loop e ctx step inputs w = ((res, rest), w') \<Longrightarrow>
   world_le w w' \<and> accounts handled inputs rest (new_events w w')"
proof (induction inputs arbitrary: w)
  case (Cons i inputs)
  show ?case
  proof (cases "\<exists>t b. i = MigDelivery t b \<and> \<not> (ctxdone w ctx \<and> pick e (trace w) 0 mod 2 = 0)")
    case True
    then obtain t b where i: "i = MigDelivery t b" and "migrate_loop e ctx step inputs (step t b w) = ((res, rest), w')"
      using Cons.prems by auto
    from Cons.IH [OF this(2)] have le: "world_le (step t b w) w'"
      and acc: "accounts handled inputs rest (new_events (step t b w) w')" by blast+
    show ?thesis
      using accounts_cons [OF step_handled acc] new_events_trans [OF step_le le] world_le_trans [OF step_le le]
      by (simp add: i)
  next
    case False
    then have "w' = w" "rest = i # inputs" using Cons.prems by (auto split: mig_input.splits if_splits)
    then show ?thesis by simp
  qed
qed auto

end

fun setup_event :: "event \<Rightarrow> bool" where
  "setup_event (EvChannel r) = True"
| "setup_event (EvDeclare q a r) = True"
| "setup_event _ = False"

lemma declareMig_frame: "frame setup_event w (snd (declareMig e qs w))"
proof (induction qs arbitrary: w)
  case (Cons q qs)
  let ?err = "queueDeclare e (trace w) q None"
  let ?w = "emit e (EvDeclare q None ?err) w"
  have "frame setup_event w (snd (declareMig e qs ?w))"
    by (rule frame_trans [of _ _ ?w]) (simp_all add: Cons.IH)
  then show ?case by (cases ?err) (simp_all add: DeclareQueue_def DeclareQueueWithArgs_def Let_def)
qed simp

context migrator
begin

text \<open>A run sets up its channel and queues, then handles the deliveries it takes, in order, one after
  the other.\<close>

lemma run_accounts:
  assumes "run_migrator e ctx declared source consumeErr step inputs w = ((res, rest), w')"
  shows "\<exists>pre es. world_le w w' \<and> new_events w w' = pre @ es \<and> list_all setup_event pre \<and> accounts handled inputs rest es"
proof -
  let ?w1 = "snd (conn_NewChannel e w)"
  let ?w2 = "snd (declareMig e declared ?w1)"
  have f1: "frame setup_event w ?w1" by (simp add: conn_NewChannel_def Let_def)
  have f2: "frame setup_event w ?w2" by (rule frame_trans [OF f1 declareMig_frame])
  have quiet: ?thesis if "w' = w1" "rest = inputs" "frame setup_event w w1" for w1
    using that by (intro exI [of _ "new_events w w1"] exI [of _ "[]"]) (simp add: frame_def)
  show ?thesis
  proof (cases "fst (conn_NewChannel e w) = None \<and> fst (declareMig e declared ?w1) = None \<and> consumeErr = None")
    case True
    then have "migrate_loop e ctx step inputs ?w2 = ((res, rest), w')"
      using assms by (cases "conn_NewChannel e w"; cases "declareMig e declared ?w1") (auto simp: run_migrator_def)
    from loop_accounts [OF this] have le: "world_le ?w2 w'" and acc: "accounts handled inputs rest (new_events ?w2 w')"
      by blast+
    have le0: "world_le w ?w2" using f2 by (rule frame_world_le)
    show ?thesis
      using f2 acc new_events_trans [OF le0 le] world_le_trans [OF le0 le]
      by (intro exI [of _ "new_events w ?w2"] exI [of _ "new_events ?w2 w'"]) (simp add: frame_def)
  next
    case False
    then consider "w' = ?w1" "rest = inputs" | "w' = ?w2" "rest = inputs"
      using assms by (cases "conn_NewChannel e w"; cases "declareMig e declared ?w1")
        (auto simp: run_migrator_def split: option.splits)
    then show ?thesis by cases (use quiet f1 f2 in blast)+
  qed
qed

end

section \<open>Properties\<close>

text \<open>Either the body was accepted by the destination and then the delivery was acknowledged, or the
  publication failed and the delivery went back to its queue.\<close>

definition forwarded_or_requeued ::
  "string \<Rightarrow> metric \<Rightarrow> metric \<Rightarrow> nat \<Rightarrow> amqp_body \<Rightarrow> event list \<Rightarrow> bool" where
  "forwarded_or_requeued dest m_ok m_err tag body es \<longleftrightarrow>
     (\<exists>r. es = [EvPublish dest body None, EvMetric m_ok, EvAck tag r]) \<or>
     (\<exists>err r. es = [EvPublish dest body (Some err), EvMetric m_err, EvNack tag True r])"

lemma forward_handled:
  "world_le w (forward e ctx dest m_ok m_err tag body w)"
  "forwarded_or_requeued dest m_ok m_err tag body (new_events w (forward e ctx dest m_ok m_err tag body w))"
  by (auto simp: forward_def amqp_Ack_def amqp_Nack_def forwarded_or_requeued_def metric_def Let_def
      new_events_emit_trans split: option.split)

interpretation dlq: migrator "dlq_step e q ctx"
  "\<lambda>t b. forwarded_or_requeued (dlq_dest q b) (IncDLQMigratorForwarded (dlq_dest q b)) IncDLQMigratorPublishError t b"
  for e q ctx
  by unfold_locales (simp_all add: dlq_step_def Let_def forward_handled)

interpretation save: migrator "save_step e q ctx"
  "\<lambda>t b. forwarded_or_requeued (queues_SaveToDBQueue q) IncSaveToDBDLQMigratorForwarded
     IncSaveToDBDLQMigratorPublishError t b"
  for e q ctx
  by unfold_locales (simp_all add: save_step_def forward_handled)

text \<open>C16. The dead-letter migrator loses nothing and duplicates nothing: whatever fails, the deliveries it
  took are a prefix of what its channel offered, handled in order and one at a time; each body was
  published unchanged to the destination its content determines and acknowledged afterwards, or, if
  the broker did not take it, returned to the dead-letter queue.\<close>

theorem runDLQMigratorOnce_accounts:
  "let ((res, rest), w') = runDLQMigratorOnce e q ctx consumeErr inputs w in
     \<exists>taken pre evss. inputs = map (\<lambda>(t, b). MigDelivery t b) taken @ rest \<and>
       new_events w w' = pre @ concat evss \<and> list_all setup_event pre \<and>
       list_all2 (\<lambda>(t, b) es.
         (\<exists>r. es = [EvPublish (dlq_dest q b) b None, EvMetric (IncDLQMigratorForwarded (dlq_dest q b)), EvAck t r]) \<or>
         (\<exists>err r. es = [EvPublish (dlq_dest q b) b (Some err), EvMetric IncDLQMigratorPublishError, EvNack t True r]))
         taken evss"
proof -
  obtain res rest w' where r: "runDLQMigratorOnce e q ctx consumeErr inputs w = ((res, rest), w')"
    by (metis surj_pair)
  from dlq.run_accounts [OF r [unfolded runDLQMigratorOnce_def]] r show ?thesis
    unfolding accounts_def forwarded_or_requeued_def by auto
qed

text \<open>Which dead letters are given another chance: a body goes to the destination queue exactly when
  it holds a message whose retries were exhausted, and a whole array goes with it; permanently failed
  messages and bodies that do not decode go to the permanent queue (if the two queues differ).
  Everything the result handler expires is recognised.\<close>

theorem dlq_dest_decides:
  assumes "queues_DLQMigratorDestQueue q \<noteq> queues_DLQPermQueue q"
  shows "(dlq_dest q (BodyObject (wire m)) = queues_DLQMigratorDestQueue q \<longleftrightarrow> ran_out m) \<and>
         (dlq_dest q (array_of ms) = queues_DLQMigratorDestQueue q \<longleftrightarrow> list_ex ran_out ms) \<and>
         dlq_dest q (BodyInvalid err) = queues_DLQPermQueue q \<and>
         dlq_dest q b \<in> {queues_DLQMigratorDestQueue q, queues_DLQPermQueue q} \<and>
         ran_out (rMessage (expire r))"
  using assms
  by (cases b) (auto simp: dlq_dest_def array_of_def wire_def list_ex_iff SetError_def expire_def Let_def)

theorem dlq_dest_decides_witness:
  "dlq_dest (Load_Queues Map.empty) (array_of [sample_message, SetError ErrMaxRetriesExceeded sample_message]) =
     ''sms_transactional'' \<and>
   dlq_dest (Load_Queues Map.empty) (BodyInvalid []) = ''SMS_DEAD_LETTER_QUEUE_PERM''"
  using dlq_dest_decides [of "Load_Queues Map.empty" _ "[sample_message, SetError ErrMaxRetriesExceeded sample_message]" "[]"]
  by (simp add: Load_Queues_def getEnv_def SetError_def)

end
