(* ===== verification/Sdp_Batching.thy ===== *)
theory Sdp_Batching
  imports Message_Router
begin

text \<open>
  The SDP batching path of \<^verbatim>\<open>internal/bootstrap/app.go\<close>: \<^verbatim>\<open>accumulateBatch\<close> and the loop of a
  worker that processes what it collected and settles all deliveries of the batch together. What the
  worker finds on the channel of deliveries is a list of observations, one per receive: a delivery,
  nothing yet, or that the channel is closed.
\<close>

section \<open>Accumulating\<close>

datatype recv = Got delivery | NotReady | ChanClosed

text \<open>The non-blocking loop; it does not look at the context.\<close>

fun drainMore ::
  "int \<Rightarrow> message list \<Rightarrow> delivery list \<Rightarrow> recv list \<Rightarrow> (message list \<times> delivery list) \<times> recv list" where
  "drainMore maxMsgs msgs batch [] = ((msgs, batch), [])"
| "drainMore maxMsgs msgs batch (r # rs) =
     (if int (length msgs) < maxMsgs then
        (case r of
           Got d \<Rightarrow> drainMore maxMsgs (msgs @ dMessages d) (batch @ [d]) rs
         | NotReady \<Rightarrow> ((msgs, batch), rs)
         | ChanClosed \<Rightarrow> ((msgs, batch), r # rs))
      else ((msgs, batch), r # rs))"

text \<open>The first \<^verbatim>\<open>select\<close> blocks (\<open>None\<close>: nothing arrives any more); \<open>done\<close> says that it takes the
  case of the cancelled context.\<close>

fun accumulateBatch ::
  "bool \<Rightarrow> int \<Rightarrow> recv list \<Rightarrow> ((message list \<times> delivery list) \<times> recv list) option" where
  "accumulateBatch done maxMsgs [] = (if done then Some (([], []), []) else None)"
| "accumulateBatch done maxMsgs (r # rs) =
     (if done then Some (([], []), r # rs)
      else
        (case r of
           Got d \<Rightarrow> Some (drainMore maxMsgs (dMessages d) [d] rs)
         | NotReady \<Rightarrow> accumulateBatch done maxMsgs rs
         | ChanClosed \<Rightarrow> Some (([], []), r # rs)))"

section \<open>The worker\<close>

fun ackAll :: "env \<Rightarrow> delivery list \<Rightarrow> world \<Rightarrow> world" where
  "ackAll e [] w = w"
| "ackAll e (d # ds) w = ackAll e ds (snd (d_Ack e d w))"

fun nackAll :: "env \<Rightarrow> delivery list \<Rightarrow> world \<Rightarrow> world" where
  "nackAll e [] w = w"
| "nackAll e (d # ds) w = nackAll e ds (snd (d_Nack e d True w))"

definition settleBatch ::
  "env \<Rightarrow> processor \<Rightarrow> ctxid \<Rightarrow> message list \<Rightarrow> delivery list \<Rightarrow> world \<Rightarrow> world" where
  "settleBatch e p ctx msgs deliveryBatch w =
     (case ProcessMessages e p ctx msgs w of
        ((_, Some err), w) \<Rightarrow> nackAll e deliveryBatch w
      | ((_, None), w) \<Rightarrow> ackAll e deliveryBatch w)"

lemma drainMore_length: "drainMore m ms b rs = (x, rs') \<Longrightarrow> length rs' \<le> length rs"
  by (induction m ms b rs rule: drainMore.induct) (auto split: if_splits recv.splits)

lemma accumulateBatch_length:
  "accumulateBatch done m rs = Some ((msgs, batch), rs') \<Longrightarrow> msgs \<noteq> [] \<Longrightarrow> length rs' < length rs"
  by (induction "done" m rs rule: accumulateBatch.induct)
    (auto split: if_splits recv.splits dest!: drainMore_length)

text \<open>A worker runs until it stops or has to wait: what is left unsettled, what is left on the channel,
  the world. With a cancelled context the first \<^verbatim>\<open>select\<close> takes either ready case.\<close>

function batchWorker ::
  "env \<Rightarrow> processor \<Rightarrow> ctxid \<Rightarrow> int \<Rightarrow> recv list \<Rightarrow> world \<Rightarrow> (delivery list \<times> recv list) \<times> world" where
  "batchWorker e p ctx bs rs w =
     (let done = ctxdone w ctx \<and> (rs = [] \<or> hd rs = NotReady \<or> pick e (trace w) 0 mod 2 = 0) in
      case accumulateBatch done bs rs of
        None \<Rightarrow> (([], []), w)
      | Some ((msgs, deliveryBatch), rs') \<Rightarrow>
          if msgs = [] then ((deliveryBatch, rs'), w)
          else batchWorker e p ctx bs rs' (settleBatch e p ctx msgs deliveryBatch w))"
  by pat_completeness auto
termination
  by (relation "measure (\<lambda>(e, p, ctx, bs, rs, w). length rs)") (auto dest: accumulateBatch_length)

declare batchWorker.simps [simp del]

section \<open>Facts\<close>

fun got1 :: "recv \<Rightarrow> delivery list" where
  "got1 (Got d) = [d]"
| "got1 _ = []"

definition got :: "recv list \<Rightarrow> delivery list" where
  "got rs = concat (map got1 rs)"

lemma got_simps [simp]: "got [] = []" "got (r # rs) = got1 r @ got rs"
  by (simp_all add: got_def)

abbreviation messages_of :: "delivery list \<Rightarrow> message list" where
  "messages_of ds \<equiv> concat (map dMessages ds)"

lemma drainMore_spec:
  assumes "drainMore m msgs b rs = ((msgs', b'), rs')" and "msgs = messages_of b"
  shows "\<exists>ds. b' = b @ ds \<and> got rs = ds @ got rs' \<and> msgs' = messages_of b' \<and>
           (ds \<noteq> [] \<longrightarrow> int (length (messages_of (butlast b'))) < m)"
  using assms
proof (induction m msgs b rs rule: drainMore.induct)
  case (2 m msgs b r rs)
  show ?case
  proof (cases "int (length msgs) < m")
    case True
    show ?thesis
    proof (cases r)
      case (Got d)
      with True 2 have "\<exists>ds. b' = (b @ [d]) @ ds \<and> got rs = ds @ got rs' \<and> msgs' = messages_of b' \<and>
          (ds \<noteq> [] \<longrightarrow> int (length (messages_of (butlast b'))) < m)" by simp
      then obtain ds where ds: "b' = (b @ [d]) @ ds" "got rs = ds @ got rs'" "msgs' = messages_of b'"
        "ds \<noteq> [] \<longrightarrow> int (length (messages_of (butlast b'))) < m" by blast
      have "int (length (messages_of (butlast b'))) < m"
        using ds(1,4) True "2.prems"(2) by (cases "ds = []") auto
      with ds Got show ?thesis by (intro exI [of _ "d # ds"]) simp
    qed (use True 2 in auto)
  qed (use 2 in auto)
qed auto

lemma accumulateBatch_spec:
  assumes "accumulateBatch done m rs = Some ((msgs, b), rs')"
  shows "msgs = messages_of b \<and> got rs = b @ got rs' \<and>
         (1 < length b \<longrightarrow> int (length (messages_of (butlast b))) < m)"
  using assms
proof (induction "done" m rs rule: accumulateBatch.induct)
  case (2 "done" m r rs)
  show ?case
  proof (cases "done")
    case False
    show ?thesis
    proof (cases r)
      case (Got d)
      with 2 False have "drainMore m (dMessages d) [d] rs = ((msgs, b), rs')" by simp
      from drainMore_spec [OF this] Got show ?thesis by auto
    qed (use 2 False in auto)
  qed (use 2 in auto)
qed (auto split: if_splits)

text \<open>\<open>settled_by P ds w w'\<close>: the deliveries \<open>ds\<close> were settled in order, each by an event \<open>P\<close>
  allows.\<close>

definition settled_by :: "(delivery \<Rightarrow> event \<Rightarrow> bool) \<Rightarrow> delivery list \<Rightarrow> world \<Rightarrow> world \<Rightarrow> bool" where
  "settled_by P ds w w' \<longleftrightarrow> world_le w w' \<and> list_all2 P ds (settles w w')"

fun acked :: "delivery \<Rightarrow> event \<Rightarrow> bool" where
  "acked d (EvAck t r) = (t = dTag d)"
| "acked d _ = False"

fun requeued :: "delivery \<Rightarrow> event \<Rightarrow> bool" where
  "requeued d (EvNack t q r) = (t = dTag d \<and> q)"
| "requeued d _ = False"

lemma settles_trans: "world_le a b \<Longrightarrow> world_le b c \<Longrightarrow> settles a c = settles a b @ settles b c"
  using new_events_trans [of a b c] by (simp add: settles_def)

lemma settled_by_trans:
  "settled_by P ds a b \<Longrightarrow> settled_by P ds' b c \<Longrightarrow> settled_by P (ds @ ds') a c"
  using settles_trans [of a b c] world_le_trans [of a b c] by (auto simp: settled_by_def intro: list_all2_appendI)

lemma settled_by_mono: "settled_by P ds a b \<Longrightarrow> (\<And>d ev. P d ev \<Longrightarrow> Q d ev) \<Longrightarrow> settled_by Q ds a b"
  by (auto simp: settled_by_def elim: list_all2_mono)

lemma settled_by_refl [simp]: "settled_by P [] w w"
  by (simp add: settled_by_def settles_def)

lemma settled_by_published: "published ps a b \<Longrightarrow> settled_by P ds b c \<Longrightarrow> settled_by P ds a c"
  using settles_trans [of a b c] world_le_trans [of a b c] by (auto simp: settled_by_def published_def)

lemma d_Ack_settled: "settled_by acked [d] w (snd (d_Ack e d w))"
  by (simp add: settled_by_def settles_def d_Ack_def Let_def)

lemma d_Nack_settled: "settled_by requeued [d] w (snd (d_Nack e d True w))"
  by (simp add: settled_by_def settles_def d_Nack_def amqp_Nack_def Let_def)

lemma ackAll_settled: "settled_by acked ds w (ackAll e ds w)"
proof (induction ds arbitrary: w)
  case (Cons d ds)
  show ?case using settled_by_trans [OF d_Ack_settled Cons.IH [of "snd (d_Ack e d w)"]] by simp
qed simp

lemma nackAll_settled: "settled_by requeued ds w (nackAll e ds w)"
proof (induction ds arbitrary: w)
  case (Cons d ds)
  show ?case using settled_by_trans [OF d_Nack_settled Cons.IH [of "snd (d_Nack e d True w)"]] by simp
qed simp

lemma ackAll_frame: "frame is_settle w (ackAll e ds w)"
proof (induction ds arbitrary: w)
  case (Cons d ds)
  have "frame is_settle w (snd (d_Ack e d w))" by (simp add: d_Ack_def Let_def)
  from frame_trans [OF this Cons.IH] show ?case by simp
qed simp

lemma nackAll_frame: "frame is_settle w (nackAll e ds w)"
proof (induction ds arbitrary: w)
  case (Cons d ds)
  have "frame is_settle w (snd (d_Nack e d True w))" by (simp add: d_Nack_def amqp_Nack_def Let_def)
  from frame_trans [OF this Cons.IH] show ?case by simp
qed simp

lemma settle_accepts_nothing: "frame is_settle a b \<Longrightarrow> accepted (new_events a b) = []"
proof -
  assume a: "frame is_settle a b"
  have "is_settle ev \<Longrightarrow> accepted1 ev = []" for ev by (cases ev) auto
  with a show ?thesis by (rule frame_silent(2))
qed

section \<open>Properties\<close>



lemma settleBatch_settled: "proc_ok p \<Longrightarrow> settled_by (\<lambda>d ev. acked d ev \<or> requeued d ev) ds w (settleBatch e p ctx msgs ds w)"
proof -
  assume ok: "proc_ok p"
  obtain b0 err w1 where pm: "ProcessMessages e p ctx msgs w = ((b0, err), w1)" by (metis surj_pair)
  from ProcessMessages_facts [OF ok pm] obtain ps where "published ps w w1" by (auto simp: processed_as_def)
  from settled_by_published [OF this ackAll_settled] settled_by_published [OF this nackAll_settled]
  have "settled_by acked ds w (ackAll e ds w1)" "settled_by requeued ds w (nackAll e ds w1)" .
  then show ?thesis
    using pm by (auto simp: settleBatch_def elim: settled_by_mono split: option.split)
qed

lemma accumulateBatch_blocked: "accumulateBatch done m rs = None \<Longrightarrow> got rs = []"
  by (induction "done" m rs rule: accumulateBatch.induct) (auto split: if_splits recv.splits)

definition worker_done :: "env \<Rightarrow> ctxid \<Rightarrow> recv list \<Rightarrow> world \<Rightarrow> bool" where
  "worker_done e ctx rs w \<longleftrightarrow> ctxdone w ctx \<and> (rs = [] \<or> hd rs = NotReady \<or> pick e (trace w) 0 mod 2 = 0)"

lemma batchWorker_unfold:
  "batchWorker e p ctx bs rs w =
     (case accumulateBatch (worker_done e ctx rs w) bs rs of
        None \<Rightarrow> (([], []), w)
      | Some ((msgs, ds), rs') \<Rightarrow>
          if msgs = [] then ((ds, rs'), w) else batchWorker e p ctx bs rs' (settleBatch e p ctx msgs ds w))"
  by (simp add: batchWorker.simps [of e p ctx bs rs w] worker_done_def Let_def)

lemma batchWorker_settles:
  "proc_ok p \<Longrightarrow> batchWorker e p ctx bs rs w = ((left, rs'), w') \<Longrightarrow>
   \<exists>ds. got rs = ds @ left @ got rs' \<and> settled_by (\<lambda>d ev. acked d ev \<or> requeued d ev) ds w w' \<and>
        messages_of left = []"
proof (induction "length rs" arbitrary: rs w rule: less_induct)
  case less
  show ?case
  proof (cases "accumulateBatch (worker_done e ctx rs w) bs rs")
    case None
    then show ?thesis
      using less.prems(2) accumulateBatch_blocked [OF None]
      by (intro exI [of _ "[]"]) (simp add: batchWorker_unfold [of e p ctx bs rs w])
  next
    case (Some x)
    then obtain msgs b rs1 where acc: "accumulateBatch (worker_done e ctx rs w) bs rs = Some ((msgs, b), rs1)"
      by (metis surj_pair)
    note spec = accumulateBatch_spec [OF acc]
    show ?thesis
    proof (cases "msgs = []")
      case True
      then show ?thesis
        using less.prems(2) spec by (intro exI [of _ "[]"]) (simp add: batchWorker_unfold [of e p ctx bs rs w] acc)
    next
      case False
      let ?w1 = "settleBatch e p ctx msgs b w"
      have "batchWorker e p ctx bs rs1 ?w1 = ((left, rs'), w')"
        using less.prems(2) False by (simp add: batchWorker_unfold [of e p ctx bs rs w] acc)
      from less.hyps [OF accumulateBatch_length [OF acc False] less.prems(1) this] obtain ds
        where ds: "got rs1 = ds @ left @ got rs'" "settled_by (\<lambda>d ev. acked d ev \<or> requeued d ev) ds ?w1 w'"
          "messages_of left = []" by blast
      show ?thesis
        using spec ds settled_by_trans [OF settleBatch_settled [OF less.prems(1)] ds(2)]
        by (intro exI [of _ "b @ ds"]) simp
    qed
  qed
qed

text \<open>C15. A batching worker accounts for every delivery it receives, in order: it settles each exactly
  once, except that a worker which finds nothing but deliveries without messages stops and leaves
  these unsettled; if no delivery is empty, nothing it received is left unsettled.\<close>

theorem batchWorker_accounts:
  assumes "limits_ok (pResultHandler cfg)"
    and "batchWorker e (NewProcessor cfg) ctx bs rs w = ((left, rs'), w')"
  shows "(\<exists>ds. got rs = ds @ left @ got rs' \<and>
            settled_by (\<lambda>d ev. acked d ev \<or> requeued d ev) ds w w') \<and>
         list_all (\<lambda>d. dMessages d = []) left"
proof -
  have "proc_ok (NewProcessor cfg)" using assms(1) by simp
  from batchWorker_settles [OF this assms(2)] show ?thesis by (auto simp: list_all_iff)
qed

theorem batchWorker_accounts_witness:
  "let d = \<lparr>dTag = 7, dMessages = []\<rparr> in
   \<exists>w'. batchWorker base_env (NewProcessor sample_processor) AppCtx 50 [Got d, NotReady, Got d] init_world =
          (([d], [Got d]), w') \<and> list_all (\<lambda>d. dMessages d = []) [d]"
proof -
  let ?d = "\<lparr>dTag = 7, dMessages = []\<rparr>"
  have r: "batchWorker base_env (NewProcessor sample_processor) AppCtx 50 [Got ?d, NotReady, Got ?d] init_world =
      (([?d], [Got ?d]), init_world)"
    by (simp add: batchWorker_unfold worker_done_def init_world_def)
  from batchWorker_accounts [OF sample_limits r] r show ?thesis unfolding Let_def by blast
qed

end
