(* ===== verification/Amqp_Connection.thy ===== *)
theory Amqp_Connection
  imports Publisher
begin

text \<open>
  \<^verbatim>\<open>internal/sms/adapters/rabbitmq/connection.go\<close>: the connection to the broker with its
  reconnect handler. Connections of the AMQP library are numbered; the broker or the network may
  drop one at any time, which wakes the handler that waits on its \<^verbatim>\<open>NotifyClose\<close> channel, while
  closing one ends that handler. \<^verbatim>\<open>connect\<close> holds the lock, so it is one step; the unlocked reads
  of \<^verbatim>\<open>c.closed\<close> in the handler are steps of their own, and \<^verbatim>\<open>Close\<close> may come between any two
  steps.
\<close>

section \<open>State and operations\<close>

datatype handler_pc = Waiting nat | Woken | LoopHead | Sleeping | HandlerDone

record amqp_conn =
  acConn :: "nat option"
  acClosed :: bool
  acSockets :: "nat list"
  acNext :: nat
  acHandlers :: "handler_pc list"

text \<open>What becomes of \<^verbatim>\<open>amqp.Dial\<close> and \<^verbatim>\<open>conn.Channel()\<close>.\<close>

datatype dial_outcome = DialErr | ChannelErr | DialOk

text \<open>A connection is gone, and its handler goes on at \<open>pc\<close>.\<close>

definition drop_socket :: "nat \<Rightarrow> handler_pc \<Rightarrow> amqp_conn \<Rightarrow> amqp_conn" where
  "drop_socket n pc s =
     s\<lparr>acSockets := filter (\<lambda>k. k \<noteq> n) (acSockets s),
       acHandlers := map (\<lambda>h. if h = Waiting n then pc else h) (acHandlers s)\<rparr>"

definition close_current :: "amqp_conn \<Rightarrow> amqp_conn" where
  "close_current s = (case acConn s of None \<Rightarrow> s | Some n \<Rightarrow> drop_socket n HandlerDone s)"

definition connect :: "dial_outcome \<Rightarrow> amqp_conn \<Rightarrow> bool \<times> amqp_conn" where
  "connect out s =
     (let s = close_current s in
      case out of
        DialErr \<Rightarrow> (False, s)
      | ChannelErr \<Rightarrow> (False, s\<lparr>acNext := Suc (acNext s)\<rparr>)
      | DialOk \<Rightarrow>
          (True, s\<lparr>acConn := Some (acNext s), acSockets := acSockets s @ [acNext s],
                   acNext := Suc (acNext s), acHandlers := acHandlers s @ [Waiting (acNext s)]\<rparr>))"

definition fresh_conn :: amqp_conn where
  "fresh_conn = \<lparr>acConn = None, acClosed = False, acSockets = [], acNext = 0, acHandlers = []\<rparr>"

definition NewConnection :: "dial_outcome \<Rightarrow> amqp_conn option" where
  "NewConnection out = (case connect out fresh_conn of (ok, s) \<Rightarrow> if ok then Some s else None)"

definition IsConnected :: "amqp_conn \<Rightarrow> bool" where
  "IsConnected s \<longleftrightarrow> (case acConn s of None \<Rightarrow> False | Some n \<Rightarrow> n \<in> set (acSockets s))"

definition conn_Close :: "amqp_conn \<Rightarrow> amqp_conn" where
  "conn_Close s = close_current (s\<lparr>acClosed := True\<rparr>)"

definition set_pc :: "nat \<Rightarrow> handler_pc \<Rightarrow> amqp_conn \<Rightarrow> amqp_conn" where
  "set_pc i pc s = s\<lparr>acHandlers := (acHandlers s)[i := pc]\<rparr>"

definition handler_at :: "amqp_conn \<Rightarrow> nat \<Rightarrow> handler_pc \<Rightarrow> bool" where
  "handler_at s i pc \<longleftrightarrow> i < length (acHandlers s) \<and> acHandlers s ! i = pc"

inductive conn_step :: "amqp_conn \<Rightarrow> amqp_conn \<Rightarrow> bool" where
  lost: "n \<in> set (acSockets s) \<Longrightarrow> conn_step s (drop_socket n Woken s)"
| woken: "handler_at s i Woken \<Longrightarrow> conn_step s (set_pc i (if acClosed s then HandlerDone else LoopHead) s)"
| loop: "handler_at s i LoopHead \<Longrightarrow> conn_step s (set_pc i (if acClosed s then HandlerDone else Sleeping) s)"
| failed: "\<lbrakk> handler_at s i Sleeping; connect out s = (False, s') \<rbrakk> \<Longrightarrow> conn_step s (set_pc i LoopHead s')"
| reconnected: "\<lbrakk> handler_at s i Sleeping; connect out s = (True, s') \<rbrakk> \<Longrightarrow> conn_step s (set_pc i HandlerDone s')"
| close: "conn_step s (conn_Close s)"

inductive conn_reachable :: "amqp_conn \<Rightarrow> bool" where
  init: "NewConnection out = Some s \<Longrightarrow> conn_reachable s"
| step: "conn_reachable s \<Longrightarrow> conn_step s s' \<Longrightarrow> conn_reachable s'"

section \<open>Invariant\<close>

definition active :: "amqp_conn \<Rightarrow> handler_pc list" where
  "active s = filter (\<lambda>h. h \<noteq> HandlerDone) (acHandlers s)"

text \<open>Either the current connection is open and one handler waits on it, or no connection is open and
  at most one handler is busy reconnecting; without \<^verbatim>\<open>Close\<close> there is exactly one.\<close>

definition conn_inv :: "amqp_conn \<Rightarrow> bool" where
  "conn_inv s \<longleftrightarrow>
     (\<exists>n. acConn s = Some n \<and> n < acNext s \<and>
        (acSockets s = [n] \<and> active s = [Waiting n] \<or>
         acSockets s = [] \<and> (\<exists>h \<in> {Woken, LoopHead, Sleeping}. active s = [h]) \<or>
         acSockets s = [] \<and> active s = [] \<and> acClosed s))"

lemma active_split:
  assumes "handler_at s i h" and "active s = [h']" and "h \<noteq> HandlerDone"
  obtains xs ys where "acHandlers s = xs @ h # ys" and "i = length xs" and "h' = h"
    and "filter (\<lambda>h. h \<noteq> HandlerDone) xs = []" and "filter (\<lambda>h. h \<noteq> HandlerDone) ys = []"
proof -
  let ?f = "filter (\<lambda>h. h \<noteq> HandlerDone)"
  have i: "i < length (acHandlers s)" "acHandlers s ! i = h" using assms(1) by (simp_all add: handler_at_def)
  then have split: "acHandlers s = take i (acHandlers s) @ h # drop (Suc i) (acHandlers s)"
    using id_take_nth_drop by fastforce
  then have "?f (take i (acHandlers s)) @ h # ?f (drop (Suc i) (acHandlers s)) = [h']"
    using assms(2,3) unfolding active_def by (metis (mono_tags, lifting) filter.simps(2) filter_append)
  then have "?f (take i (acHandlers s)) = []" "?f (drop (Suc i) (acHandlers s)) = []" "h' = h"
    by (auto simp: append_eq_Cons_conv)
  then show thesis using that [OF split] i by simp
qed

lemma active_update:
  assumes "handler_at s i h" and "active s = [h']" and "h \<noteq> HandlerDone"
  shows "h' = h" and "active (set_pc i pc s) = (if pc = HandlerDone then [] else [pc])"
proof -
  obtain xs ys where hs: "acHandlers s = xs @ h # ys" "i = length xs" "h' = h"
    "filter (\<lambda>h. h \<noteq> HandlerDone) xs = []" "filter (\<lambda>h. h \<noteq> HandlerDone) ys = []"
    using active_split [OF assms] .
  then show "h' = h" and "active (set_pc i pc s) = (if pc = HandlerDone then [] else [pc])"
    by (simp_all add: active_def set_pc_def)
qed

lemma no_active: "handler_at s i h \<Longrightarrow> h \<noteq> HandlerDone \<Longrightarrow> active s \<noteq> []"
  by (auto simp: handler_at_def active_def filter_empty_conv)

lemma filter_map_pc:
  "filter (\<lambda>h. h \<noteq> HandlerDone) (map (\<lambda>h. if h = Waiting n then pc else h) hs) =
     filter (\<lambda>h. h \<noteq> HandlerDone)
       (map (\<lambda>h. if h = Waiting n then pc else h) (filter (\<lambda>h. h \<noteq> HandlerDone) hs))"
  by (induction hs) auto

lemma drop_socket_fields [simp]:
  "acConn (drop_socket n pc s) = acConn s" "acNext (drop_socket n pc s) = acNext s"
  "acClosed (drop_socket n pc s) = acClosed s"
  "acSockets (drop_socket n pc s) = filter (\<lambda>k. k \<noteq> n) (acSockets s)"
  by (simp_all add: drop_socket_def)

lemma active_drop:
  "active (drop_socket n pc s) =
     filter (\<lambda>h. h \<noteq> HandlerDone) (map (\<lambda>h. if h = Waiting n then pc else h) (active s))"
  by (simp add: active_def drop_socket_def filter_map_pc [of n pc "acHandlers s"])

lemma set_pc_fields [simp]:
  "acConn (set_pc i pc s) = acConn s" "acNext (set_pc i pc s) = acNext s"
  "acClosed (set_pc i pc s) = acClosed s" "acSockets (set_pc i pc s) = acSockets s"
  by (simp_all add: set_pc_def)

lemma close_current_facts:
  assumes "conn_inv s"
  shows "acSockets (close_current s) = []" and "active (close_current s) = filter (\<lambda>h. \<forall>n. h \<noteq> Waiting n) (active s)"
    and "acConn (close_current s) = acConn s" and "acNext (close_current s) = acNext s"
    and "acClosed (close_current s) = acClosed s"
  using assms by (auto simp: conn_inv_def close_current_def active_drop)

lemma close_current_handler: "handler_at s i Sleeping \<Longrightarrow> handler_at (close_current s) i Sleeping"
  by (simp add: handler_at_def close_current_def drop_socket_def split: option.split)

lemma active_append:
  "handler_at s i h \<Longrightarrow> acHandlers s' = acHandlers s @ [pc'] \<Longrightarrow>
   active (set_pc i pc s') = active (set_pc i pc s) @ filter (\<lambda>h. h \<noteq> HandlerDone) [pc']"
  by (simp add: handler_at_def active_def set_pc_def list_update_append1)

lemma conn_inv_sleeping:
  assumes "conn_inv s" and "handler_at s i Sleeping"
  shows "active (close_current s) = [Sleeping]"
proof -
  obtain h where "active s = [h]" using assms no_active [OF assms(2)] by (auto simp: conn_inv_def)
  then show ?thesis using active_update(1) [OF assms(2)] close_current_facts(2) [OF assms(1)] by simp
qed

lemma conn_inv_connect:
  assumes inv: "conn_inv s" and i: "handler_at s i Sleeping" and c: "connect out s = (ok, s')"
  shows "conn_inv (set_pc i (if ok then HandlerDone else LoopHead) s')"
proof -
  note cc = close_current_facts [OF inv] and i' = close_current_handler [OF i]
  have act: "active (set_pc i pc (close_current s)) = (if pc = HandlerDone then [] else [pc])" for pc
    by (rule active_update(2) [OF i' conn_inv_sleeping [OF inv i]]) simp
  obtain n where n: "acConn s = Some n" "n < acNext s" using inv by (auto simp: conn_inv_def)
  show ?thesis
  proof (cases out)
    case DialErr
    with c cc n act [of LoopHead] show ?thesis by (auto simp: connect_def conn_inv_def)
  next
    case ChannelErr
    have "active (set_pc i LoopHead (close_current s\<lparr>acNext := k\<rparr>)) = active (set_pc i LoopHead (close_current s))" for k
      by (simp add: active_def set_pc_def)
    with ChannelErr c cc n act [of LoopHead] show ?thesis by (auto simp: connect_def conn_inv_def Let_def)
  next
    case DialOk
    let ?k = "acNext (close_current s)"
    have s': "ok" "s' = close_current s\<lparr>acConn := Some ?k, acSockets := acSockets (close_current s) @ [?k],
        acNext := Suc ?k, acHandlers := acHandlers (close_current s) @ [Waiting ?k]\<rparr>"
      using DialOk c by (simp_all add: connect_def Let_def)
    then have "active (set_pc i HandlerDone s') = [Waiting ?k]"
      using active_append [OF i', of s' "Waiting ?k" HandlerDone] act [of HandlerDone] by simp
    with s' cc show ?thesis by (simp add: conn_inv_def)
  qed
qed

lemma conn_inv_step: "conn_step s s' \<Longrightarrow> conn_inv s \<Longrightarrow> conn_inv s'"
proof (induction rule: conn_step.induct)
  case (lost n s)
  then show ?case by (auto simp: conn_inv_def active_drop)
next
  case (woken s i)
  then obtain h where h: "active s = [h]" using no_active [OF woken.hyps] by (auto simp: conn_inv_def)
  with woken active_update [OF woken.hyps h] show ?case by (auto simp: conn_inv_def)
next
  case (loop s i)
  then obtain h where h: "active s = [h]" using no_active [OF loop.hyps] by (auto simp: conn_inv_def)
  with loop active_update [OF loop.hyps h] show ?case by (auto simp: conn_inv_def)
next
  case (failed s i out s')
  then show ?case using conn_inv_connect [of s i out False s'] by simp
next
  case (reconnected s i out s')
  then show ?case using conn_inv_connect [of s i out True s'] by simp
next
  case (close s)
  have act: "active (s\<lparr>acClosed := True\<rparr>) = active s" by (simp add: active_def)
  then have "conn_inv (s\<lparr>acClosed := True\<rparr>)" using close by (auto simp: conn_inv_def)
  from close_current_facts [OF this, unfolded act] close show ?case by (auto simp: conn_inv_def conn_Close_def)
qed

lemma conn_inv_reachable: "conn_reachable s \<Longrightarrow> conn_inv s"
proof (induction rule: conn_reachable.induct)
  case (init out s)
  then show ?case
    by (cases out) (auto simp: NewConnection_def connect_def close_current_def fresh_conn_def conn_inv_def active_def Let_def)
qed (rule conn_inv_step)

section \<open>Properties\<close>

text \<open>C18. The gateway holds at most one connection to the broker, in every reachable state, whatever the
  broker drops and whenever \<^verbatim>\<open>Close\<close> is called: an open connection is the current one and exactly one
  handler waits for its loss; without a connection at most one handler is reconnecting; and as long as
  \<^verbatim>\<open>Close\<close> was not called, exactly one handler is alive.\<close>

theorem connection_invariant:
  assumes "conn_reachable s"
  shows "length (acSockets s) \<le> 1 \<and> length (active s) \<le> 1 \<and>
         (\<forall>n. n \<in> set (acSockets s) \<longrightarrow> acConn s = Some n \<and> active s = [Waiting n]) \<and>
         (\<not> acClosed s \<longrightarrow> length (active s) = 1) \<and>
         IsConnected s = (acSockets s \<noteq> [])"
  using conn_inv_reachable [OF assms] by (auto simp: conn_inv_def IsConnected_def)

definition connected0 :: amqp_conn where
  "connected0 = snd (connect DialOk fresh_conn)"

lemma connected0_reachable: "conn_reachable connected0"
  by (rule conn_reachable.init [of DialOk]) (simp add: NewConnection_def connected0_def connect_def Let_def)

theorem connection_invariant_witness:
  "IsConnected connected0 \<and> active (drop_socket 0 Woken connected0) = [Woken] \<and>
   length (active (drop_socket 0 Woken connected0)) \<le> 1"
proof -
  have "conn_step connected0 (drop_socket 0 Woken connected0)"
    by (rule conn_step.lost) (simp add: connected0_def connect_def fresh_conn_def close_current_def)
  then have "conn_reachable (drop_socket 0 Woken connected0)" by (rule conn_reachable.step [OF connected0_reachable])
  from connection_invariant [OF this] show ?thesis
    by (simp add: connected0_def connect_def fresh_conn_def close_current_def drop_socket_def active_def
        IsConnected_def)
qed

text \<open>A handler makes its own steps until the connection is back, if dialling succeeds.\<close>

lemma sleeping_recovers:
  assumes "conn_inv s" and "handler_at s i Sleeping"
  shows "\<exists>s'. conn_step s s' \<and> IsConnected s' \<and> acClosed s' = acClosed s"
proof -
  let ?s' = "set_pc i HandlerDone (snd (connect DialOk s))"
  have "conn_step s ?s'" by (rule conn_step.reconnected [OF assms(2), of DialOk]) (simp add: connect_def Let_def)
  moreover have "IsConnected ?s'" "acClosed ?s' = acClosed s"
    using close_current_facts(5) [OF assms(1)] by (simp_all add: connect_def Let_def IsConnected_def)
  ultimately show ?thesis by blast
qed

lemma active_handler: "active s = [h] \<Longrightarrow> \<exists>i. handler_at s i h"
proof -
  assume "active s = [h]"
  then have "h \<in> set (acHandlers s)" unfolding active_def by (metis filter_is_subset list.set_intros(1) subsetD)
  then show ?thesis by (auto simp: handler_at_def in_set_conv_nth)
qed

lemma loophead_recovers:
  assumes "conn_inv s" and "handler_at s i LoopHead" and "\<not> acClosed s"
  shows "\<exists>s'. (conn_step ^^ 2) s s' \<and> IsConnected s' \<and> \<not> acClosed s'"
proof -
  let ?s1 = "set_pc i Sleeping s"
  have st: "conn_step s ?s1" using conn_step.loop [OF assms(2)] assms(3) by simp
  moreover have "handler_at ?s1 i Sleeping" using assms(2) by (simp add: handler_at_def set_pc_def)
  from sleeping_recovers [OF conn_inv_step [OF st assms(1)] this] obtain s' where
    "conn_step ?s1 s'" "IsConnected s'" "\<not> acClosed s'" using assms(3) by auto
  ultimately show ?thesis by (auto simp: numeral_2_eq_2)
qed

text \<open>C19. The connection comes back: from every reachable state before \<^verbatim>\<open>Close\<close> at most three steps
  lead to a connected state: the handler wakes up, sleeps, and dials successfully.\<close>

theorem connection_recovers:
  assumes "conn_reachable s" and "\<not> acClosed s"
  shows "\<exists>k s'. k \<le> 3 \<and> (conn_step ^^ k) s s' \<and> IsConnected s' \<and> \<not> acClosed s'"
proof -
  note inv = conn_inv_reachable [OF assms(1)]
  from inv assms(2) consider "IsConnected s" | "active s = [Woken]" | "active s = [LoopHead]" | "active s = [Sleeping]"
    by (auto simp: conn_inv_def IsConnected_def)
  then show ?thesis
  proof cases
    case 1
    then show ?thesis using assms(2) by (intro exI [of _ 0]) auto
  next
    case 2
    then obtain i where i: "handler_at s i Woken" using active_handler by blast
    let ?s1 = "set_pc i LoopHead s"
    have st: "conn_step s ?s1" using conn_step.woken [OF i] assms(2) by simp
    have "handler_at ?s1 i LoopHead" using i by (simp add: handler_at_def set_pc_def)
    from loophead_recovers [OF conn_inv_step [OF st inv] this] assms(2) obtain s' where
      s': "(conn_step ^^ 2) ?s1 s'" "IsConnected s'" "\<not> acClosed s'" by auto
    have "(conn_step ^^ Suc 2) s s'" using relpowp_Suc_I2 [of conn_step s ?s1 2 s'] st s'(1) by blast
    with s' show ?thesis by (intro exI [of _ "Suc 2"]) auto
  next
    case 3
    then obtain i where "handler_at s i LoopHead" using active_handler by blast
    from loophead_recovers [OF inv this assms(2)] show ?thesis by (intro exI [of _ 2]) auto
  next
    case 4
    then obtain i where "handler_at s i Sleeping" using active_handler by blast
    from sleeping_recovers [OF inv this] assms(2) obtain s' where "conn_step s s'" "IsConnected s'" "\<not> acClosed s'"
      by auto
    then show ?thesis by (intro exI [of _ "Suc 0"]) auto
  qed
qed

theorem connection_recovers_witness:
  "\<exists>k s'. k \<le> 3 \<and> (conn_step ^^ k) (drop_socket 0 Woken connected0) s' \<and> IsConnected s' \<and> \<not> acClosed s'"
proof -
  have "conn_step connected0 (drop_socket 0 Woken connected0)"
    by (rule conn_step.lost) (simp add: connected0_def connect_def fresh_conn_def close_current_def)
  then have "conn_reachable (drop_socket 0 Woken connected0)" by (rule conn_reachable.step [OF connected0_reachable])
  then show ?thesis
    by (rule connection_recovers) (simp add: connected0_def connect_def fresh_conn_def close_current_def)
qed

text \<open>After \<^verbatim>\<open>Close\<close> nothing reconnects unless a handler is already past its last look at
  \<^verbatim>\<open>c.closed\<close>.\<close>

definition shut :: "amqp_conn \<Rightarrow> bool" where
  "shut s \<longleftrightarrow> acClosed s \<and> acSockets s = [] \<and> Sleeping \<notin> set (acHandlers s)"

lemma shut_step: "conn_step s s' \<Longrightarrow> shut s \<Longrightarrow> shut s'"
proof (induction rule: conn_step.induct)
  case (close s)
  then show ?case
    by (auto simp: shut_def conn_Close_def close_current_def drop_socket_def split: option.splits if_splits)
next
  case (woken s i)
  then show ?case using set_update_subset_insert [of "acHandlers s" i HandlerDone]
    by (auto simp: shut_def set_pc_def)
next
  case (loop s i)
  then show ?case using set_update_subset_insert [of "acHandlers s" i HandlerDone]
    by (auto simp: shut_def set_pc_def)
qed (auto simp: shut_def handler_at_def in_set_conv_nth)

lemma shut_steps: "conn_step\<^sup>*\<^sup>* s s' \<Longrightarrow> shut s \<Longrightarrow> shut s'"
  by (induction rule: rtranclp_induct) (auto intro: shut_step)

lemma conn_Close_facts:
  assumes "conn_inv s"
  shows "acClosed (conn_Close s)" and "acSockets (conn_Close s) = []"
    and "Sleeping \<in> set (acHandlers (conn_Close s)) \<longleftrightarrow> Sleeping \<in> set (acHandlers s)"
  using assms by (auto simp: conn_inv_def conn_Close_def close_current_def drop_socket_def image_iff)

text \<open>C20. \<^verbatim>\<open>Close\<close> is final exactly when no reconnect handler is asleep: if one is, it dials and leaves
  an open connection behind after \<^verbatim>\<open>Close\<close> returned; if none is, the gateway never connects again.\<close>

theorem Close_final_iff:
  assumes "conn_reachable s"
  shows "(\<forall>s'. conn_step\<^sup>*\<^sup>* (conn_Close s) s' \<longrightarrow> \<not> IsConnected s') \<longleftrightarrow> Sleeping \<notin> set (acHandlers s)"
proof -
  note inv = conn_inv_reachable [OF assms]
  note cf = conn_Close_facts [OF inv]
  have inv': "conn_inv (conn_Close s)" using conn_step.close inv by (rule conn_inv_step)
  show ?thesis
  proof
    assume never: "\<forall>s'. conn_step\<^sup>*\<^sup>* (conn_Close s) s' \<longrightarrow> \<not> IsConnected s'"
    show "Sleeping \<notin> set (acHandlers s)"
    proof
      assume "Sleeping \<in> set (acHandlers s)"
      then obtain i where "handler_at (conn_Close s) i Sleeping"
        using cf(3) by (auto simp: handler_at_def in_set_conv_nth)
      from sleeping_recovers [OF inv' this] never show False by blast
    qed
  next
    assume "Sleeping \<notin> set (acHandlers s)"
    then have "shut (conn_Close s)" using cf by (simp add: shut_def)
    then show "\<forall>s'. conn_step\<^sup>*\<^sup>* (conn_Close s) s' \<longrightarrow> \<not> IsConnected s'"
      by (auto dest!: shut_steps simp: shut_def IsConnected_def split: option.splits)
  qed
qed

theorem Close_final_iff_witness:
  "\<not> (\<forall>s'. conn_step\<^sup>*\<^sup>* (conn_Close (set_pc 0 Sleeping (set_pc 0 LoopHead (drop_socket 0 Woken connected0)))) s' \<longrightarrow>
        \<not> IsConnected s')"
proof -
  let ?a = "drop_socket 0 Woken connected0" and ?b = "set_pc 0 LoopHead (drop_socket 0 Woken connected0)"
  note evals = connected0_def connect_def fresh_conn_def close_current_def drop_socket_def set_pc_def handler_at_def
  have "conn_step connected0 ?a" by (rule conn_step.lost) (simp add: evals)
  then have a: "conn_reachable ?a" by (rule conn_reachable.step [OF connected0_reachable])
  have "conn_step ?a ?b" using conn_step.woken [of ?a 0] by (simp add: evals)
  then have b: "conn_reachable ?b" by (rule conn_reachable.step [OF a])
  have "conn_step ?b (set_pc 0 Sleeping ?b)" using conn_step.loop [of ?b 0] by (simp add: evals)
  then have "conn_reachable (set_pc 0 Sleeping ?b)" by (rule conn_reachable.step [OF b])
  from Close_final_iff [OF this] show ?thesis by (simp add: evals)
qed

end
