(* ===== verification/Bootstrap.thy ===== *)
theory Bootstrap
  imports At_Processor Priority_Store Dlq_Migrator Sdp_Batching Amqp_Connection
begin

text \<open>
  \<^verbatim>\<open>internal/bootstrap/app.go\<close>: \<^verbatim>\<open>New\<close> builds every component from the configuration, \<^verbatim>\<open>Start\<close>
  gives the deliveries of each queue to a processing path. Go maps the code ranges over are association
  lists. Dialling the broker is the argument \<open>dial\<close> with the error \<open>dialErr\<close>. Not modelled: loggers,
  HTTP clients and their timeouts, and the HTTP server for health checks.
\<close>

section \<open>Consumers\<close>

record consumer =
  ccQueue :: string
  ccPrefetch :: int
  ccReconnectWait :: int

definition NewConsumer :: "env \<Rightarrow> string \<Rightarrow> int \<Rightarrow> int \<Rightarrow> world \<Rightarrow> (goerr + consumer) \<times> world" where
  "NewConsumer e queueName prefetch rw w =
     (let rw = (if rw \<le> 0 then 5 * Second else rw) in
      case DeclareQueue e queueName w of
        (Some err, w) \<Rightarrow> (Inl err, w)
      | (None, w) \<Rightarrow> (Inr \<lparr>ccQueue = queueName, ccPrefetch = prefetch, ccReconnectWait = rw\<rparr>, w))"

fun newConsumers :: "env \<Rightarrow> int \<Rightarrow> int \<Rightarrow> string list \<Rightarrow> world \<Rightarrow> (goerr + consumer list) \<times> world" where
  "newConsumers e prefetch rw [] w = (Inr [], w)"
| "newConsumers e prefetch rw (q # qs) w =
     (case NewConsumer e q prefetch rw w of
        (Inl err, w) \<Rightarrow> (Inl (Wrapf (''failed to create consumer for '' @ q @ '': '' @ error_text err) err), w)
      | (Inr c, w) \<Rightarrow>
          (case newConsumers e prefetch rw qs w of
             (Inl err, w) \<Rightarrow> (Inl err, w)
           | (Inr cs, w) \<Rightarrow> (Inr (c # cs), w)))"

section \<open>Components that only depend on the configuration\<close>

definition new_limiter :: "config \<Rightarrow> limiter" where
  "new_limiter cfg =
     WithRetryConfig
       (Some \<lparr>rcSafaricomSDP = retry_RateLimitSafaricomSDP (cfg_Retry cfg),
              rcSafaricomSMPP = retry_RateLimitSafaricomSMPP (cfg_Retry cfg),
              rcAirtel = retry_RateLimitAirtel (cfg_Retry cfg), rcEquitel = retry_RateLimitEquitel (cfg_Retry cfg),
              rcTelkom = retry_RateLimitTelkom (cfg_Retry cfg), rcCM = retry_RateLimitCM (cfg_Retry cfg),
              rcBurstFactor = retry_BurstFactor (cfg_Retry cfg)\<rparr>)
       (rl_New
         (Some \<lparr>cfgSafaricom = rate_Safaricom (cfg_RateLimit cfg), cfgAirtel = rate_Airtel (cfg_RateLimit cfg),
                cfgTelkom = rate_Telkom (cfg_RateLimit cfg), cfgEquitel = rate_Equitel (cfg_RateLimit cfg),
                cfgCM = rate_CM (cfg_RateLimit cfg), cfgDefault = rate_Default (cfg_RateLimit cfg)\<rparr>))"

definition smpp_of :: "smpp_settings \<Rightarrow> smpp_cfg" where
  "smpp_of s =
     \<lparr>cURL = smpp_URL s, cSMSC = smpp_SMSC s, cUsername = smpp_Username s, cPassword = smpp_Password s,
      cDLRURL = smpp_DLRURL s, cDLRURLApiV2 = smpp_DLRURLApiV2 s\<rparr>"

definition new_factory :: "config \<Rightarrow> factory \<times> string" where
  "new_factory cfg =
     (let s = cfg_SafaricomSDP cfg in
      NewFactory
        \<lparr>fcSDP = \<lparr>dAuthURL = sdp_AuthURL s, dSendURL = sdp_SendURL s, dAuthUsername = sdp_AuthUser s,
                  dCountryPrefix = sdp_CountryPrefix s, dUsername = sdp_Username s, dPassword = sdp_Password s,
                  dDlrURL = sdp_DLRURL s, dDlrURLApiV2 = sdp_DLRURLApiV2 s, dTokenKey = sdp_TokenKey s,
                  dTokenTTL = sdp_TokenTTL s, dBatchSize = sdp_PromoSDPBatchSize s, dBreaker = None, dMetrics = True\<rparr>,
         fcSafaricomSMPP = smpp_of (cfg_SafaricomSMPP cfg), fcAirtel = smpp_of (cfg_Airtel cfg),
         fcAirtelPromo = smpp_of (cfg_AirtelPromo cfg), fcTelkom = smpp_of (cfg_Telkom cfg),
         fcEquitel = smpp_of (cfg_Equitel cfg), fcCM = smpp_of (cfg_CM cfg),
         fcGatewayQueueName = queues_GatewayQueueName (cfg_Queues cfg), fcBreakers = bootstrap_registry,
         fcMetrics = True\<rparr>
        ''SMS_MNO_GATEWAY_QUEUE'')"

definition publisher_config :: "config \<Rightarrow> publisher" where
  "publisher_config cfg =
     (let q = cfg_Queues cfg in
      \<lparr>SaveToDBQueue = queues_SaveToDBQueue q, RetryQueue = queues_RetryQueue q,
       DeadLetterQueue = queues_DeadLetterQueue q, TransactionalDelayQueue = queues_TransactionalDelayQueue q,
       TransactionalRetryQueue = queues_TransactionalRetryQueue q, PromotionalDelayQueue = queues_PromotionalDelayQueue q,
       PromotionalRetryQueue = queues_PromotionalRetryQueue q, gatewayQueueName = queues_GatewayQueueName q,
       pubTransactionalDelayMs = retry_TransactionalDelayMs (cfg_Retry cfg),
       pubPromotionalDelayMs = retry_PromotionalDelayMs (cfg_Retry cfg)\<rparr>)"

definition new_at_processor :: "config \<Rightarrow> limiter \<Rightarrow> at_processor" where
  "new_at_processor cfg l =
     (let a = cfg_AfricasTalking cfg;
          atCB = get_breaker bootstrap_registry NetworkINTNL;
          sender = NewAfricasTalkingSender
            \<lparr>aSandboxURL = at_SandboxURL a, aProductionURL = at_ProductionURL a, aMode = at_Mode a,
             aApiKey = at_APIKey a, aApiKeyProd = at_APIKeyProd a, aUsername = at_Username a,
             aBreaker = atCB, aMetrics = True, aBalanceCooldown = at_BalanceCooldown a\<rparr> in
      NewAfricasTalkingProcessor
        \<lparr>apSender = sender, apReporter = \<lparr>repURL = at_SendResultURL a, repToken = at_InternalToken a\<rparr>,
         apLimiter = Some l, apMetrics = True, apPublisher = True,
         apSaveToDBQueue = queues_SaveToDBQueue (cfg_Queues cfg),
         apDeadLetterQueue = queues_DeadLetterQueue (cfg_Queues cfg), maxReportRetries = at_MaxReportRetries a,
         reportRetryBaseDelay = at_ReportRetryBaseDelay a, reportRetryMaxDelay = at_ReportRetryMaxDelay a\<rparr>)"

text \<open>Seeding the live configuration; errors are ignored.\<close>

definition seedAll :: "env \<Rightarrow> config \<Rightarrow> dyn_config \<Rightarrow> world \<Rightarrow> dyn_config \<times> world" where
  "seedAll e cfg dc w =
     (let r = cfg_Retry cfg; l = cfg_RateLimit cfg; p = cfg_Priority cfg;
          ((_, dc), w) = Seed e NSRetry
            [(FieldMaxRetriesTransactional, Itoa (retry_MaxRetriesTransactional r)),
             (FieldMaxRetriesPromotional, Itoa (retry_MaxRetriesPromotional r))] dc w;
          ((_, dc), w) = Seed e NSRateLimits
            [(''safaricom'', Itoa (rate_Safaricom l)), (''airtel'', Itoa (rate_Airtel l)),
             (''telkom'', Itoa (rate_Telkom l)), (''equitel'', Itoa (rate_Equitel l)),
             (''cm'', Itoa (rate_CM l)), (''default'', Itoa (rate_Default l))] dc w;
          ((_, dc), w) = Seed e NSSchedulerPromotional
            [(''credit_multiplier'', Itoa (priority_CreditMultiplier p)),
             (''refill_period_ms'', Itoa (priority_RefillPeriodMs p)),
             (''max_starvation_age_sec'', Itoa (priority_MaxStarvationAgeSec p))] dc w
      in (dc, w))"

section \<open>The application\<close>

record priority_parts =
  gPriorityStore :: pri_store
  gTransactionalHandler :: tx_handler
  gPriorityScheduler :: scheduler
  gMessageRouter :: msg_router

record app =
  gConfig :: config
  gRateLimiter :: limiter
  gBreakers :: breaker_registry
  gDynamicConfig :: dyn_config
  gRabbitConn :: amqp_conn
  gPublisher :: publisher
  gFactory :: factory
  gGatewayQueue :: string
  gAtProcessor :: at_processor
  gResultHandler :: result_handler
  gProcessor :: processor
  gQueueProcessors :: "string \<rightharpoonup> processor"
  gPriority :: "priority_parts option"
  gConsumers :: "consumer list"
  gTxRetryConsumer :: consumer
  gPromoRetryConsumer :: consumer
  gTxRetryProcessor :: processor
  gPromoRetryProcessor :: processor
  gAtConsumer :: consumer

text \<open>All processors share factory, result handler and rate limiter; they differ in workers, batch size
  and budget.\<close>

definition new_processor ::
  "factory \<times> string \<Rightarrow> result_handler \<Rightarrow> limiter \<Rightarrow> int \<Rightarrow> int \<Rightarrow> bool \<Rightarrow> processor" where
  "new_processor f h l workers batchSize retrying =
     NewProcessor
       \<lparr>pFactory = fst f, pGatewayQueue = snd f, pResultHandler = h, pLimiter = l, pMetrics = True,
        workerCount = workers, sdpBatchSize = batchSize, isRetry = retrying\<rparr>"

definition new_result_handler :: "config \<Rightarrow> dyn_config \<Rightarrow> publisher \<Rightarrow> result_handler" where
  "new_result_handler cfg dc pub =
     \<lparr>rhPublisher = pub, rhMetrics = True,
      maxRetriesTransactional = retry_MaxRetriesTransactional (cfg_Retry cfg),
      maxRetriesPromotional = retry_MaxRetriesPromotional (cfg_Retry cfg), rhDynConfig = Some dc\<rparr>"

text \<open>The loop over \<^verbatim>\<open>cfg.Queues.SDPBatchSizes\<close>.\<close>

definition new_queue_processors ::
  "(int \<Rightarrow> processor) \<Rightarrow> (string \<times> int) list \<Rightarrow> (string \<rightharpoonup> processor)" where
  "new_queue_processors mk sizes = foldl (\<lambda>m (q, batchSize). m(q \<mapsto> mk batchSize)) Map.empty sizes"

definition newPriority ::
  "env \<Rightarrow> config \<Rightarrow> factory \<times> string \<Rightarrow> result_handler \<Rightarrow> limiter \<Rightarrow> processor \<Rightarrow> world \<Rightarrow>
   (goerr + priority_parts option) \<times> world" where
  "newPriority e cfg f h l p w =
     (let pr = cfg_Priority cfg in
      if \<not> priority_Enabled pr then (Inr None, w)
      else
        (case NewPriorityStore e (priority_RedisWeightsKey pr) (priority_DefaultQueueWeights pr) w of
           (Inl err, w) \<Rightarrow> (Inl (Wrapf (''failed to initialize priority store: '' @ error_text err) err), w)
         | (Inr store, w) \<Rightarrow>
             (let tx = NewTransactionalHandler
                    \<lparr>hFactory = fst f, hGatewayQueue = snd f, hResultHandler = h, hLimiter = l, hMetrics = True,
                     hWorkerCount = priority_TransactionalWorkers pr\<rparr>;
                  sched = NewPriorityScheduler (priority_DefaultWeight pr) (priority_CreditMultiplier pr)
                    (wrap64 (priority_RefillPeriodMs pr * 10 ^ 6)) (wrap64 (priority_MaxStarvationAgeSec pr * Second)) True
              in (Inr (Some
                    \<lparr>gPriorityStore = store, gTransactionalHandler = tx, gPriorityScheduler = sched,
                     gMessageRouter =
                       \<lparr>mrTransactionalHandler = Some tx, mrScheduler = Some p, mrProcessor = Some p,
                        mrMetrics = True\<rparr>\<rparr>), w))))"

text \<open>The three dedicated consumers, after those of the input queues.\<close>

definition newRetryConsumers ::
  "env \<Rightarrow> config \<Rightarrow> world \<Rightarrow> (goerr + consumer \<times> consumer \<times> consumer) \<times> world" where
  "newRetryConsumers e cfg w =
     (let rw = rabbit_ReconnectWait (cfg_RabbitMQ cfg) in
      case NewConsumer e (queues_TransactionalRetryQueue (cfg_Queues cfg)) (retry_TransactionalPrefetch (cfg_Retry cfg)) rw w of
        (Inl err, w) \<Rightarrow> (Inl (Wrapf (''failed to create transactional retry consumer: '' @ error_text err) err), w)
      | (Inr tr, w) \<Rightarrow>
     (case NewConsumer e (queues_PromotionalRetryQueue (cfg_Queues cfg)) (retry_PromotionalPrefetch (cfg_Retry cfg)) rw w of
        (Inl err, w) \<Rightarrow> (Inl (Wrapf (''failed to create promotional retry consumer: '' @ error_text err) err), w)
      | (Inr pr, w) \<Rightarrow>
     (case NewConsumer e (at_QueueName (cfg_AfricasTalking cfg)) (at_Prefetch (cfg_AfricasTalking cfg)) rw w of
        (Inl err, w) \<Rightarrow> (Inl (Wrapf (''failed to create AfricasTalking consumer: '' @ error_text err) err), w)
      | (Inr ac, w) \<Rightarrow> (Inr (tr, pr, ac), w))))"

text \<open>From the publisher on, everything is built from values that are there.\<close>

definition assemble ::
  "env \<Rightarrow> config \<Rightarrow> dyn_config \<Rightarrow> amqp_conn \<Rightarrow> publisher \<Rightarrow> world \<Rightarrow> (goerr + app) \<times> world" where
  "assemble e cfg dc conn pub w =
     (let l = new_limiter cfg;
          f = new_factory cfg;
          h = new_result_handler cfg dc pub;
          mk = (\<lambda>batchSize. new_processor f h l (app_WorkerCount (cfg_App cfg)) batchSize False);
          p = mk (sdp_PromoSDPBatchSize (cfg_SafaricomSDP cfg)) in
      case newPriority e cfg f h l p w of
        (Inl err, w) \<Rightarrow> (Inl err, w)
      | (Inr prio, w) \<Rightarrow>
     (case newConsumers e (rabbit_PrefetchCount (cfg_RabbitMQ cfg)) (rabbit_ReconnectWait (cfg_RabbitMQ cfg))
             (queues_InputQueues (cfg_Queues cfg)) w of
        (Inl err, w) \<Rightarrow> (Inl err, w)
      | (Inr consumers, w) \<Rightarrow>
     (case newRetryConsumers e cfg w of
        (Inl err, w) \<Rightarrow> (Inl err, w)
      | (Inr (tr, pr, ac), w) \<Rightarrow>
          (Inr \<lparr>gConfig = cfg, gRateLimiter = l, gBreakers = bootstrap_registry, gDynamicConfig = dc,
                gRabbitConn = conn, gPublisher = pub, gFactory = fst f, gGatewayQueue = snd f,
                gAtProcessor = new_at_processor cfg l, gResultHandler = h, gProcessor = p,
                gQueueProcessors = new_queue_processors mk (queues_SDPBatchSizes (cfg_Queues cfg)),
                gPriority = prio, gConsumers = consumers, gTxRetryConsumer = tr, gPromoRetryConsumer = pr,
                gTxRetryProcessor = new_processor f h l (retry_TransactionalWorkerCount (cfg_Retry cfg)) 0 True,
                gPromoRetryProcessor = new_processor f h l (retry_PromotionalWorkerCount (cfg_Retry cfg)) 0 True,
                gAtConsumer = ac\<rparr>, w))))"

definition New :: "env \<Rightarrow> dial_outcome \<Rightarrow> goerr \<Rightarrow> config \<Rightarrow> world \<Rightarrow> (goerr + app) \<times> world" where
  "New e dial dialErr cfg w =
     (case NewTokenCache e w of
        (Some err, w) \<Rightarrow> (Inl (Wrapf (''failed to initialize Redis: '' @ error_text err) err), w)
      | (None, w) \<Rightarrow>
          (let (dc, w) = NewDynamicConfig e w;
               (dc, w) = seedAll e cfg dc w in
           case NewConnection dial of
             None \<Rightarrow> (Inl (Wrapf (''failed to connect to RabbitMQ: '' @ error_text dialErr) dialErr), w)
           | Some conn \<Rightarrow>
               (case NewPublisher e (publisher_config cfg) w of
                  (Inl err, w) \<Rightarrow> (Inl (Wrapf (''failed to initialize publisher: '' @ error_text err) err), w)
                | (Inr pub, w) \<Rightarrow> assemble e cfg dc conn pub w)))"

section \<open>Start\<close>

definition processorFor :: "app \<Rightarrow> string \<Rightarrow> processor" where
  "processorFor a queueName =
     (case gQueueProcessors a queueName of Some p \<Rightarrow> p | None \<Rightarrow> gProcessor a)"

text \<open>Which loop the workers of an input queue run.\<close>

datatype delivery_path = PriorityPath msg_router | BatchPath processor int | SinglePath processor

definition delivery_path_for :: "app \<Rightarrow> string \<Rightarrow> delivery_path" where
  "delivery_path_for a queueName =
     (let batchSize = (case map_of (queues_SDPBatchSizes (cfg_Queues (gConfig a))) queueName of
            Some n \<Rightarrow> n | None \<Rightarrow> 0) in
      case (if priority_Enabled (cfg_Priority (gConfig a)) then map_option gMessageRouter (gPriority a) else None) of
        Some r \<Rightarrow> PriorityPath r
      | None \<Rightarrow>
          if batchSize > 1 then BatchPath (processorFor a queueName) batchSize
          else SinglePath (processorFor a queueName))"

text \<open>The queues with dedicated workers, their processors and the numbers of goroutines.\<close>

definition retrySpecs :: "app \<Rightarrow> (string \<times> processor \<times> int) list" where
  "retrySpecs a =
     [(ccQueue (gTxRetryConsumer a), gTxRetryProcessor a, retry_TransactionalWorkerCount (cfg_Retry (gConfig a))),
      (ccQueue (gPromoRetryConsumer a), gPromoRetryProcessor a, retry_PromotionalWorkerCount (cfg_Retry (gConfig a)))]"

section \<open>Facts\<close>

lemma new_limiter_ready: "limiter_wf (new_limiter cfg)" "has_retry (new_limiter cfg)"
  unfolding new_limiter_def by (simp_all add: limiter_wf_WithRetry retry_WithRetryConfig)

definition proc_wired :: "app \<Rightarrow> processor \<Rightarrow> bool" where
  "proc_wired a p \<longleftrightarrow>
     limiter_ready p \<and> 0 < workerCount p \<and> 0 < sdpBatchSize p \<and> pResultHandler p = gResultHandler a \<and>
     pFactory p = gFactory a \<and> pLimiter p = gRateLimiter a"

lemma new_processor_wired:
  assumes "gResultHandler a = h" and "gFactory a = fst f" and "gRateLimiter a = new_limiter cfg"
  shows "proc_wired a (new_processor f h (new_limiter cfg) workers n retrying)"
  using assms new_limiter_ready [of cfg]
  by (simp add: proc_wired_def new_processor_def limiter_ready_def)

lemma new_queue_processors_apply:
  "new_queue_processors mk sizes q = (case map_of (rev sizes) q of None \<Rightarrow> None | Some n \<Rightarrow> Some (mk n))"
proof -
  have "foldl (\<lambda>m (q, n). m(q \<mapsto> mk n)) m sizes q =
      (case map_of (rev sizes) q of None \<Rightarrow> m q | Some n \<Rightarrow> Some (mk n))" for m
    by (induction sizes arbitrary: m) (auto simp: map_add_def split: option.splits)
  then show ?thesis by (simp add: new_queue_processors_def)
qed

lemma map_of_rev_distinct: "distinct (map fst xs) \<Longrightarrow> map_of (rev xs) = map_of xs"
  by (subst map_of_inject_set) (simp_all add: rev_map [symmetric])

text \<open>\<open>declared q args w\<close>: the broker accepted the declaration of \<open>q\<close> with \<open>args\<close>.\<close>

definition declared :: "string \<Rightarrow> (int \<times> string) option \<Rightarrow> world \<Rightarrow> bool" where
  "declared q args w \<longleftrightarrow> EvDeclare q args None \<in> set (trace w)"

lemma declared_le: "declared q args w \<Longrightarrow> world_le w w' \<Longrightarrow> declared q args w'"
  by (auto simp: declared_def world_le_def)

lemma DeclareQueueWithArgs_le [simp]: "world_le w (snd (DeclareQueueWithArgs e q args w))"
  by (simp add: DeclareQueueWithArgs_def Let_def)

lemma DeclareQueueWithArgs_ok:
  "DeclareQueueWithArgs e q args w = (None, w') \<Longrightarrow> world_le w w' \<and> declared q args w'"
  by (auto simp: DeclareQueueWithArgs_def declared_def Let_def)

lemma declareAll_ok:
  "declareAll e qs w = (None, w') \<Longrightarrow> world_le w w' \<and> list_all (\<lambda>q. declared q None w') qs"
proof (induction qs arbitrary: w)
  case (Cons q qs)
  from Cons.prems obtain w1 where d: "DeclareQueueWithArgs e q None w = (None, w1)" and r: "declareAll e qs w1 = (None, w')"
    by (auto simp: DeclareQueue_def split: prod.splits option.splits)
  from Cons.IH [OF r] DeclareQueueWithArgs_ok [OF d] show ?case
    by (auto intro: declared_le world_le_trans)
qed simp

lemma NewPublisher_ok:
  assumes "NewPublisher e cfg w = (Inr p, w')"
  shows "p = cfg" and "world_le w w'"
    and "list_all (\<lambda>q. declared q None w')
           [SaveToDBQueue cfg, RetryQueue cfg, DeadLetterQueue cfg, TransactionalRetryQueue cfg, PromotionalRetryQueue cfg]"
    and "declared (TransactionalDelayQueue cfg) (Some (wrap32 (pubTransactionalDelayMs cfg), TransactionalRetryQueue cfg)) w'"
    and "declared (PromotionalDelayQueue cfg) (Some (wrap32 (pubPromotionalDelayMs cfg), PromotionalRetryQueue cfg)) w'"
proof -
  from assms obtain w1 w2 w3 w4 where st: "conn_NewChannel e w = (None, w1)"
    "declareAll e [SaveToDBQueue cfg, RetryQueue cfg, DeadLetterQueue cfg] w1 = (None, w2)"
    "declareAll e [TransactionalRetryQueue cfg, PromotionalRetryQueue cfg] w2 = (None, w3)"
    "DeclareQueueWithArgs e (TransactionalDelayQueue cfg)
       (Some (wrap32 (pubTransactionalDelayMs cfg), TransactionalRetryQueue cfg)) w3 = (None, w4)"
    "DeclareQueueWithArgs e (PromotionalDelayQueue cfg)
       (Some (wrap32 (pubPromotionalDelayMs cfg), PromotionalRetryQueue cfg)) w4 = (None, w')" and p: "p = cfg"
    unfolding NewPublisher_def by (simp split: prod.splits option.splits)
  have le1: "world_le w w1" using st(1) by (auto simp: conn_NewChannel_def Let_def)
  note d2 = declareAll_ok [OF st(2)] and d3 = declareAll_ok [OF st(3)]
  note d4 = DeclareQueueWithArgs_ok [OF st(4)] and d5 = DeclareQueueWithArgs_ok [OF st(5)]
  have le: "world_le w2 w'" "world_le w3 w'" "world_le w4 w'" using d3 d4 d5 by (blast intro: world_le_trans)+
  show "p = cfg" by (rule p)
  show "world_le w w'" using le1 d2 le(1) by (blast intro: world_le_trans)
  show "list_all (\<lambda>q. declared q None w')
      [SaveToDBQueue cfg, RetryQueue cfg, DeadLetterQueue cfg, TransactionalRetryQueue cfg, PromotionalRetryQueue cfg]"
    using d2 d3 le by (auto intro: declared_le)
  show "declared (TransactionalDelayQueue cfg) (Some (wrap32 (pubTransactionalDelayMs cfg), TransactionalRetryQueue cfg)) w'"
    using d4 le(3) by (blast intro: declared_le)
  show "declared (PromotionalDelayQueue cfg) (Some (wrap32 (pubPromotionalDelayMs cfg), PromotionalRetryQueue cfg)) w'"
    using d5 by blast
qed

lemma NewConsumer_ok:
  "NewConsumer e q n rw w = (Inr c, w') \<Longrightarrow> ccQueue c = q \<and> world_le w w' \<and> declared q None w'"
  by (auto simp: NewConsumer_def DeclareQueue_def Let_def dest!: DeclareQueueWithArgs_ok
      split: prod.splits option.splits)

lemma newConsumers_ok:
  "newConsumers e n rw qs w = (Inr cs, w') \<Longrightarrow>
   map ccQueue cs = qs \<and> world_le w w' \<and> list_all (\<lambda>q. declared q None w') qs"
proof (induction qs arbitrary: w cs)
  case (Cons q qs)
  from Cons.prems obtain c w1 cs' where c: "NewConsumer e q n rw w = (Inr c, w1)"
    "newConsumers e n rw qs w1 = (Inr cs', w')" "cs = c # cs'"
    by (auto split: prod.splits sum.splits)
  from Cons.IH [OF c(2)] NewConsumer_ok [OF c(1)] c(3) show ?case
    by (auto intro: declared_le world_le_trans)
qed auto

lemma newRetryConsumers_ok:
  assumes "newRetryConsumers e cfg w = (Inr (tr, pr, ac), w')"
  shows "world_le w w' \<and>
    map ccQueue [tr, pr, ac] = [queues_TransactionalRetryQueue (cfg_Queues cfg),
      queues_PromotionalRetryQueue (cfg_Queues cfg), at_QueueName (cfg_AfricasTalking cfg)] \<and>
    list_all (\<lambda>c. declared (ccQueue c) None w') [tr, pr, ac]"
proof -
  let ?rw = "rabbit_ReconnectWait (cfg_RabbitMQ cfg)"
  from assms obtain w1 w2 where st:
    "NewConsumer e (queues_TransactionalRetryQueue (cfg_Queues cfg)) (retry_TransactionalPrefetch (cfg_Retry cfg)) ?rw w = (Inr tr, w1)"
    "NewConsumer e (queues_PromotionalRetryQueue (cfg_Queues cfg)) (retry_PromotionalPrefetch (cfg_Retry cfg)) ?rw w1 = (Inr pr, w2)"
    "NewConsumer e (at_QueueName (cfg_AfricasTalking cfg)) (at_Prefetch (cfg_AfricasTalking cfg)) ?rw w2 = (Inr ac, w')"
    unfolding newRetryConsumers_def by (auto simp: Let_def split: prod.splits sum.splits)
  note k = NewConsumer_ok [OF st(1)] NewConsumer_ok [OF st(2)] NewConsumer_ok [OF st(3)]
  show ?thesis using k by (auto intro: declared_le world_le_trans)
qed

lemma priority_store_le:
  "SetQueueWeights e ws s w = (r, s', w') \<Longrightarrow> world_le w w'"
  "fetchWeightsFromRedis e s w = (r', s', w') \<Longrightarrow> world_le w w'"
  "redis_Do e cmd w = (rep, w') \<Longrightarrow> world_le w w'"
  by (auto simp: SetQueueWeights_def fetchWeightsFromRedis_def fetch_call_def redis_Do_def notifyChange_def Let_def
      split: redis_reply.splits sum.splits if_splits)

lemma NewPriorityStore_le:
  assumes "NewPriorityStore e key ws w = (r, w')" shows "world_le w w'"
proof -
  obtain rep w1 where rd: "redis_Do e (RExists key) w = (rep, w1)" by fastforce
  have "world_le w1 w'"
    using assms rd unfolding NewPriorityStore_def Let_def
    by (auto dest!: priority_store_le(1,2) intro: world_le_trans
        split: redis_reply.splits option.splits sum.splits prod.splits if_splits)
  with priority_store_le(3) [OF rd] show ?thesis by (rule world_le_trans)
qed

lemma newPriority_ok:
  assumes "newPriority e cfg f h l p w = (Inr prio, w')"
  shows "world_le w w'" and "prio = None \<longleftrightarrow> \<not> priority_Enabled (cfg_Priority cfg)"
    and "prio = Some parts \<Longrightarrow> mrScheduler (gMessageRouter parts) = Some p \<and> mrProcessor (gMessageRouter parts) = Some p \<and>
      mrTransactionalHandler (gMessageRouter parts) = Some (gTransactionalHandler parts) \<and>
      hResultHandler (gTransactionalHandler parts) = h \<and> 0 < hWorkerCount (gTransactionalHandler parts)"
  using assms
  by (auto simp: newPriority_def NewTransactionalHandler_def Let_def dest: NewPriorityStore_le
      split: if_splits prod.splits sum.splits)

text \<open>What \<^verbatim>\<open>New\<close> has done when it succeeds.\<close>

lemma assemble_ok:
  assumes "assemble e cfg dc conn pub w = (Inr a, w')"
  defines "f \<equiv> new_factory cfg" and "h \<equiv> new_result_handler cfg dc pub" and "l \<equiv> new_limiter cfg"
    and "n \<equiv> app_WorkerCount (cfg_App cfg)"
  shows "\<exists>w1 w2. newPriority e cfg f h l (gProcessor a) w = (Inr (gPriority a), w1) \<and>
           newConsumers e (rabbit_PrefetchCount (cfg_RabbitMQ cfg)) (rabbit_ReconnectWait (cfg_RabbitMQ cfg))
             (queues_InputQueues (cfg_Queues cfg)) w1 = (Inr (gConsumers a), w2) \<and>
           newRetryConsumers e cfg w2 = (Inr (gTxRetryConsumer a, gPromoRetryConsumer a, gAtConsumer a), w')"
    and "gConfig a = cfg" "gPublisher a = pub" "gResultHandler a = h" "gFactory a = fst f" "gRateLimiter a = l"
    and "gProcessor a = new_processor f h l n (sdp_PromoSDPBatchSize (cfg_SafaricomSDP cfg)) False"
    and "gQueueProcessors a =
           new_queue_processors (\<lambda>k. new_processor f h l n k False) (queues_SDPBatchSizes (cfg_Queues cfg))"
    and "gTxRetryProcessor a = new_processor f h l (retry_TransactionalWorkerCount (cfg_Retry cfg)) 0 True"
    and "gPromoRetryProcessor a = new_processor f h l (retry_PromotionalWorkerCount (cfg_Retry cfg)) 0 True"
  using assms(1) unfolding assemble_def Let_def f_def h_def l_def n_def
  by (auto split: prod.splits sum.splits)

lemma New_ok:
  assumes "New e dial dialErr cfg w = (Inr a, w')"
  shows "\<exists>dc conn w1 w2. NewPublisher e (publisher_config cfg) w1 = (Inr (publisher_config cfg), w2) \<and>
           assemble e cfg dc conn (publisher_config cfg) w2 = (Inr a, w')"
proof -
  obtain dc conn w1 pub w2 where "NewPublisher e (publisher_config cfg) w1 = (Inr pub, w2)"
    "assemble e cfg dc conn pub w2 = (Inr a, w')"
    using assms unfolding New_def Let_def by (auto split: prod.splits sum.splits option.splits)
  moreover from this(1) have "pub = publisher_config cfg" by (rule NewPublisher_ok(1))
  ultimately show ?thesis by blast
qed

section \<open>Properties\<close>

text \<open>With a broker and a Redis server that accept everything, \<^verbatim>\<open>New\<close> succeeds on the default
  configuration.\<close>

lemma base_declares: "DeclareQueueWithArgs base_env q args w = (None, emit base_env (EvDeclare q args None) w)"
  by (simp add: DeclareQueueWithArgs_def base_env_def)

lemma base_channel: "conn_NewChannel base_env w = (None, emit base_env (EvChannel None) w)"
  by (simp add: conn_NewChannel_def base_env_def)

lemma base_newConsumers: "\<exists>cs w'. newConsumers base_env n rw qs w = (Inr cs, w')"
proof (induction qs arbitrary: w)
  case (Cons q qs)
  from Cons.IH [of "emit base_env (EvDeclare q None None) w"] show ?case
    by (auto simp: NewConsumer_def DeclareQueue_def base_declares)
qed simp

lemma base_New: "\<exists>a w'. New base_env DialOk err (Load Map.empty) w = (Inr a, w')"
proof -
  have tc: "\<exists>w'. NewTokenCache base_env w = (None, w')" for w
    by (simp add: NewTokenCache_def redis_Do_def base_env_def)
  have np: "\<exists>w'. NewPublisher base_env c w = (Inr c, w')" for c w
    by (simp add: NewPublisher_def base_channel DeclareQueue_def base_declares)
  have pr: "newPriority base_env (Load Map.empty) f h l p w = (Inr None, w)" for f h l p w
    by (simp add: newPriority_def Load_simps getEnvAsBool_def)
  have rc: "\<exists>x y z w'. newRetryConsumers base_env c w = (Inr (x, y, z), w')" for c w
    by (simp add: newRetryConsumers_def NewConsumer_def DeclareQueue_def base_declares Let_def)
  have as: "\<exists>a w'. assemble base_env (Load Map.empty) dc conn pub w = (Inr a, w')" for dc conn pub w
  proof -
    obtain cs w1 where "newConsumers base_env (rabbit_PrefetchCount (cfg_RabbitMQ (Load Map.empty)))
        (rabbit_ReconnectWait (cfg_RabbitMQ (Load Map.empty))) (queues_InputQueues (cfg_Queues (Load Map.empty))) w = (Inr cs, w1)"
      using base_newConsumers by blast
    moreover obtain x y z w2 where "newRetryConsumers base_env (Load Map.empty) w1 = (Inr (x, y, z), w2)"
      using rc by blast
    ultimately show ?thesis by (simp add: assemble_def pr Let_def)
  qed
  obtain w1 where w1: "NewTokenCache base_env w = (None, w1)" using tc by blast
  obtain dc w2 where w2: "NewDynamicConfig base_env w1 = (dc, w2)" by fastforce
  obtain dc' w3 where w3: "seedAll base_env (Load Map.empty) dc w2 = (dc', w3)" by fastforce
  obtain w4 where w4: "NewPublisher base_env (publisher_config (Load Map.empty)) w3 = (Inr (publisher_config (Load Map.empty)), w4)"
    using np by blast
  obtain conn where "NewConnection DialOk = Some conn" by (simp add: NewConnection_def connect_def Let_def)
  then show ?thesis using as [of dc' conn "publisher_config (Load Map.empty)" w4] by (simp add: New_def w1 w2 w3 w4 Let_def)
qed

text \<open>That Redis server answers no hash, so the retry limits are those of the configuration.\<close>

lemma base_refresh: "\<exists>err w'. refreshNamespace base_env ns dc w = ((err, dc), w')"
  by (simp add: refreshNamespace_def redis_Do_def base_env_def)

lemma base_refreshAll: "\<exists>w'. refreshAll base_env nss dc w = (dc, w')"
proof (induction nss arbitrary: w)
  case (Cons ns nss)
  obtain err w1 where "refreshNamespace base_env ns dc w = ((err, dc), w1)" using base_refresh by blast
  with Cons.IH [of w1] show ?case by simp
qed simp

lemma base_Seed: "snd (fst (Seed base_env ns kvs dc w)) = dc"
proof -
  obtain err w1 where s: "seed_pipeline base_env (dynConfigKeyPrefix @ ns) kvs w = (err, w1)" by fastforce
  obtain err' w2 where "refreshNamespace base_env ns dc w1 = ((err', dc), w2)" using base_refresh by blast
  with s show ?thesis by (cases err) (simp_all add: Seed_def)
qed

lemma base_New_limits:
  assumes "New base_env DialOk err cfg w = (Inr a, w')"
  shows "limits_ok (gResultHandler a)"
proof -
  let ?dc = "\<lparr>dcCache = Map.empty\<rparr>"
  have "fst (seedAll base_env cfg dc w) = dc" for dc w
    by (simp add: seedAll_def Let_def case_prod_beta base_Seed)
  then have sd: "\<exists>w'. seedAll base_env cfg dc w = (dc, w')" for dc w by (metis prod.collapse)
  obtain w1 where w1: "NewTokenCache base_env w = (None, w1)"
    by (simp add: NewTokenCache_def redis_Do_def base_env_def)
  obtain w2 where w2: "NewDynamicConfig base_env w1 = (?dc, w2)"
    using base_refreshAll unfolding NewDynamicConfig_def by blast
  obtain w3 where w3: "seedAll base_env cfg ?dc w2 = (?dc, w3)" using sd by blast
  obtain conn pub w4 where "assemble base_env cfg ?dc conn pub w4 = (Inr a, w')"
    using assms by (auto simp: New_def w1 w2 w3 split: option.splits prod.splits sum.splits)
  from assemble_ok(4) [OF this] show ?thesis
    by (simp add: limits_ok_def maxRetries_def new_result_handler_def dyn_value_def GetInt_def RUnlock_def Let_def)
qed

text \<open>Every processor that \<^verbatim>\<open>Start\<close> uses.\<close>

definition used_processor :: "app \<Rightarrow> processor \<Rightarrow> bool" where
  "used_processor a p \<longleftrightarrow>
     (\<exists>q. p = processorFor a q) \<or> (\<exists>q n. (q, p, n) \<in> set (retrySpecs a)) \<or>
     (\<exists>parts. gPriority a = Some parts \<and> mrScheduler (gMessageRouter parts) = Some p)"

lemma New_processor_facts:
  assumes "New e dial dialErr cfg w = (Inr a, w')" and "used_processor a p"
  shows "proc_wired a p \<and> rhPublisher (gResultHandler a) = publisher_config cfg"
proof -
  obtain dc conn w2 where "assemble e cfg dc conn (publisher_config cfg) w2 = (Inr a, w')"
    using New_ok [OF assms(1)] by blast
  note as = assemble_ok [OF this]
  obtain w1 where prio: "newPriority e cfg (new_factory cfg) (new_result_handler cfg dc (publisher_config cfg))
      (new_limiter cfg) (gProcessor a) w2 = (Inr (gPriority a), w1)" using as(1) by blast
  note wired = new_processor_wired [OF as(4,5,6)]
  have q: "proc_wired a (processorFor a q)" for q
    by (simp add: processorFor_def as(7,8) new_queue_processors_apply wired split: option.splits)
  have "proc_wired a (gProcessor a)" by (simp add: as(7) wired)
  then have "proc_wired a p"
    using assms(2) newPriority_ok(3) [OF prio] q
    by (auto simp: used_processor_def retrySpecs_def as(9,10) wired)
  then show ?thesis by (simp add: as(4) new_result_handler_def)
qed

lemma New_retry_processors:
  assumes "New e dial dialErr cfg w = (Inr a, w')" and "p \<in> {gTxRetryProcessor a, gPromoRetryProcessor a}"
  shows "isRetry p \<and> sdpBatchSize p = 1"
proof -
  obtain dc conn w2 where "assemble e cfg dc conn (publisher_config cfg) w2 = (Inr a, w')"
    using New_ok [OF assms(1)] by blast
  from assemble_ok(9,10) [OF this] assms(2) show ?thesis by (auto simp: new_processor_def NewProcessor_def)
qed

text \<open>The gateway that \<^verbatim>\<open>New\<close> builds meets what its parts rely on, whatever the configuration: every
  processor that \<^verbatim>\<open>Start\<close> uses has workers, a positive batch size and a token bucket for its budget
  (retry processors in particular have the retry budget attached), and all of them share one result
  handler, whose publisher has the configured queues, and one factory. The processors of the two retry
  queues are marked as such and send no SDP batches.\<close>

theorem New_wires_processors:
  assumes "New e dial dialErr cfg w = (Inr a, w')" and "used_processor a p"
  shows "limiter_ready p \<and> 0 < workerCount p \<and> 0 < sdpBatchSize p \<and>
         pResultHandler p = gResultHandler a \<and> rhPublisher (gResultHandler a) = publisher_config cfg \<and>
         pFactory p = gFactory a \<and>
         (p \<in> {gTxRetryProcessor a, gPromoRetryProcessor a} \<longrightarrow> isRetry p \<and> sdpBatchSize p = 1)"
  using New_processor_facts [OF assms] New_retry_processors [OF assms(1), of p] by (simp add: proc_wired_def)

theorem New_wires_processors_witness:
  "\<exists>a w'. New base_env DialOk ErrRateLimited (Load Map.empty) init_world = (Inr a, w') \<and>
     limiter_ready (gPromoRetryProcessor a) \<and> isRetry (gPromoRetryProcessor a)"
proof -
  obtain a w' where a: "New base_env DialOk ErrRateLimited (Load Map.empty) init_world = (Inr a, w')"
    using base_New by blast
  have "used_processor a (gPromoRetryProcessor a)" by (auto simp: used_processor_def retrySpecs_def)
  from New_wires_processors [OF a this] a show ?thesis by blast
qed

text \<open>C23. The retry cycle is closed: when \<^verbatim>\<open>New\<close> succeeds, the broker has accepted the declaration of
  every queue the gateway publishes to or consumes from, and the two delay queues were declared to
  dead-letter, after the configured delay (read as a 32-bit integer), into exactly the two queues that
  the retry consumers consume.\<close>

theorem New_declares_queues:
  assumes "New e dial dialErr cfg init_world = (Inr a, w')"
  shows "declared (SaveToDBQueue (gPublisher a)) None w' \<and> declared (DeadLetterQueue (gPublisher a)) None w' \<and>
         declared (TransactionalDelayQueue (gPublisher a))
           (Some (wrap32 (retry_TransactionalDelayMs (cfg_Retry cfg)), ccQueue (gTxRetryConsumer a))) w' \<and>
         declared (PromotionalDelayQueue (gPublisher a))
           (Some (wrap32 (retry_PromotionalDelayMs (cfg_Retry cfg)), ccQueue (gPromoRetryConsumer a))) w' \<and>
         list_all (\<lambda>c. declared (ccQueue c) None w')
           (gConsumers a @ [gTxRetryConsumer a, gPromoRetryConsumer a, gAtConsumer a]) \<and>
         map ccQueue (gConsumers a) = queues_InputQueues (cfg_Queues cfg)"
proof -
  obtain dc conn w1 w2 where np: "NewPublisher e (publisher_config cfg) w1 = (Inr (publisher_config cfg), w2)"
    and "assemble e cfg dc conn (publisher_config cfg) w2 = (Inr a, w')"
    using New_ok [OF assms] by blast
  note as = assemble_ok [OF this(2)]
  obtain w3 w4 where st:
    "newPriority e cfg (new_factory cfg) (new_result_handler cfg dc (publisher_config cfg)) (new_limiter cfg)
       (gProcessor a) w2 = (Inr (gPriority a), w3)"
    "newConsumers e (rabbit_PrefetchCount (cfg_RabbitMQ cfg)) (rabbit_ReconnectWait (cfg_RabbitMQ cfg))
       (queues_InputQueues (cfg_Queues cfg)) w3 = (Inr (gConsumers a), w4)"
    "newRetryConsumers e cfg w4 = (Inr (gTxRetryConsumer a, gPromoRetryConsumer a, gAtConsumer a), w')"
    using as(1) by blast
  note c = newConsumers_ok [OF st(2)] and r = newRetryConsumers_ok [OF st(3)] and pub = NewPublisher_ok [OF np]
  have le: "world_le w2 w'" "world_le w4 w'"
    using newPriority_ok(1) [OF st(1)] c r by (blast intro: world_le_trans)+
  have "list_all (\<lambda>q. declared q None w') (map ccQueue (gConsumers a))"
    using c le(2) by (auto simp: list_all_iff intro: declared_le)
  then have "list_all (\<lambda>k. declared (ccQueue k) None w') (gConsumers a)" by (simp add: list_all_iff)
  then show ?thesis
    using pub(3-5) le(1) c r by (auto simp: as(3) publisher_config_def Let_def intro: declared_le)
qed

theorem New_declares_queues_witness:
  "\<exists>a w'. New base_env DialOk ErrRateLimited (Load Map.empty) init_world = (Inr a, w') \<and>
     map ccQueue (gConsumers a) = [''TITANIC-KE_SMS_QUEUE'', ''CONSUME_TO_MNO''] \<and>
     declared (TransactionalDelayQueue (gPublisher a)) (Some (5000, ccQueue (gTxRetryConsumer a))) w'"
proof -
  obtain a w' where a: "New base_env DialOk ErrRateLimited (Load Map.empty) init_world = (Inr a, w')"
    using base_New by blast
  from New_declares_queues [OF a] a show ?thesis
    by (auto simp: Load_simps getEnvAsStringSlice_def getEnvAsInt_def wrap32_def)
qed

text \<open>C24. Batch sizes per queue are honoured without priority routing, and only then: with distinct queue
  names, a queue of \<^verbatim>\<open>QUEUE_SDP_BATCH_SIZES\<close> whose size exceeds 1 is served by batching workers whose
  limit and whose processor's SDP batch size are that size, every other queue by single deliveries; with
  priority routing every queue goes through the message router, whose processor has the global batch
  size.\<close>

theorem delivery_paths:
  assumes "New e dial dialErr cfg w = (Inr a, w')" and "weights_wf (queues_SDPBatchSizes (cfg_Queues cfg))"
  shows "case delivery_path_for a q of
      PriorityPath r \<Rightarrow> priority_Enabled (cfg_Priority cfg) \<and> mrScheduler r = Some (gProcessor a) \<and>
        sdpBatchSize (gProcessor a) = max 1 (sdp_PromoSDPBatchSize (cfg_SafaricomSDP cfg))
    | BatchPath p n \<Rightarrow> \<not> priority_Enabled (cfg_Priority cfg) \<and> 1 < n \<and> sdpBatchSize p = n \<and>
        map_of (queues_SDPBatchSizes (cfg_Queues cfg)) q = Some n
    | SinglePath p \<Rightarrow> \<not> priority_Enabled (cfg_Priority cfg) \<and>
        (\<forall>n. map_of (queues_SDPBatchSizes (cfg_Queues cfg)) q = Some n \<longrightarrow> n \<le> 1 \<and> sdpBatchSize p = 1) \<and>
        (map_of (queues_SDPBatchSizes (cfg_Queues cfg)) q = None \<longrightarrow> p = gProcessor a)"
proof -
  obtain dc conn w2 where "assemble e cfg dc conn (publisher_config cfg) w2 = (Inr a, w')"
    using New_ok [OF assms(1)] by blast
  note as = assemble_ok [OF this]
  obtain w1 where prio: "newPriority e cfg (new_factory cfg) (new_result_handler cfg dc (publisher_config cfg))
      (new_limiter cfg) (gProcessor a) w2 = (Inr (gPriority a), w1)" using as(1) by blast
  note pr = newPriority_ok(2,3) [OF prio]
  have m: "map_of (rev (queues_SDPBatchSizes (cfg_Queues cfg))) = map_of (queues_SDPBatchSizes (cfg_Queues cfg))"
    using assms(2) by (intro map_of_rev_distinct) (simp add: weights_wf_def)
  have size: "sdpBatchSize (new_processor f h l k n b) = max 1 n" for f h l k n b
    by (simp add: new_processor_def NewProcessor_def)
  show ?thesis
  proof (cases "gPriority a")
    case None
    then show ?thesis
      using pr(1) by (auto simp: delivery_path_for_def as(2,8) processorFor_def new_queue_processors_apply m size Let_def
          split: option.splits if_splits)
  next
    case (Some parts)
    then show ?thesis using pr by (auto simp: delivery_path_for_def as(2,7) size)
  qed
qed

theorem delivery_paths_witness:
  "\<exists>a w'. New base_env DialOk ErrRateLimited (Load Map.empty) init_world = (Inr a, w') \<and>
     delivery_path_for a ''CONSUME_TO_MNO'' = SinglePath (gProcessor a)"
proof -
  obtain a w' where a: "New base_env DialOk ErrRateLimited (Load Map.empty) init_world = (Inr a, w')"
    using base_New by blast
  have s: "queues_SDPBatchSizes (cfg_Queues (Load Map.empty)) = []" "\<not> priority_Enabled (cfg_Priority (Load Map.empty))"
    by (simp_all add: Load_simps getEnvAsQueueWeights_def getEnvAsBool_def)
  from delivery_paths [OF a, of "''CONSUME_TO_MNO''"] a show ?thesis
    by (auto simp: s weights_wf_def split: delivery_path.splits)
qed

end
