(* ===== verification/Config_Watch.thy ===== *)
theory Config_Watch
  imports Priority_Scheduler
begin

text \<open>
  Hot reloading of the live configuration: \<^verbatim>\<open>DynamicConfig.Watch\<close> and \<^verbatim>\<open>Close\<close>
  (\<^verbatim>\<open>internal/sms/adapters/redis/dynamic_config.go\<close>) with their two clients, the loops of
  \<^verbatim>\<open>Limiter.WatchDynamicConfig\<close> (\<^verbatim>\<open>internal/common/ratelimit/limiter.go\<close>) and of
  \<^verbatim>\<open>PriorityScheduler.watchSchedulerConfig\<close> (\<^verbatim>\<open>internal/sms/service/priority_scheduler.go\<close>).

  The state holds one namespace of Redis, the subscription of one process to the change channel, its
  cache, its watcher goroutine, the channel of capacity one between watcher and client, the client, and the
  writers that have changed the hash but not yet published the change. One step of the relation is one
  Redis command, one critical section of the cache, one channel operation or one action of the client.
  Redis publications may be lost and Redis commands may fail.
\<close>

section \<open>State\<close>

text \<open>Where the goroutine of \<^verbatim>\<open>Watch\<close> is: in its \<^verbatim>\<open>select\<close>, before the \<^verbatim>\<open>HGETALL\<close> of
  \<^verbatim>\<open>refreshNamespace\<close>, between the reply and the update of the cache, before the signal, or ended.\<close>

datatype watcher_pc = Selecting | Notified | Fetched "string \<rightharpoonup> string" | Signalling | Stopped

text \<open>Where the client is: waiting for a signal, before action \<open>k\<close> of a round, or ended because the channel
  was closed. \<open>Killed\<close>: the process was ended by the second \<^verbatim>\<open>RUnlock\<close> of \<^verbatim>\<open>GetInt\<close>.\<close>

datatype client_pc = Listening | Applying nat | Ended | Killed

text \<open>A writer after its \<^verbatim>\<open>HSET\<close>: \<^verbatim>\<open>SetInt\<close> of this process still has to write the cache;
  \<^verbatim>\<open>SetAll\<close> of this process refreshes it; all publish last.\<close>

datatype writer = CacheW string int | RefreshW | CommitW "string \<rightharpoonup> string" | PublishW

record 's watch =
  waRedis :: "string \<rightharpoonup> string"
  waWriters :: "writer list"
  waBus :: "string list"
  waMissed :: bool
  waDc :: dyn_config
  waWatcher :: watcher_pc
  waCancelled :: bool
  waCh :: "unit list"
  waClosed :: bool
  waClient :: client_pc
  waState :: 's

text \<open>\<open>waMissed\<close> is not part of the program: it records that a change may have gone unnoticed since the
  watcher last read the hash (a publication was lost, a refresh failed, or it never read the hash). The
  actions of a client read the cache and change its state; \<open>None\<close> ends the process.\<close>

type_synonym 's client_action = "dyn_config \<Rightarrow> 's \<Rightarrow> 's option"

definition cache_commit :: "string \<Rightarrow> (string \<rightharpoonup> string) \<Rightarrow> dyn_config \<Rightarrow> dyn_config" where
  "cache_commit ns h dc = dc\<lparr>dcCache := (dcCache dc)(ns \<mapsto> h)\<rparr>"

text \<open>\<^verbatim>\<open>Watch\<close> subscribes and starts its goroutine; it neither refreshes the cache nor signals.\<close>

definition Watch :: "goerr option \<Rightarrow> (string \<rightharpoonup> string) \<Rightarrow> dyn_config \<Rightarrow> 's \<Rightarrow> goerr + 's watch" where
  "Watch subscribeErr redis dc st =
     (case subscribeErr of
        Some err \<Rightarrow> Inl err
      | None \<Rightarrow>
          Inr \<lparr>waRedis = redis, waWriters = [], waBus = [], waMissed = True, waDc = dc,
               waWatcher = Selecting, waCancelled = False, waCh = [], waClosed = False,
               waClient = Listening, waState = st\<rparr>)"

definition dc_Close :: "'s watch \<Rightarrow> 's watch" where
  "dc_Close s = s\<lparr>waCancelled := True\<rparr>"

definition set_writer :: "nat \<Rightarrow> writer \<Rightarrow> 's watch \<Rightarrow> 's watch" where
  "set_writer i x s = s\<lparr>waWriters := (waWriters s)[i := x]\<rparr>"

definition drop_writer :: "nat \<Rightarrow> 's watch \<Rightarrow> 's watch" where
  "drop_writer i s = s\<lparr>waWriters := take i (waWriters s) @ drop (Suc i) (waWriters s)\<rparr>"

definition writer_at :: "'s watch \<Rightarrow> nat \<Rightarrow> writer \<Rightarrow> bool" where
  "writer_at s i x \<longleftrightarrow> i < length (waWriters s) \<and> waWriters s ! i = x"

text \<open>The non-blocking send of the watcher: a signal that is already pending is enough.\<close>

definition signal :: "'s watch \<Rightarrow> 's watch" where
  "signal s = s\<lparr>waCh := (if length (waCh s) < 1 then waCh s @ [()] else waCh s)\<rparr>"

section \<open>Steps\<close>

text \<open>The steps of the process: writers, watcher, client and \<^verbatim>\<open>Close\<close>.\<close>

inductive pod_step :: "string \<Rightarrow> 's client_action list \<Rightarrow> 's watch \<Rightarrow> 's watch \<Rightarrow> bool" for ns acts where
  set_int: "pod_step ns acts s
     (s\<lparr>waRedis := (waRedis s)(f \<mapsto> Itoa v), waWriters := waWriters s @ [CacheW f v]\<rparr>)"
| set_int_cache: "writer_at s i (CacheW f v) \<Longrightarrow>
     pod_step ns acts s ((set_writer i PublishW s)\<lparr>waDc := cache_SetInt ns f v (waDc s)\<rparr>)"
| set_all: "pod_step ns acts s
     (s\<lparr>waRedis := waRedis s ++ map_of kvs, waWriters := waWriters s @ [RefreshW]\<rparr>)"
| set_all_fetch: "writer_at s i RefreshW \<Longrightarrow> pod_step ns acts s (set_writer i (CommitW (waRedis s)) s)"
| set_all_fetch_fails: "writer_at s i RefreshW \<Longrightarrow> pod_step ns acts s (set_writer i PublishW s)"
| set_all_commit: "writer_at s i (CommitW h) \<Longrightarrow>
     pod_step ns acts s ((set_writer i PublishW s)\<lparr>waDc := cache_commit ns h (waDc s)\<rparr>)"
| skip: "waWatcher s = Selecting \<Longrightarrow> waBus s = p # ps \<Longrightarrow> p \<noteq> ns \<Longrightarrow> pod_step ns acts s (s\<lparr>waBus := ps\<rparr>)"
| notified: "waWatcher s = Selecting \<Longrightarrow> waBus s = ns # ps \<Longrightarrow>
     pod_step ns acts s (s\<lparr>waBus := ps, waWatcher := Notified\<rparr>)"
| fetch: "waWatcher s = Notified \<Longrightarrow> \<not> waCancelled s \<Longrightarrow>
     pod_step ns acts s (s\<lparr>waWatcher := Fetched (waRedis s), waMissed := False\<rparr>)"
| fetch_fails: "waWatcher s = Notified \<Longrightarrow>
     pod_step ns acts s (s\<lparr>waWatcher := Signalling, waMissed := True\<rparr>)"
| commit: "waWatcher s = Fetched h \<Longrightarrow>
     pod_step ns acts s (s\<lparr>waWatcher := Signalling, waDc := cache_commit ns h (waDc s)\<rparr>)"
| send_signal: "waWatcher s = Signalling \<Longrightarrow> pod_step ns acts s ((signal s)\<lparr>waWatcher := Selecting\<rparr>)"
| cancel: "pod_step ns acts s (dc_Close s)"
| stop: "waWatcher s = Selecting \<Longrightarrow> waCancelled s \<Longrightarrow>
     pod_step ns acts s (s\<lparr>waWatcher := Stopped, waClosed := True\<rparr>)"
| receive: "waClient s = Listening \<Longrightarrow> waCh s = x # xs \<Longrightarrow>
     pod_step ns acts s (s\<lparr>waCh := xs, waClient := Applying 0\<rparr>)"
| act: "waClient s = Applying k \<Longrightarrow> k < length acts \<Longrightarrow> (acts ! k) (waDc s) (waState s) = Some st \<Longrightarrow>
     pod_step ns acts s (s\<lparr>waClient := Applying (Suc k), waState := st\<rparr>)"
| act_kills: "waClient s = Applying k \<Longrightarrow> k < length acts \<Longrightarrow> (acts ! k) (waDc s) (waState s) = None \<Longrightarrow>
     pod_step ns acts s (s\<lparr>waClient := Killed\<rparr>)"
| round_done: "waClient s = Applying (length acts) \<Longrightarrow> pod_step ns acts s (s\<lparr>waClient := Listening\<rparr>)"
| client_ends: "waClient s = Listening \<Longrightarrow> waCh s = [] \<Longrightarrow> waClosed s \<Longrightarrow>
     pod_step ns acts s (s\<lparr>waClient := Ended\<rparr>)"

text \<open>The steps of the whole system: those of the process while it lives, writes of other processes,
  publications (which also serve other namespaces), and what Redis loses.\<close>

inductive watch_step :: "string \<Rightarrow> 's client_action list \<Rightarrow> 's watch \<Rightarrow> 's watch \<Rightarrow> bool" for ns acts where
  pod: "waClient s \<noteq> Killed \<Longrightarrow> pod_step ns acts s s' \<Longrightarrow> watch_step ns acts s s'"
| remote_set: "watch_step ns acts s
     (s\<lparr>waRedis := waRedis s ++ map_of kvs, waWriters := waWriters s @ [PublishW]\<rparr>)"
| publish_change: "writer_at s i PublishW \<Longrightarrow>
     watch_step ns acts s ((drop_writer i s)\<lparr>waBus := waBus s @ [ns]\<rparr>)"
| publish_fails: "writer_at s i PublishW \<Longrightarrow> watch_step ns acts s ((drop_writer i s)\<lparr>waMissed := True\<rparr>)"
| publish_other: "p \<noteq> ns \<Longrightarrow> watch_step ns acts s (s\<lparr>waBus := waBus s @ [p]\<rparr>)"
| publication_lost: "waBus s = ps @ p # ps' \<Longrightarrow>
     watch_step ns acts s (s\<lparr>waBus := ps @ ps', waMissed := True\<rparr>)"


definition watch_reachable :: "string \<Rightarrow> 's client_action list \<Rightarrow> 's \<Rightarrow> 's watch \<Rightarrow> bool" where
  "watch_reachable ns acts st s \<longleftrightarrow>
     (\<exists>redis dc s0. Watch None redis dc st = Inr s0 \<and> (watch_step ns acts)\<^sup>*\<^sup>* s0 s)"

text \<open>Nothing is under way: no writer is between its write and its publication, no notification waits, the
  watcher and the client wait, and no change may have gone unnoticed.\<close>

definition settled :: "string \<Rightarrow> 's watch \<Rightarrow> bool" where
  "settled ns s \<longleftrightarrow> waWriters s = [] \<and> ns \<notin> set (waBus s) \<and> \<not> waMissed s \<and> waWatcher s = Selecting \<and>
     waCh s = [] \<and> waClient s = Listening"

section \<open>The clients\<close>

text \<open>One round of \<^verbatim>\<open>WatchDynamicConfig\<close> reads one field after the other and sets the rate of the
  networks it is meant for, with the current rate of the first one as default.\<close>

definition rate_fields :: "(string \<times> network list) list" where
  "rate_fields = [(''safaricom'', [NetworkSafaricom]), (''airtel'', [NetworkAirtel]), (''telkom'', [NetworkTelkom]),
     (''equitel'', [NetworkEquitel]), (''cm'', [NetworkCM, NetworkINTNL]), (''default'', [NetworkUnknown])]"

definition rate_action :: "string \<times> network list \<Rightarrow> limiter client_action" where
  "rate_action fn dc l =
     (case dyn_value dc NSRateLimits (fst fn) (GetRate l (hd (snd fn))) of
        None \<Rightarrow> None
      | Some v \<Rightarrow> Some (fold (\<lambda>n. SetRate n v) (snd fn) l))"

definition rate_actions :: "limiter client_action list" where
  "rate_actions = map rate_action rate_fields"

text \<open>A round of \<^verbatim>\<open>watchSchedulerConfig\<close> holds the lock of the scheduler; its three reads are one
  action.\<close>

definition sched_actions :: "scheduler client_action list" where
  "sched_actions = [applySchedulerConfig]"

section \<open>What a client has to provide\<close>

text \<open>\<open>upto k dc st\<close>: the first \<open>k\<close> actions have brought \<open>st\<close> in line with the cache \<open>dc\<close>.\<close>

locale watch_client =
  fixes ns :: string and acts :: "'s client_action list" and wf :: "'s \<Rightarrow> bool"
    and upto :: "nat \<Rightarrow> dyn_config \<Rightarrow> 's \<Rightarrow> bool"
  assumes upto_0: "wf st \<Longrightarrow> upto 0 dc st"
    and wf_act: "k < length acts \<Longrightarrow> wf st \<Longrightarrow> (acts ! k) dc st = Some st' \<Longrightarrow> wf st'"
    and upto_act: "k < length acts \<Longrightarrow> wf st \<Longrightarrow> upto k dc st \<Longrightarrow> (acts ! k) dc st = Some st' \<Longrightarrow>
      upto (Suc k) dc st'"
begin

text \<open>A change of the hash is still going to reach the watcher, or may have been lost.\<close>

definition coming :: "'s watch \<Rightarrow> bool" where
  "coming s \<longleftrightarrow> waWriters s \<noteq> [] \<or> ns \<in> set (waBus s) \<or> waMissed s"

definition client_current :: "'s watch \<Rightarrow> bool" where
  "client_current s \<longleftrightarrow>
     (case waClient s of
        Listening \<Rightarrow> upto (length acts) (waDc s) (waState s)
      | Applying k \<Rightarrow> upto k (waDc s) (waState s)
      | _ \<Rightarrow> True)"

definition watch_inv :: "'s watch \<Rightarrow> bool" where
  "watch_inv s \<longleftrightarrow> wf (waState s) \<and> length (waCh s) \<le> 1 \<and>
     (\<forall>h. waWatcher s = Fetched h \<longrightarrow> h = waRedis s \<or> coming s) \<and>
     (coming s \<or> waWatcher s = Notified \<or> (\<exists>h. waWatcher s = Fetched h) \<or>
        dcCache (waDc s) ns = Some (waRedis s)) \<and>
     (coming s \<or> waWatcher s = Notified \<or> (\<exists>h. waWatcher s = Fetched h) \<or> waWatcher s = Signalling \<or>
        waCh s \<noteq> [] \<or> client_current s)"

lemmas watch_defs = coming_def client_current_def watch_inv_def set_writer_def drop_writer_def signal_def
  writer_at_def dc_Close_def cache_commit_def

lemma pod_step_inv: "pod_step ns acts s s' \<Longrightarrow> watch_inv s \<Longrightarrow> watch_inv s'"
  by (induction rule: pod_step.induct;
      auto simp: watch_defs upto_0 intro: wf_act upto_act split: client_pc.splits)

lemma watch_step_inv: "watch_step ns acts s s' \<Longrightarrow> watch_inv s \<Longrightarrow> watch_inv s'"
proof (induction rule: watch_step.induct)
  case (pod s s')
  then show ?case by (blast intro: pod_step_inv)
qed (auto simp: watch_defs split: client_pc.splits)

lemma reachable_inv:
  assumes "watch_reachable ns acts st s" and "wf st"
  shows "watch_inv s"
proof -
  obtain redis dc s0 where s0: "Watch None redis dc st = Inr s0" and r: "(watch_step ns acts)\<^sup>*\<^sup>* s0 s"
    using assms(1) by (auto simp: watch_reachable_def)
  have "watch_inv s0" using s0 assms(2) by (auto simp: Watch_def watch_defs)
  with r show ?thesis by induction (auto intro: watch_step_inv)
qed

lemma settled_current:
  assumes "watch_reachable ns acts st s" and "wf st" and "settled ns s"
  shows "dcCache (waDc s) ns = Some (waRedis s)" and "upto (length acts) (waDc s) (waState s)"
  using reachable_inv [OF assms(1,2)] assms(3)
  by (auto simp: watch_inv_def settled_def coming_def client_current_def)

end

section \<open>Rates\<close>

text \<open>A value agrees with a field of a cached hash unless the field holds another number.\<close>

definition cached_field :: "dyn_config \<Rightarrow> string \<Rightarrow> string \<Rightarrow> string option" where
  "cached_field dc ns f = Option.bind (dcCache dc ns) (\<lambda>m. m f)"

definition field_is :: "dyn_config \<Rightarrow> string \<Rightarrow> string \<Rightarrow> int \<Rightarrow> bool" where
  "field_is dc ns f v \<longleftrightarrow> (case cached_field dc ns f of None \<Rightarrow> True | Some raw \<Rightarrow> ParseInt raw = Some v)"

definition rates_upto :: "nat \<Rightarrow> dyn_config \<Rightarrow> limiter \<Rightarrow> bool" where
  "rates_upto k dc l \<longleftrightarrow>
     list_all (\<lambda>(f, ns). list_all (\<lambda>n. field_is dc NSRateLimits f (GetRate l n)) ns) (take k rate_fields)"

lemma dyn_value_field_is: "dyn_value dc ns f d = Some v \<Longrightarrow> field_is dc ns f v"
  by (auto simp: dyn_value_eq field_is_def cached_field_def split: option.splits)

lemma retry_SetRate [simp]: "retry (SetRate n v l) = retry l"
  by (simp add: SetRate_def split: option.split)

lemmas GetRate_SetRate = rates.get_write

text \<open>With a cache that does not change meanwhile, a round is what \<open>applyDynamicRates\<close> computes.\<close>

lemma rate_actions_round:
  assumes "\<And>f d. dyn_value dc NSRateLimits f d \<noteq> None"
  shows "fold (\<lambda>a st. Option.bind st (a dc)) rate_actions (Some l) =
    Some (applyDynamicRates (\<lambda>f d. the (dyn_value dc NSRateLimits f d)) l)"
  using assms
  by (simp add: rate_actions_def rate_fields_def rate_action_def applyDynamicRates_def Let_def
      option.case_eq_if)

lemma less_6_cases: "k < (6 :: nat) \<Longrightarrow> k = 0 \<or> k = 1 \<or> k = 2 \<or> k = 3 \<or> k = 4 \<or> k = 5"
  by auto

interpretation rate_watch: watch_client NSRateLimits rate_actions
  "\<lambda>l. limiter_wf l \<and> retry l = R" rates_upto for R
proof unfold_locales
  fix l l' :: limiter and dc k
  show "rates_upto 0 dc l" by (simp add: rates_upto_def)
  assume k: "k < length rate_actions" and wf: "limiter_wf l \<and> retry l = R"
    and act: "(rate_actions ! k) dc l = Some l'"
  have kf: "k < length rate_fields" using k by (simp add: rate_actions_def)
  obtain v where v: "dyn_value dc NSRateLimits (fst (rate_fields ! k)) (GetRate l (hd (snd (rate_fields ! k)))) = Some v"
    and l': "l' = fold (\<lambda>n. SetRate n v) (snd (rate_fields ! k)) l"
    using act kf by (auto simp: rate_actions_def rate_action_def split: option.splits)
  from kf have cases: "k = 0 \<or> k = 1 \<or> k = 2 \<or> k = 3 \<or> k = 4 \<or> k = 5"
    by (intro less_6_cases) (simp add: rate_fields_def)
  show "limiter_wf l' \<and> retry l' = R"
    using cases wf by (elim disjE) (simp_all add: l' rate_fields_def limiter_wf_SetRate)
  assume "rates_upto k dc l"
  then show "rates_upto (Suc k) dc l'"
    using cases wf dyn_value_field_is [OF v]
    by (elim disjE) (simp_all add: l' rate_fields_def rates_upto_def GetRate_SetRate limiter_wf_SetRate numeral_eq_Suc)
qed

text \<open>C27. Coalescing loses no rate change: whatever the interleaving of writers, publications, watcher and
  limiter, and whatever Redis lost or refused before, once the watcher has read the hash after that and
  nothing is under way, the cache is the hash in Redis, the rate of every network is the number stored in
  its field, and the limiter is well formed with the retry budgets it was started with.\<close>

theorem live_rates_applied:
  assumes "watch_reachable NSRateLimits rate_actions l s" and "limiter_wf l" and "settled NSRateLimits s"
  shows "dcCache (waDc s) NSRateLimits = Some (waRedis s) \<and>
     (\<forall>(f, ns) \<in> set rate_fields. \<forall>n \<in> set ns. \<forall>raw.
        waRedis s f = Some raw \<longrightarrow> ParseInt raw = Some (GetRate (waState s) n)) \<and>
     limiter_wf (waState s) \<and> retry (waState s) = retry l"
proof -
  have wf: "limiter_wf l \<and> retry l = retry l" using assms(2) by simp
  note c = rate_watch.settled_current [OF assms(1) wf assms(3)]
  have "rates_upto (length rate_fields) (waDc s) (waState s)" using c(2) by (simp add: rate_actions_def)
  with c(1) show ?thesis
    using rate_watch.reachable_inv [OF assms(1) wf]
    by (force simp: rates_upto_def list_all_iff field_is_def cached_field_def rate_watch.watch_inv_def)
qed

text \<open>A client that has begun a round ends it if its actions succeed.\<close>

lemma round_runs:
  fixes s :: "'s watch"
  assumes "waClient s = Applying k" and "k \<le> length acts"
    and "fold (\<lambda>a st. Option.bind st (a (waDc s))) (drop k acts) (Some (waState s)) = Some st'"
  shows "(watch_step ns acts)\<^sup>*\<^sup>* s (s\<lparr>waClient := Listening, waState := st'\<rparr>)"
  using assms
proof (induction "length acts - k" arbitrary: k s)
  case 0
  then have "pod_step ns acts s (s\<lparr>waClient := Listening\<rparr>)" by (intro pod_step.round_done) simp
  with 0 show ?case by (auto intro!: r_into_rtranclp watch_step.pod)
next
  case (Suc n)
  have none: "fold (\<lambda>a st. Option.bind st (a dc)) as None = None" for as :: "'s client_action list" and dc
    by (induction as) auto
  have k: "k < length acts" using Suc.hyps(2) by simp
  then have d: "drop k acts = acts ! k # drop (Suc k) acts" by (simp add: Cons_nth_drop_Suc)
  with Suc.prems(3) none obtain st where st: "(acts ! k) (waDc s) (waState s) = Some st"
    and rest: "fold (\<lambda>a st. Option.bind st (a (waDc s))) (drop (Suc k) acts) (Some st) = Some st'"
    by (cases "(acts ! k) (waDc s) (waState s)") auto
  let ?s = "s\<lparr>waClient := Applying (Suc k), waState := st\<rparr>"
  have "watch_step ns acts s ?s"
    by (rule watch_step.pod) (use pod_step.act [OF Suc.prems(1) k st] Suc.prems(1) in auto)
  moreover have "(watch_step ns acts)\<^sup>*\<^sup>* ?s (?s\<lparr>waClient := Listening, waState := st'\<rparr>)"
    using Suc.hyps(2) k rest by (intro Suc.hyps(1)) auto
  ultimately show ?case by (simp add: converse_rtranclp_into_rtranclp)
qed

text \<open>A run for the witness: another process sets the rate of Airtel to 7 and publishes the change.\<close>

definition sample_watch :: "limiter \<Rightarrow> limiter watch" where
  "sample_watch l =
     \<lparr>waRedis = [''airtel'' \<mapsto> ''7''], waWriters = [], waBus = [], waMissed = False,
      waDc = \<lparr>dcCache = [NSRateLimits \<mapsto> [''airtel'' \<mapsto> ''7'']]\<rparr>, waWatcher = Selecting, waCancelled = False,
      waCh = [], waClosed = False, waClient = Applying 0, waState = l\<rparr>"

lemma sample_watch_reachable: "watch_reachable NSRateLimits acts l (sample_watch l)"
proof -
  let ?s0 = "(sample_watch l)\<lparr>waRedis := Map.empty, waMissed := True, waDc := \<lparr>dcCache = Map.empty\<rparr>, waClient := Listening\<rparr>"
  let ?s1 = "?s0\<lparr>waRedis := waRedis ?s0 ++ map_of [(''airtel'', ''7'')], waWriters := waWriters ?s0 @ [PublishW]\<rparr>"
  let ?s2 = "(drop_writer 0 ?s1)\<lparr>waBus := waBus ?s1 @ [NSRateLimits]\<rparr>"
  let ?s3 = "?s2\<lparr>waBus := [], waWatcher := Notified\<rparr>"
  let ?s4 = "?s3\<lparr>waWatcher := Fetched (waRedis ?s3), waMissed := False\<rparr>"
  let ?s5 = "?s4\<lparr>waWatcher := Signalling, waDc := cache_commit NSRateLimits (waRedis ?s3) (waDc ?s4)\<rparr>"
  let ?s6 = "(signal ?s5)\<lparr>waWatcher := Selecting\<rparr>"
  let ?s7 = "?s6\<lparr>waCh := [], waClient := Applying 0\<rparr>"
  let ?S = "watch_step NSRateLimits acts"
  have "?S ?s0 ?s1" by (rule watch_step.remote_set)
  moreover have "?S ?s1 ?s2" by (rule watch_step.publish_change) (simp add: writer_at_def sample_watch_def)
  moreover have "?S ?s2 ?s3"
    by (rule watch_step.pod, simp add: sample_watch_def drop_writer_def,
        rule pod_step.notified) (simp_all add: sample_watch_def drop_writer_def)
  moreover have "?S ?s3 ?s4"
    by (rule watch_step.pod, simp add: sample_watch_def drop_writer_def,
        rule pod_step.fetch) (simp_all add: sample_watch_def drop_writer_def)
  moreover have "?S ?s4 ?s5"
    by (rule watch_step.pod, simp add: sample_watch_def drop_writer_def,
        rule pod_step.commit) (simp_all add: sample_watch_def drop_writer_def)
  moreover have "?S ?s5 ?s6"
    by (rule watch_step.pod, simp add: sample_watch_def drop_writer_def,
        rule pod_step.send_signal) (simp_all add: sample_watch_def drop_writer_def)
  moreover have "?S ?s6 ?s7"
    by (rule watch_step.pod, simp add: sample_watch_def drop_writer_def signal_def,
        rule pod_step.receive) (simp_all add: sample_watch_def drop_writer_def signal_def)
  ultimately have "?S\<^sup>*\<^sup>* ?s0 ?s7" by (meson converse_rtranclp_into_rtranclp rtranclp.rtrancl_refl)
  moreover have "?s7 = sample_watch l"
    by (simp add: sample_watch_def drop_writer_def signal_def cache_commit_def)
  moreover have "Watch None Map.empty \<lparr>dcCache = Map.empty\<rparr> l = Inr ?s0" by (simp add: Watch_def sample_watch_def)
  ultimately show ?thesis by (auto simp: watch_reachable_def)
qed

theorem live_rates_applied_witness:
  "\<exists>s. watch_reachable NSRateLimits rate_actions (rl_New None) s \<and> settled NSRateLimits s \<and>
     ParseInt ''7'' = Some (GetRate (waState s) NetworkAirtel) \<and> limiter_wf (waState s)"
proof -
  let ?init = "sample_watch (rl_New None)"
  let ?l = "applyDynamicRates (\<lambda>f d. the (dyn_value (waDc ?init) NSRateLimits f d)) (rl_New None)"
  let ?s = "?init\<lparr>waClient := Listening, waState := ?l\<rparr>"
  have p7: "ParseInt ''7'' = Some 7" by code_simp
  have "\<And>f d. dyn_value (waDc ?init) NSRateLimits f d \<noteq> None"
    by (simp add: dyn_value_eq sample_watch_def p7)
  from rate_actions_round [OF this, of "rl_New None"]
  have "fold (\<lambda>a st. Option.bind st (a (waDc ?init))) (drop 0 rate_actions) (Some (waState ?init)) = Some ?l"
    by (simp add: sample_watch_def)
  from round_runs [OF _ _ this] have "(watch_step NSRateLimits rate_actions)\<^sup>*\<^sup>* ?init ?s"
    by (simp add: sample_watch_def)
  then have r: "watch_reachable NSRateLimits rate_actions (rl_New None) ?s"
    using sample_watch_reachable [of rate_actions "rl_New None"] unfolding watch_reachable_def
    by (meson rtranclp_trans)
  have st: "settled NSRateLimits ?s" by (simp add: settled_def sample_watch_def)
  have "(''airtel'', [NetworkAirtel]) \<in> set rate_fields" "waRedis ?s ''airtel'' = Some ''7''"
    by (simp_all add: rate_fields_def sample_watch_def)
  with live_rates_applied [OF r limiter_wf_New st]
  have "ParseInt ''7'' = Some (GetRate (waState ?s) NetworkAirtel) \<and> limiter_wf (waState ?s)" by fastforce
  with r st show ?thesis by blast
qed

section \<open>Tuning of the scheduler\<close>

text \<open>The scheduler ignores values that are not positive.\<close>

definition tuning_agrees :: "dyn_config \<Rightarrow> scheduler \<Rightarrow> bool" where
  "tuning_agrees dc s \<longleftrightarrow>
     (\<forall>f raw v. cached_field dc NSSchedulerPromotional f = Some raw \<and> ParseInt raw = Some v \<longrightarrow>
        (f = ''credit_multiplier'' \<and> 0 < v \<longrightarrow> creditMultiplier s = v) \<and>
        (f = ''refill_period_ms'' \<and> 0 < wrap64 (v * 10 ^ 6) \<longrightarrow> refillPeriod s = wrap64 (v * 10 ^ 6)) \<and>
        (f = ''max_starvation_age_sec'' \<and> 0 < wrap64 (v * 10 ^ 9) \<longrightarrow> maxStarvationAge s = wrap64 (v * 10 ^ 9)))"

lemma dyn_value_cached: "cached_field dc ns f = Some raw \<Longrightarrow> dyn_value dc ns f d = ParseInt raw"
  by (auto simp: dyn_value_eq cached_field_def split: option.splits)

interpretation sched_watch: watch_client NSSchedulerPromotional sched_actions "\<lambda>_. True"
  "\<lambda>k dc s. k = 0 \<or> tuning_agrees dc s"
proof unfold_locales
  fix k dc s s'
  assume "k < length sched_actions" and "(sched_actions ! k) dc s = Some s'"
  then have "applySchedulerConfig dc s = Some s'" by (simp add: sched_actions_def)
  then show "Suc k = 0 \<or> tuning_agrees dc s'"
    by (auto simp: applySchedulerConfig_def tuning_agrees_def dyn_value_cached Let_def split: option.splits)
qed simp_all

text \<open>The same for the tuning of the scheduler: once nothing is under way, the positive values stored in
  Redis are in force.\<close>

theorem live_tuning_applied:
  assumes "watch_reachable NSSchedulerPromotional sched_actions st s" and "settled NSSchedulerPromotional s"
  shows "dcCache (waDc s) NSSchedulerPromotional = Some (waRedis s) \<and> tuning_agrees (waDc s) (waState s)"
  using sched_watch.settled_current [OF assms(1) TrueI assms(2)] by (simp add: sched_actions_def)

end
