(* ===== verification/Consumer_Session.thy ===== *)
theory Consumer_Session
  imports Consumer
begin

text \<open>
  \<^verbatim>\<open>Consumer.openChannel\<close> and \<^verbatim>\<open>Consumer.Consume\<close>
  (\<^verbatim>\<open>internal/sms/adapters/rabbitmq/consumer.go\<close>): the goroutine that drains one AMQP channel after
  the other. The loop of \<open>Consumer\<close> is one phase of it; in between it waits and reopens. The workers that
  received the deliveries settle them meanwhile, in any order, each over the channel the delivery came
  from: the client library refuses to settle over a channel that was closed.
\<close>

section \<open>Channels\<close>

text \<open>The AMQP channels of a consumer: how many it opened, and which of them it has not closed.\<close>

record chan_table =
  ctNext :: nat
  ctOpen :: "nat list"

definition chan_Close :: "nat \<Rightarrow> chan_table \<Rightarrow> chan_table" where
  "chan_Close c t = t\<lparr>ctOpen := removeAll c (ctOpen t)\<rparr>"

text \<open>The three errors are the answers of the client library to opening a channel, setting the prefetch
  count, and subscribing.\<close>

definition openChannel ::
  "goerr option \<Rightarrow> goerr option \<Rightarrow> goerr option \<Rightarrow> chan_table \<Rightarrow> (goerr + nat) \<times> chan_table" where
  "openChannel newErr qosErr consumeErr t =
     (case newErr of
        Some err \<Rightarrow> (Inl err, t)
      | None \<Rightarrow>
          (let channel = ctNext t;
               t = \<lparr>ctNext = Suc channel, ctOpen = ctOpen t @ [channel]\<rparr> in
           case qosErr of
             Some err \<Rightarrow> (Inl err, chan_Close channel t)
           | None \<Rightarrow>
               (case consumeErr of
                  Some err \<Rightarrow> (Inl err, chan_Close channel t)
                | None \<Rightarrow> (Inr channel, t))))"

section \<open>The goroutine\<close>

datatype session_pc = InDrain | Backoff | Returned

record session =
  seTable :: chan_table
  seChan :: nat
  seDrain :: drain_state
  sePc :: session_pc
  seEarlier :: "(nat \<times> delivery) list"
  seSettled :: "(nat \<times> delivery) list"
  seClosed :: bool

text \<open>What was handed to workers so far, with the channel each delivery came from.\<close>

definition all_handed :: "session \<Rightarrow> (nat \<times> delivery) list" where
  "all_handed s = seEarlier s @ (if sePc s = InDrain then map (Pair (seChan s)) (handed (seDrain s)) else [])"

text \<open>\<^verbatim>\<open>Consume\<close>: an error of the first \<^verbatim>\<open>openChannel\<close> is returned; otherwise the goroutine starts,
  and the broker sends \<open>msgs\<close> over the channel.\<close>

definition Consume ::
  "goerr option \<Rightarrow> goerr option \<Rightarrow> goerr option \<Rightarrow> (nat \<times> amqp_body) list \<Rightarrow> world \<Rightarrow> goerr + session" where
  "Consume newErr qosErr consumeErr msgs w =
     (case openChannel newErr qosErr consumeErr \<lparr>ctNext = 0, ctOpen = []\<rparr> of
        (Inl err, t) \<Rightarrow> Inl err
      | (Inr channel, t) \<Rightarrow>
          Inr \<lparr>seTable = t, seChan = channel, seDrain = drain_init msgs w, sePc = InDrain, seEarlier = [],
               seSettled = [], seClosed = False\<rparr>)"

text \<open>The end of a drain: \<^verbatim>\<open>channel.Close()\<close>, and what was handed over stays with the workers.\<close>

definition endDrain :: "session_pc \<Rightarrow> session \<Rightarrow> session" where
  "endDrain pc s =
     s\<lparr>seTable := chan_Close (seChan s) (seTable s), seEarlier := all_handed s, sePc := pc\<rparr>"

inductive consume_step :: "env \<Rightarrow> ctxid \<Rightarrow> string \<Rightarrow> session \<Rightarrow> session \<Rightarrow> bool"
  for e :: env and ctx :: ctxid and q :: string where
  drain: "\<lbrakk> sePc s = InDrain; drain_step e ctx q (seDrain s) d \<rbrakk> \<Longrightarrow> consume_step e ctx q s (s\<lparr>seDrain := d\<rparr>)"
| stopped: "\<lbrakk> sePc s = InDrain; drainPc (seDrain s) = Stopped \<rbrakk> \<Longrightarrow>
     consume_step e ctx q s ((endDrain Returned s)\<lparr>seClosed := True\<rparr>)"
| lost: "\<lbrakk> sePc s = InDrain; drainPc (seDrain s) = ChannelClosed \<rbrakk> \<Longrightarrow>
     consume_step e ctx q s (endDrain Backoff s)"
| give_up: "\<lbrakk> sePc s = Backoff; ctxdone (drainWorld (seDrain s)) ctx \<rbrakk> \<Longrightarrow>
     consume_step e ctx q s (s\<lparr>sePc := Returned, seClosed := True\<rparr>)"
| cancel: "sePc s = Backoff \<Longrightarrow>
     consume_step e ctx q s
       (s\<lparr>seDrain := (seDrain s)\<lparr>drainWorld := cancelContext ctx (drainWorld (seDrain s))\<rparr>\<rparr>)"
| reopen_fails: "\<lbrakk> sePc s = Backoff; openChannel newErr qosErr consumeErr (seTable s) = (Inl err, t) \<rbrakk> \<Longrightarrow>
     consume_step e ctx q s (s\<lparr>seTable := t\<rparr>)"
| reopen: "\<lbrakk> sePc s = Backoff; openChannel newErr qosErr consumeErr (seTable s) = (Inr channel, t) \<rbrakk> \<Longrightarrow>
     consume_step e ctx q s
       (s\<lparr>seTable := t, seChan := channel, seDrain := drain_init msgs (drainWorld (seDrain s)), sePc := InDrain\<rparr>)"
| settle: "\<lbrakk> (c, d) \<in> set (all_handed s); (c, d) \<notin> set (seSettled s); c \<in> set (ctOpen (seTable s)) \<rbrakk> \<Longrightarrow>
     consume_step e ctx q s (s\<lparr>seSettled := seSettled s @ [(c, d)]\<rparr>)"

definition consume_reachable :: "env \<Rightarrow> ctxid \<Rightarrow> string \<Rightarrow> session \<Rightarrow> bool" where
  "consume_reachable e ctx q s \<longleftrightarrow>
     (\<exists>newErr qosErr consumeErr msgs w s0.
        Consume newErr qosErr consumeErr msgs w = Inr s0 \<and> (consume_step e ctx q)\<^sup>*\<^sup>* s0 s)"

section \<open>Invariant\<close>

lemma openChannel_cases:
  assumes "openChannel newErr qosErr consumeErr t = (r, t')" and "ctNext t \<notin> set (ctOpen t)"
  shows "(\<exists>err. r = Inl err \<and> ctOpen t' = ctOpen t \<and> ctNext t \<le> ctNext t' \<and> ctNext t' \<le> Suc (ctNext t)) \<or>
         (r = Inr (ctNext t) \<and> ctOpen t' = ctOpen t @ [ctNext t] \<and> ctNext t' = Suc (ctNext t))"
  using assms by (auto simp: openChannel_def chan_Close_def Let_def split: option.splits)

text \<open>The phases of a drain: a stopped one has seen the cancellation, and a closed channel is drained.\<close>

definition drain_ends :: "ctxid \<Rightarrow> drain_state \<Rightarrow> bool" where
  "drain_ends ctx d \<longleftrightarrow> (drainPc d = Stopped \<longrightarrow> ctxdone (drainWorld d) ctx) \<and>
     (drainPc d = ChannelClosed \<longrightarrow> incoming d = [])"

lemma drain_ends_step: "drain_step e ctx q d d' \<Longrightarrow> drain_ends ctx d \<Longrightarrow> drain_ends ctx d'"
  by (induction rule: drain_step.induct) (auto simp: drain_ends_def)

lemma handed_step: "drain_step e ctx q d d' \<Longrightarrow> set (handed d) \<subseteq> set (handed d')"
  by (induction rule: drain_step.induct) auto

definition session_inv :: "ctxid \<Rightarrow> session \<Rightarrow> bool" where
  "session_inv ctx s \<longleftrightarrow>
     ctOpen (seTable s) = (if sePc s = InDrain then [seChan s] else []) \<and>
     (sePc s = InDrain \<longrightarrow> seChan s < ctNext (seTable s)) \<and>
     (\<forall>(c, d) \<in> set (seEarlier s). c < ctNext (seTable s) \<and> (sePc s = InDrain \<longrightarrow> c < seChan s)) \<and>
     (seClosed s \<longleftrightarrow> sePc s = Returned) \<and>
     (sePc s = Returned \<longrightarrow> ctxdone (drainWorld (seDrain s)) ctx) \<and>
     drain_ends ctx (seDrain s) \<and>
     set (seSettled s) \<subseteq> set (all_handed s) \<and> distinct (seSettled s)"

lemma session_inv_Consume:
  assumes "Consume newErr qosErr consumeErr msgs w = Inr s"
  shows "session_inv ctx s"
  using assms
  by (auto simp: Consume_def openChannel_def Let_def session_inv_def drain_ends_def drain_init_def all_handed_def
      split: prod.splits sum.splits option.splits)

lemma session_inv_step: "consume_step e ctx q s s' \<Longrightarrow> session_inv ctx s \<Longrightarrow> session_inv ctx s'"
proof (induction rule: consume_step.induct)
  case (drain s d)
  have "Pair (seChan s) ` set (handed (seDrain s)) \<subseteq> Pair (seChan s) ` set (handed d)"
    by (rule image_mono [OF handed_step [OF drain(2)]])
  then show ?case
    using drain drain_ends_step [OF drain(2)] by (simp add: session_inv_def all_handed_def) blast
next
  case (reopen_fails s newErr qosErr consumeErr err t)
  then show ?case
    using openChannel_cases [OF reopen_fails(2)] by (fastforce simp: session_inv_def all_handed_def)
next
  case (reopen s newErr qosErr consumeErr channel t msgs)
  then show ?case
    using openChannel_cases [OF reopen(2)]
    by (fastforce simp: session_inv_def all_handed_def drain_ends_def drain_init_def)
qed (auto simp: session_inv_def endDrain_def all_handed_def drain_ends_def chan_Close_def)

lemma session_inv_reachable: "consume_reachable e ctx q s \<Longrightarrow> session_inv ctx s"
proof -
  have "(consume_step e ctx q)\<^sup>*\<^sup>* s0 s \<Longrightarrow> session_inv ctx s0 \<Longrightarrow> session_inv ctx s" for s0
    by (induction rule: rtranclp_induct) (auto intro: session_inv_step)
  then show "consume_reachable e ctx q s \<Longrightarrow> session_inv ctx s"
    unfolding consume_reachable_def using session_inv_Consume by blast
qed

text \<open>C28. A consumer leaks no channel and keeps its promise: in every reachable state it holds exactly one open
  AMQP channel while it drains and none otherwise; the channel of deliveries stays open until the context is
  cancelled, however often the AMQP channel is lost; what workers settle was handed to them, each delivery
  once; and when a channel is found closed, everything that came over it was handed over or rejected.\<close>

theorem consumer_session_invariant:
  assumes "consume_reachable e ctx q s"
  shows "ctOpen (seTable s) = (if sePc s = InDrain then [seChan s] else []) \<and>
     (seClosed s \<longleftrightarrow> sePc s = Returned) \<and> (seClosed s \<longrightarrow> ctxdone (drainWorld (seDrain s)) ctx) \<and>
     set (seSettled s) \<subseteq> set (all_handed s) \<and> distinct (seSettled s) \<and>
     (sePc s = InDrain \<and> drainPc (seDrain s) = ChannelClosed \<longrightarrow> incoming (seDrain s) = [])"
  using session_inv_reachable [OF assms] by (auto simp: session_inv_def drain_ends_def)

text \<open>A run for the witnesses: one delivery is handed over, the context is cancelled, and the consumer stops.\<close>

definition sample_delivery :: delivery where
  "sample_delivery = \<lparr>dTag = 1, dMessages = [sample_message\<lparr>SourceQueue := ''Q''\<rparr>]\<rparr>"

definition sample_session :: session where
  "sample_session =
     \<lparr>seTable = \<lparr>ctNext = 1, ctOpen = []\<rparr>, seChan = 0,
      seDrain = \<lparr>incoming = [], handed = [sample_delivery], drainPc = Stopped, drainWorld = cancelContext AppCtx init_world\<rparr>,
      sePc = Returned, seEarlier = [(0, sample_delivery)], seSettled = [], seClosed = True\<rparr>"

lemma sample_session_reachable: "consume_reachable base_env AppCtx ''Q'' sample_session"
proof -
  let ?D = "drain_step base_env AppCtx ''Q''"
  let ?d0 = "drain_init [(1, BodyObject sample_message)] init_world"
  let ?d1 = "?d0\<lparr>incoming := [], drainPc := Handing sample_delivery\<rparr>"
  let ?d2 = "?d1\<lparr>handed := handed ?d1 @ [sample_delivery], drainPc := Draining\<rparr>"
  let ?d3 = "?d2\<lparr>drainWorld := cancelContext AppCtx (drainWorld ?d2)\<rparr>"
  let ?d4 = "?d3\<lparr>drainPc := Stopped\<rparr>"
  let ?t = "\<lambda>d. \<lparr>seTable = \<lparr>ctNext = 1, ctOpen = [0]\<rparr>, seChan = 0, seDrain = d, sePc = InDrain, seEarlier = [],
               seSettled = [], seClosed = False\<rparr>"
  have d: "?D ?d0 ?d1" "?D ?d1 ?d2" "?D ?d2 ?d3" "?D ?d3 ?d4"
    subgoal unfolding sample_delivery_def
      by (rule drain_step.parsed [where body = "BodyObject sample_message"]) (simp_all add: drain_init_def parseMessages_def)
    subgoal by (rule drain_step.hand) simp
    subgoal by (rule drain_step.cancel) (simp add: drain_init_def init_world_def)
    subgoal by (rule drain_step.stop) (simp_all add: drain_init_def)
    done
  have lift: "consume_step base_env AppCtx ''Q'' (?t x) (?t y)" if "?D x y" for x y
    using consume_step.drain [of "?t x" base_env AppCtx "''Q''" y] that by simp
  have a: "(consume_step base_env AppCtx ''Q'')\<^sup>*\<^sup>* (?t ?d0) (?t ?d4)"
    using lift [OF d(1)] lift [OF d(2)] lift [OF d(3)] lift [OF d(4)]
    by (meson converse_rtranclp_into_rtranclp rtranclp.rtrancl_refl)
  have b: "consume_step base_env AppCtx ''Q'' (?t ?d4) ((endDrain Returned (?t ?d4))\<lparr>seClosed := True\<rparr>)"
    by (rule consume_step.stopped) simp_all
  have c: "(endDrain Returned (?t ?d4))\<lparr>seClosed := True\<rparr> = sample_session"
    by (simp add: endDrain_def sample_session_def all_handed_def chan_Close_def drain_init_def)
  have i: "Consume None None None [(1, BodyObject sample_message)] init_world = Inr (?t ?d0)"
    by (simp add: Consume_def openChannel_def)
  show ?thesis
    unfolding consume_reachable_def
    by (intro exI conjI, rule i, rule rtranclp.rtrancl_into_rtrancl [OF a b [unfolded c]])
qed

theorem consumer_session_invariant_witness:
  "seClosed sample_session \<and> ctOpen (seTable sample_session) = [] \<and> ctxdone (drainWorld (seDrain sample_session)) AppCtx"
proof -
  have "seClosed sample_session" "sePc sample_session = Returned" by (simp_all add: sample_session_def)
  with consumer_session_invariant [OF sample_session_reachable] show ?thesis by simp
qed

section \<open>Deliveries of a closed channel\<close>

lemma closed_step:
  assumes "consume_step e ctx q s s'" and "session_inv ctx s" and "c < ctNext (seTable s)"
    and "c \<notin> set (ctOpen (seTable s))"
  shows "c < ctNext (seTable s') \<and> c \<notin> set (ctOpen (seTable s')) \<and>
    ((c, d) \<in> set (seSettled s') \<longleftrightarrow> (c, d) \<in> set (seSettled s))"
  using assms
proof (induction rule: consume_step.induct)
  case (reopen_fails s newErr qosErr consumeErr err t)
  then show ?case using openChannel_cases [OF reopen_fails(2)] by (fastforce simp: session_inv_def)
next
  case (reopen s newErr qosErr consumeErr channel t msgs)
  then show ?case using openChannel_cases [OF reopen(2)] by (fastforce simp: session_inv_def)
qed (auto simp: endDrain_def chan_Close_def)

lemma handed_below: "session_inv ctx s \<Longrightarrow> (c, d) \<in> set (all_handed s) \<Longrightarrow> c < ctNext (seTable s)"
  by (auto simp: session_inv_def all_handed_def split: if_splits)



end
