(* ===== verification/Lifecycle.thy ===== *)
theory Lifecycle
  imports Bootstrap Config_Watch Consumer_Session
begin

text \<open>
  \<^verbatim>\<open>App.Start\<close> and \<^verbatim>\<open>App.Shutdown\<close> of \<^verbatim>\<open>internal/bootstrap/app.go\<close> and \<^verbatim>\<open>cmd/gateway/main.go\<close>: which
  goroutines are started, in which order components are closed, and how the process ends. What the
  goroutines do is modelled with the components; a goroutine is a \<open>job\<close> here. \<open>consumeErr q\<close> is the answer of
  \<^verbatim>\<open>Consume\<close> for queue \<open>q\<close>.
\<close>

section \<open>Start\<close>

datatype job =
  WatchRates
| TransactionalWorker
| SchedulerLoops
| RouteWorker string
| BatchWorker string int
| DeliveryWorker string
| RetryWorker string
| AtWorker
| DlqMigratorJob
| SaveToDBMigratorJob
| HttpServerJob

text \<open>The workers of one input queue.\<close>

definition queue_jobs :: "app \<Rightarrow> string \<Rightarrow> job list" where
  "queue_jobs a q =
     replicate (nat (app_WorkerCount (cfg_App (gConfig a))))
       (case delivery_path_for a q of
          PriorityPath r \<Rightarrow> RouteWorker q
        | BatchPath p n \<Rightarrow> BatchWorker q n
        | SinglePath p \<Rightarrow> DeliveryWorker q)"

fun startConsumers :: "(string \<Rightarrow> goerr option) \<Rightarrow> app \<Rightarrow> consumer list \<Rightarrow> goerr option \<times> job list" where
  "startConsumers consumeErr a [] = (None, [])"
| "startConsumers consumeErr a (c # cs) =
     (case consumeErr (ccQueue c) of
        Some err \<Rightarrow> (Some (Wrapf (''failed to start consumer for '' @ ccQueue c @ '': '' @ error_text err) err), [])
      | None \<Rightarrow>
          (case startConsumers consumeErr a cs of
             (r, jobs) \<Rightarrow> (r, queue_jobs a (ccQueue c) @ jobs)))"

fun startRetry :: "(string \<Rightarrow> goerr option) \<Rightarrow> (string \<times> processor \<times> int) list \<Rightarrow> goerr option \<times> job list" where
  "startRetry consumeErr [] = (None, [])"
| "startRetry consumeErr ((q, p, workers) # specs) =
     (case consumeErr q of
        Some err \<Rightarrow> (Some (Wrapf (''failed to start retry consumer for '' @ q @ '': '' @ error_text err) err), [])
      | None \<Rightarrow>
          (case startRetry consumeErr specs of
             (r, jobs) \<Rightarrow> (r, replicate (nat workers) (RetryWorker q) @ jobs)))"

definition startAt :: "(string \<Rightarrow> goerr option) \<Rightarrow> app \<Rightarrow> goerr option \<times> job list" where
  "startAt consumeErr a =
     (case consumeErr (ccQueue (gAtConsumer a)) of
        Some err \<Rightarrow> (Some (Wrapf (''failed to start AfricasTalking consumer: '' @ error_text err) err), [])
      | None \<Rightarrow> (None, replicate (nat (at_WorkerCount (cfg_AfricasTalking (gConfig a)))) AtWorker))"

text \<open>The priority components: the handler's workers, then the scheduler, whose \<^verbatim>\<open>Start\<close> never fails.\<close>

definition startPriority :: "env \<Rightarrow> app \<Rightarrow> world \<Rightarrow> job list \<times> app \<times> world" where
  "startPriority e a w =
     (if priority_Enabled (cfg_Priority (gConfig a)) then
        (case gPriority a of
           None \<Rightarrow> ([], a, w)
         | Some parts \<Rightarrow>
             (case sched_Start e (Some (gPriorityStore parts)) (gPriorityScheduler parts) w of
                (store, s, w) \<Rightarrow>
                  (replicate (nat (hWorkerCount (gTransactionalHandler parts))) TransactionalWorker @ [SchedulerLoops],
                   a\<lparr>gPriority := Some (parts\<lparr>gPriorityStore := (case store of Some st \<Rightarrow> st | None \<Rightarrow> gPriorityStore parts),
                                           gPriorityScheduler := s\<rparr>)\<rparr>, w)))
      else ([], a, w))"

definition background_jobs :: "app \<Rightarrow> job list" where
  "background_jobs a =
     (if queues_DLQMigratorEnabled (cfg_Queues (gConfig a)) then [DlqMigratorJob] else []) @
     (if queues_SaveToDBDLQMigratorEnabled (cfg_Queues (gConfig a)) then [SaveToDBMigratorJob] else []) @
     [HttpServerJob]"

text \<open>When a consumer fails, \<^verbatim>\<open>Start\<close> returns and the goroutines started before it keep running.\<close>

definition Start ::
  "env \<Rightarrow> (string \<Rightarrow> goerr option) \<Rightarrow> app \<Rightarrow> world \<Rightarrow> (goerr option \<times> job list) \<times> app \<times> world" where
  "Start e consumeErr a w =
     (let (prio, a, w) = startPriority e a w;
          jobs = WatchRates # prio;
          (err, cs) = startConsumers consumeErr a (gConsumers a); jobs = jobs @ cs in
      if err \<noteq> None then ((err, jobs), a, w)
      else
        (let (err, rs) = startRetry consumeErr (retrySpecs a); jobs = jobs @ rs in
         if err \<noteq> None then ((err, jobs), a, w)
         else
           (let (err, ats) = startAt consumeErr a; jobs = jobs @ ats in
            if err \<noteq> None then ((err, jobs), a, w)
            else ((None, jobs @ background_jobs a), a, w))))"

section \<open>Shutdown\<close>

datatype closing =
  CloseHTTPServer
| StopTransactionalHandler
| StopPriorityScheduler
| CloseConsumer string
| ClosePublisher
| CloseRabbitConn
| ClosePriorityStore
| CloseDynamicConfig
| CloseRedis
| CloseHTTPClient
| CloseSDPHTTPClient

text \<open>Errors of the components are logged; \<^verbatim>\<open>Shutdown\<close> goes on and returns nil. A consumer of \<^verbatim>\<open>New\<close> is never
  nil.\<close>

definition Shutdown :: "app \<Rightarrow> goerr option \<times> closing list" where
  "Shutdown a =
     (None,
      [CloseHTTPServer] @
      (if gPriority a = None then [] else [StopTransactionalHandler, StopPriorityScheduler]) @
      map (\<lambda>c. CloseConsumer (ccQueue c)) (gConsumers a) @
      map (\<lambda>c. CloseConsumer (ccQueue c)) [gTxRetryConsumer a, gPromoRetryConsumer a] @
      [CloseConsumer (ccQueue (gAtConsumer a))] @
      [ClosePublisher, CloseRabbitConn] @
      (if gPriority a = None then [] else [ClosePriorityStore]) @
      [CloseDynamicConfig, CloseRedis, CloseHTTPClient, CloseSDPHTTPClient])"

section \<open>The process\<close>

datatype main_step =
  MainFatal goerr
| MainStarted "job list"
| MainSignal
| MainCancel
| MainClosing closing
| MainShutdownError goerr

definition gateway_main ::
  "env \<Rightarrow> dial_outcome \<Rightarrow> goerr \<Rightarrow> environment \<Rightarrow> (string \<Rightarrow> goerr option) \<Rightarrow> world \<Rightarrow> main_step list \<times> int" where
  "gateway_main e dial dialErr envv consumeErr w =
     (case New e dial dialErr (Load envv) w of
        (Inl err, w) \<Rightarrow> ([MainFatal err], 1)
      | (Inr a, w) \<Rightarrow>
          (case Start e consumeErr a w of
             ((Some err, jobs), a, w) \<Rightarrow> ([MainStarted jobs, MainFatal err], 1)
           | ((None, jobs), a, w) \<Rightarrow>
               (case Shutdown a of
                  (err, cs) \<Rightarrow>
                    ([MainStarted jobs, MainSignal, MainCancel] @ map MainClosing cs @
                     (case err of None \<Rightarrow> [] | Some x \<Rightarrow> [MainShutdownError x]), 0))))"

section \<open>Facts\<close>

text \<open>The workers that read the deliveries of an input queue.\<close>

fun serves :: "string \<Rightarrow> job \<Rightarrow> bool" where
  "serves q (RouteWorker q') = (q' = q)"
| "serves q (BatchWorker q' n) = (q' = q)"
| "serves q (DeliveryWorker q') = (q' = q)"
| "serves q _ = False"

abbreviation staff :: "string \<Rightarrow> job list \<Rightarrow> nat" where
  "staff q jobs \<equiv> length (filter (serves q) jobs)"

lemma staff_queue_jobs:
  "staff q (queue_jobs a q') = (if q' = q then nat (app_WorkerCount (cfg_App (gConfig a))) else 0)"
  by (simp add: queue_jobs_def filter_replicate split: delivery_path.split)

lemma startConsumers_staff:
  "startConsumers ce a cs = (None, jobs) \<Longrightarrow>
   staff q jobs = nat (app_WorkerCount (cfg_App (gConfig a))) * count_list (map ccQueue cs) q"
  by (induction cs arbitrary: jobs) (auto simp: staff_queue_jobs split: option.splits prod.splits)

lemma startConsumers_fails:
  "(fst (startConsumers ce a cs) = None) = list_all (\<lambda>c. ce (ccQueue c) = None) cs"
  by (induction cs) (auto split: option.splits prod.splits)

lemma startRetry_fails:
  "(fst (startRetry ce specs) = None) = list_all (\<lambda>(q, p, n). ce q = None) specs"
  by (induction ce specs rule: startRetry.induct) (auto split: option.splits prod.splits)

lemma startRetry_staff: "staff q (snd (startRetry ce specs)) = 0"
  by (induction ce specs rule: startRetry.induct) (auto simp: filter_replicate split: option.splits prod.splits)

lemma startAt_staff: "staff q (snd (startAt ce a)) = 0"
  by (simp add: startAt_def filter_replicate split: option.split)

lemma startPriority_app:
  assumes "startPriority e a w = (jobs, a', w')"
  shows "gConfig a' = gConfig a" "gConsumers a' = gConsumers a" "retrySpecs a' = retrySpecs a"
    "gAtConsumer a' = gAtConsumer a" "staff q jobs = 0"
  using assms
  by (auto simp: startPriority_def retrySpecs_def filter_replicate split: if_splits option.splits prod.splits)

lemma background_staff: "staff q (background_jobs a) = 0"
  by (simp add: background_jobs_def)

lemma Start_facts:
  assumes "Start e ce a w = ((err, jobs), a', w')"
  shows "(err = None \<longleftrightarrow> list_all (\<lambda>c. ce (ccQueue c) = None)
            (gConsumers a @ [gTxRetryConsumer a, gPromoRetryConsumer a, gAtConsumer a])) \<and>
         (err = None \<longrightarrow>
            staff q jobs = nat (app_WorkerCount (cfg_App (gConfig a))) * count_list (map ccQueue (gConsumers a)) q)"
proof -
  obtain prio a1 w1 where p: "startPriority e a w = (prio, a1, w1)" by (cases "startPriority e a w")
  note f = startPriority_app [OF p]
  obtain e1 cs where c: "startConsumers ce a1 (gConsumers a) = (e1, cs)" by fastforce
  obtain e2 rs where r: "startRetry ce (retrySpecs a) = (e2, rs)" by fastforce
  obtain e3 ats where t: "startAt ce a1 = (e3, ats)" by fastforce
  have "e1 = None \<longleftrightarrow> list_all (\<lambda>c. ce (ccQueue c) = None) (gConsumers a)" using startConsumers_fails [of ce a1 "gConsumers a"] c by simp
  moreover have "e2 = None \<longleftrightarrow> ce (ccQueue (gTxRetryConsumer a)) = None \<and> ce (ccQueue (gPromoRetryConsumer a)) = None"
    using startRetry_fails [of ce "retrySpecs a"] r by (simp add: retrySpecs_def)
  moreover have "e3 = None \<longleftrightarrow> ce (ccQueue (gAtConsumer a)) = None"
    using t f by (auto simp: startAt_def split: option.splits)
  moreover have "staff q cs = nat (app_WorkerCount (cfg_App (gConfig a))) * count_list (map ccQueue (gConsumers a)) q" if "e1 = None"
    using startConsumers_staff [of ce a1 "gConsumers a" cs q] c that f by simp
  moreover have "staff q rs = 0" "staff q ats = 0"
    using startRetry_staff [of q ce "retrySpecs a"] r startAt_staff [of q ce a1] t by simp_all
  ultimately show ?thesis
    using assms f(5) [of q] background_staff [of q a1] by (auto simp: Start_def p f(1-4) c r t Let_def split: if_splits)
qed

lemma New_config:
  assumes "New e dial dialErr cfg w = (Inr a, w')"
  shows "gConfig a = cfg" and "map ccQueue (gConsumers a) = queues_InputQueues (cfg_Queues cfg)"
proof -
  obtain dc conn w2 where "assemble e cfg dc conn (publisher_config cfg) w2 = (Inr a, w')"
    using New_ok [OF assms] by blast
  note as = assemble_ok [OF this]
  show "gConfig a = cfg" by (rule as(2))
  obtain w3 w4 where "newConsumers e (rabbit_PrefetchCount (cfg_RabbitMQ cfg)) (rabbit_ReconnectWait (cfg_RabbitMQ cfg))
       (queues_InputQueues (cfg_Queues cfg)) w3 = (Inr (gConsumers a), w4)" using as(1) by blast
  then show "map ccQueue (gConsumers a) = queues_InputQueues (cfg_Queues cfg)" using newConsumers_ok by blast
qed

text \<open>\<^verbatim>\<open>Start\<close> succeeds exactly when every consumer could subscribe, and then every input queue has exactly
  the configured number of workers (once for each time it is listed).\<close>

theorem Start_staffs_queues:
  assumes "Start e ce a w = ((err, jobs), a', w')"
  shows "(err = None \<longleftrightarrow> list_all (\<lambda>c. ce (ccQueue c) = None)
            (gConsumers a @ [gTxRetryConsumer a, gPromoRetryConsumer a, gAtConsumer a])) \<and>
         (err = None \<longrightarrow>
            staff q jobs = nat (app_WorkerCount (cfg_App (gConfig a))) * count_list (map ccQueue (gConsumers a)) q)"
  by (rule Start_facts [OF assms])

lemma base_Start:
  "\<exists>a w jobs a' w'. New base_env DialOk ErrRateLimited (Load Map.empty) init_world = (Inr a, w) \<and>
     Start base_env (\<lambda>_. None) a w = ((None, jobs), a', w')"
proof -
  obtain a w where a: "New base_env DialOk ErrRateLimited (Load Map.empty) init_world = (Inr a, w)"
    using base_New by blast
  obtain err jobs a' w' where s: "Start base_env (\<lambda>_. None) a w = ((err, jobs), a', w')"
    by (cases "Start base_env (\<lambda>_. None) a w") auto
  then have "err = None" using Start_facts [OF s] by (simp add: list_all_iff)
  with a s show ?thesis by blast
qed

lemma base_staff:
  "app_WorkerCount (cfg_App (Load Map.empty)) = 10"
  "queues_InputQueues (cfg_Queues (Load Map.empty)) = [''TITANIC-KE_SMS_QUEUE'', ''CONSUME_TO_MNO'']"
  by (simp_all add: Load_simps Load_App_def Load_Queues_def getEnvAsInt_def getEnvAsStringSlice_def)

theorem Start_staffs_queues_witness:
  "\<exists>a w jobs a' w'. New base_env DialOk ErrRateLimited (Load Map.empty) init_world = (Inr a, w) \<and>
     Start base_env (\<lambda>_. None) a w = ((None, jobs), a', w') \<and> staff ''CONSUME_TO_MNO'' jobs = 10"
proof -
  obtain a w jobs a' w' where s: "New base_env DialOk ErrRateLimited (Load Map.empty) init_world = (Inr a, w)"
    "Start base_env (\<lambda>_. None) a w = ((None, jobs), a', w')" using base_Start by blast
  then have "staff ''CONSUME_TO_MNO'' jobs = 10"
    using Start_staffs_queues [OF s(2), of "''CONSUME_TO_MNO''"] New_config [OF s(1)] by (simp add: base_staff)
  with s show ?thesis by blast
qed

text \<open>C32. A queue is served exactly if the worker count is positive: \<^verbatim>\<open>Start\<close> takes the configured number as it
  is, while the processors that \<^verbatim>\<open>New\<close> builds replace a count that is not positive by a default. With such a
  configuration the gateway consumes its input queues and processes nothing.\<close>

theorem queues_served_iff:
  assumes "New e dial dialErr cfg w0 = (Inr a, w)" and "Start e ce a w = ((None, jobs), a', w')"
    and "q \<in> set (queues_InputQueues (cfg_Queues cfg))"
  shows "((\<exists>j. j \<in> set jobs \<and> serves q j) \<longleftrightarrow> 0 < app_WorkerCount (cfg_App cfg)) \<and>
         0 < workerCount (processorFor a q)"
proof -
  have cfg: "gConfig a = cfg" and names: "map ccQueue (gConsumers a) = queues_InputQueues (cfg_Queues cfg)"
    using New_config [OF assms(1)] by simp_all
  have "staff q jobs = nat (app_WorkerCount (cfg_App cfg)) * count_list (map ccQueue (gConsumers a)) q"
    using Start_facts [OF assms(2)] cfg by simp
  moreover have "0 < count_list (map ccQueue (gConsumers a)) q"
    using assms(3) names by (metis count_list_0_iff gr0I)
  ultimately have "0 < staff q jobs \<longleftrightarrow> 0 < app_WorkerCount (cfg_App cfg)" by simp
  moreover have "0 < staff q jobs \<longleftrightarrow> (\<exists>j. j \<in> set jobs \<and> serves q j)" by (simp add: filter_empty_conv) blast
  moreover have "used_processor a (processorFor a q)" by (auto simp: used_processor_def)
  ultimately show ?thesis using New_processor_facts [OF assms(1)] by (auto simp: proc_wired_def)
qed


theorem queues_served_iff_witness:
  "\<exists>a w jobs a' w'. New base_env DialOk ErrRateLimited (Load Map.empty) init_world = (Inr a, w) \<and>
     Start base_env (\<lambda>_. None) a w = ((None, jobs), a', w') \<and>
     (\<exists>j. j \<in> set jobs \<and> serves ''CONSUME_TO_MNO'' j)"
proof -
  obtain a w jobs a' w' where s: "New base_env DialOk ErrRateLimited (Load Map.empty) init_world = (Inr a, w)"
    "Start base_env (\<lambda>_. None) a w = ((None, jobs), a', w')" using base_Start by blast
  then have "\<exists>j. j \<in> set jobs \<and> serves ''CONSUME_TO_MNO'' j"
    using queues_served_iff [OF s, of "''CONSUME_TO_MNO''"] by (simp add: base_staff)
  with s show ?thesis by blast
qed

section \<open>The order of shutdown\<close>

text \<open>What a component needs while it is closed or while its last goroutines finish: workers publish through
  the publisher; consumers and the publisher live on the connection; the stores on the Redis client; the
  probes of the HTTP server ask the connection and Redis.\<close>

fun needs :: "closing \<Rightarrow> closing \<Rightarrow> bool" where
  "needs CloseHTTPServer y = (y \<in> {CloseRabbitConn, CloseRedis})"
| "needs StopTransactionalHandler y = (y \<in> {ClosePublisher, CloseRabbitConn, CloseRedis, CloseHTTPClient, CloseSDPHTTPClient})"
| "needs StopPriorityScheduler y = (y \<in> {ClosePriorityStore, CloseDynamicConfig, CloseRedis})"
| "needs (CloseConsumer q) y = (y \<in> {ClosePublisher, CloseRabbitConn})"
| "needs ClosePublisher y = (y = CloseRabbitConn)"
| "needs ClosePriorityStore y = (y = CloseRedis)"
| "needs CloseDynamicConfig y = (y = CloseRedis)"
| "needs _ y = False"

fun consumers_closed :: "closing list \<Rightarrow> string list" where
  "consumers_closed [] = []"
| "consumers_closed (CloseConsumer q # cs) = q # consumers_closed cs"
| "consumers_closed (c # cs) = consumers_closed cs"

lemma sorted_wrt_map_const:
  assumes "\<And>x y. x \<in> set xs \<Longrightarrow> y \<in> set xs \<Longrightarrow> P x y"
  shows "sorted_wrt P xs"
  using assms by (induction xs) auto

text \<open>\<^verbatim>\<open>Shutdown\<close> never fails, closes every component before the ones it needs, and closes every consumer.\<close>

theorem Shutdown_order:
  "fst (Shutdown a) = None \<and> sorted_wrt (\<lambda>x y. \<not> needs y x) (snd (Shutdown a)) \<and>
   consumers_closed (snd (Shutdown a)) =
     map ccQueue (gConsumers a @ [gTxRetryConsumer a, gPromoRetryConsumer a, gAtConsumer a])"
proof -
  let ?closing = "map (\<lambda>c. CloseConsumer (ccQueue c))"
  have "sorted_wrt (\<lambda>x y. \<not> needs y x) (?closing (gConsumers a))"
    by (rule sorted_wrt_map_const) auto
  then have "sorted_wrt (\<lambda>x y. \<not> needs y x) (snd (Shutdown a))"
    by (auto simp: Shutdown_def sorted_wrt_append)
  moreover have app: "consumers_closed (?closing cs @ xs) = map ccQueue cs @ consumers_closed xs" for cs xs
    by (induction cs) auto
  have "consumers_closed (snd (Shutdown a)) =
      map ccQueue (gConsumers a @ [gTxRetryConsumer a, gPromoRetryConsumer a, gAtConsumer a])"
    by (simp add: Shutdown_def app)
  ultimately show ?thesis by (simp add: Shutdown_def)
qed

text \<open>The process ends with status 1 exactly when \<^verbatim>\<open>New\<close> or \<^verbatim>\<open>Start\<close> failed, and then nothing is closed; otherwise it
  waits for a signal and cancels the context before the first component is closed.\<close>

theorem gateway_main_exits:
  assumes "gateway_main e dial dialErr envv ce w = (steps, status)"
  shows "(status = 1 \<longleftrightarrow> (\<exists>err. MainFatal err \<in> set steps)) \<and> status \<in> {0, 1} \<and>
    (status = 1 \<longrightarrow> (\<forall>c. MainClosing c \<notin> set steps)) \<and>
    (status = 0 \<longrightarrow> (\<exists>jobs a. steps = [MainStarted jobs, MainSignal, MainCancel] @ map MainClosing (snd (Shutdown a))))"
proof -
  have nil: "Shutdown a = (err, cs) \<longleftrightarrow> err = None \<and> cs = snd (Shutdown a)" for a err cs
    by (auto simp: Shutdown_def)
  show ?thesis
    using assms
    by (auto simp: gateway_main_def nil split: sum.splits prod.splits option.splits)
qed

end
