(* ===== verification/Health_Api.thy ===== *)
theory Health_Api
  imports Amqp_Connection Token_Cache Publisher
begin

text \<open>
  \<^verbatim>\<open>internal/api\<close>: the HTTP server for probes. Modelled are the two handlers of
  \<^verbatim>\<open>handlers/health.go\<close> over the state of the connection and Redis, and the address on which
  \<^verbatim>\<open>NewServer\<close> listens with its own decimal conversion. Routing and middleware are the router
  library; \<^verbatim>\<open>/metrics\<close> is the Prometheus client.
\<close>

section \<open>Handlers\<close>

text \<open>The components are listed in the order in which \<^verbatim>\<open>encoding/json\<close> writes a map, by key.\<close>

record health_response =
  hpStatus :: string
  hpComponents :: "(string \<times> string) list"

record health_handler =
  hhRabbitConn :: "amqp_conn option"
  hhRedisCache :: bool

definition NewHealthHandler :: "amqp_conn option \<Rightarrow> bool \<Rightarrow> health_handler" where
  "NewHealthHandler rabbitConn redisCache = \<lparr>hhRabbitConn = rabbitConn, hhRedisCache = redisCache\<rparr>"

text \<open>Both return the status code and the response.\<close>

definition Health :: "health_handler \<Rightarrow> int \<times> health_response" where
  "Health h = (200, \<lparr>hpStatus = ''ok'', hpComponents = []\<rparr>)"

definition tc_Ping :: "env \<Rightarrow> world \<Rightarrow> goerr option \<times> world" where
  "tc_Ping e w = (case redis_Do e RPing w of (RErr err, w) \<Rightarrow> (Some err, w) | (_, w) \<Rightarrow> (None, w))"

definition Ready :: "env \<Rightarrow> health_handler \<Rightarrow> world \<Rightarrow> (int \<times> health_response) \<times> world" where
  "Ready e h w =
     (let rabbit = (case hhRabbitConn h of None \<Rightarrow> False | Some c \<Rightarrow> IsConnected c);
          allHealthy = rabbit;
          rabbitmq = (''rabbitmq'', if rabbit then ''ok'' else ''unhealthy'');
          ((redis, allHealthy), w) =
            (if hhRedisCache h then
               (case tc_Ping e w of
                  (None, w) \<Rightarrow> (((''redis'', ''ok''), allHealthy), w)
                | (Some err, w) \<Rightarrow> (((''redis'', ''unhealthy''), False), w))
             else (((''redis'', ''not configured''), allHealthy), w))
      in if allHealthy then ((200, \<lparr>hpStatus = ''ok'', hpComponents = [rabbitmq, redis]\<rparr>), w)
         else ((503, \<lparr>hpStatus = ''unhealthy'', hpComponents = [rabbitmq, redis]\<rparr>), w))"

section \<open>The address of the server\<close>

function itoa_loop :: "int \<Rightarrow> string \<Rightarrow> string" where
  "itoa_loop i s = (if i > 0 then itoa_loop (i div 10) (digit_char (nat (i mod 10)) # s) else s)"
  by auto
termination by (relation "measure (\<lambda>(i, s). nat i)") auto

declare itoa_loop.simps [simp del]

definition itoa :: "int \<Rightarrow> string" where
  "itoa i = (if i = 0 then ''0'' else itoa_loop i [])"

text \<open>Go's conversion of a rune to a string: UTF-8, with U+FFFD for what is not a code point.\<close>

definition rune_string :: "int \<Rightarrow> string" where
  "rune_string r =
     (let r = (if r < 0 \<or> r > 1114111 \<or> (55296 \<le> r \<and> r \<le> 57343) then 65533 else r);
          tail = (\<lambda>k. 128 + (r div 64 ^ k) mod 64);
          bytes = (if r < 128 then [r]
                   else if r < 2048 then [192 + r div 64, tail 0]
                   else if r < 65536 then [224 + r div 4096, tail 1, tail 0]
                   else [240 + r div 262144, tail 2, tail 1, tail 0])
      in map (\<lambda>b. char_of (nat b)) bytes)"

definition server_Addr :: "int \<Rightarrow> string" where
  "server_Addr port = (if port > 0 then '':'' @ itoa port else '':'' @ rune_string (wrap32 port))"

section \<open>Properties\<close>

lemma show_nat_step: "10 \<le> n \<Longrightarrow> show_nat n = show_nat (n div 10) @ [digit_char (n mod 10)]"
  by (simp add: show_nat.simps [of n])

lemma itoa_loop_eq: "0 < i \<Longrightarrow> itoa_loop i s = show_nat (nat i) @ s"
proof (induction i s rule: itoa_loop.induct)
  case (1 i s)
  have d: "nat (i mod 10) = nat i mod 10" "nat (i div 10) = nat i div 10"
    using 1(2) by (simp_all add: nat_mod_distrib nat_div_distrib)
  show ?case
  proof (cases "i < 10")
    case True
    then have "nat i < 10" "i div 10 = 0" "i mod 10 = i" using 1(2) by auto
    then show ?thesis using 1(2) by (simp add: itoa_loop.simps [of i] itoa_loop.simps [of 0] show_nat.simps [of "nat i"])
  next
    case False
    then have "0 < i div 10" by auto
    with 1 have "itoa_loop (i div 10) (digit_char (nat (i mod 10)) # s) =
        show_nat (nat (i div 10)) @ digit_char (nat (i mod 10)) # s" by blast
    then show ?thesis using False 1(2) show_nat_step [of "nat i"] by (simp add: itoa_loop.simps [of i] d)
  qed
qed

text \<open>The server's own decimal conversion agrees with \<^verbatim>\<open>strconv.Itoa\<close> on every port, and the address
  reads back to the port.\<close>

theorem server_Addr_port:
  assumes "0 < port" and "port < 2 ^ 63"
  shows "server_Addr port = '':'' @ Itoa port \<and> ParseInt (tl (server_Addr port)) = Some port"
proof -
  have "server_Addr port = '':'' @ Itoa port"
    using assms by (simp add: server_Addr_def itoa_def itoa_loop_eq Itoa_def)
  then show ?thesis using assms ParseInt_Itoa [of port] by simp
qed

theorem server_Addr_port_witness: "server_Addr 8080 = '':8080'' \<and> ParseInt (tl (server_Addr 8080)) = Some 8080"
proof -
  have "Itoa 8080 = ''8080''"
    by (simp add: Itoa_def show_nat_step show_nat.simps [of 8] digit_char_def char_of_def bit_0)
  then show ?thesis using server_Addr_port [of 8080] by auto
qed

text \<open>Readiness: in every reachable state of the connection the probe answers 200 exactly when a
  connection to the broker is open and Redis, where it is configured, answers the ping; otherwise 503. It
  sends at most that ping.\<close>

theorem Ready_iff:
  assumes "conn_reachable c"
  shows "let ((code, r), w') = Ready e (NewHealthHandler (Some c) redis) w;
             up = (acSockets c \<noteq> [] \<and> (redis \<longrightarrow> fst (tc_Ping e w) = None)) in
     code = (if up then 200 else 503) \<and> hpStatus r = (if up then ''ok'' else ''unhealthy'') \<and>
     map_of (hpComponents r) ''rabbitmq'' = Some (if acSockets c \<noteq> [] then ''ok'' else ''unhealthy'') \<and>
     w' = (if redis then snd (tc_Ping e w) else w)"
proof -
  have "IsConnected c = (acSockets c \<noteq> [])"
    using conn_inv_reachable [OF assms] by (auto simp: conn_inv_def IsConnected_def)
  then show ?thesis
    by (cases "tc_Ping e w") (auto simp: Ready_def NewHealthHandler_def Let_def split: option.splits)
qed

end
