(* ===== verification/Prometheus_Metrics.thy ===== *)
theory Prometheus_Metrics
  imports Health_Api Circuit_Breaker Result_Handler
begin

text \<open>
  \<^verbatim>\<open>internal/common/metrics/prometheus.go\<close> and the interface \<^verbatim>\<open>ports.Metrics\<close>: the collectors that
  \<^verbatim>\<open>New\<close> registers and the operation each method performs on them. The Prometheus client is a library;
  what it documents to panic on is stated as conditions on the calls: two collectors of one name, and a
  number of label values that differs from the number of labels. Values are read off the sequence of
  operations. Seconds are exact numbers here (a float in the code).

  The services emit the calls as events (\<open>World\<close>); the closure that \<^verbatim>\<open>bootstrap.New\<close> hands to every
  circuit breaker is modelled here.
\<close>

section \<open>Collectors\<close>

datatype collector_kind = CounterKind | GaugeKind | HistogramKind

record collector =
  coField :: string
  coKind :: collector_kind
  coName :: string
  coLabels :: "string list"

definition counter :: "string \<Rightarrow> string \<Rightarrow> string list \<Rightarrow> collector" where
  "counter f n ls = \<lparr>coField = f, coKind = CounterKind, coName = n, coLabels = ls\<rparr>"

definition gauge :: "string \<Rightarrow> string \<Rightarrow> string list \<Rightarrow> collector" where
  "gauge f n ls = \<lparr>coField = f, coKind = GaugeKind, coName = n, coLabels = ls\<rparr>"

definition histogram :: "string \<Rightarrow> string \<Rightarrow> string list \<Rightarrow> collector" where
  "histogram f n ls = \<lparr>coField = f, coKind = HistogramKind, coName = n, coLabels = ls\<rparr>"

definition message_collectors :: "collector list" where
  "message_collectors =
     [counter ''messagesProcessed'' ''messages_processed_total'' [''network'', ''status''],
      histogram ''sendLatency'' ''send_latency_seconds'' [''network'']]"

definition queue_collectors :: "collector list" where
  "queue_collectors =
     [gauge ''queueDepth'' ''queue_depth'' [''queue''],
      counter ''queuePublished'' ''queue_published_total'' [''queue''],
      counter ''queueConsumed'' ''queue_consumed_total'' [''queue'']]"

definition breaker_collectors :: "collector list" where
  "breaker_collectors =
     [counter ''circuitBreakerTrips'' ''circuit_breaker_trips_total'' [''network''],
      gauge ''circuitBreakerState'' ''circuit_breaker_state'' [''network'']]"

definition retry_collectors :: "collector list" where
  "retry_collectors =
     [counter ''retries'' ''retries_total'' [''network''],
      counter ''deadLetters'' ''dead_letters_total'' [''network''],
      counter ''rateLimitHits'' ''rate_limit_hits_total'' [''network'']]"

definition http_collectors :: "collector list" where
  "http_collectors =
     [histogram ''httpRequestDuration'' ''http_request_duration_seconds'' [''method'', ''path'', ''status_code''],
      gauge ''healthStatus'' ''health_status'' [''component'']]"

definition priority_collectors :: "collector list" where
  "priority_collectors =
     [counter ''priorityRouted'' ''priority_messages_routed_total'' [''type'', ''queue''],
      counter ''transactionalProcessed'' ''priority_transactional_processed_total'' [''status''],
      gauge ''transactionalQueueDepth'' ''priority_transactional_queue_depth'' [],
      counter ''schedulerProcessed'' ''priority_scheduler_processed_total'' [''queue''],
      gauge ''schedulerWeight'' ''priority_scheduler_weight'' [''queue''],
      counter ''starvationTriggers'' ''priority_starvation_triggers_total'' [''queue'']]"

definition migrator_collectors :: "collector list" where
  "migrator_collectors =
     [counter ''dlqMigratorForwarded'' ''dlq_migrator_forwarded_total'' [''dest''],
      counter ''dlqMigratorPublishErrors'' ''dlq_migrator_publish_errors_total'' [],
      counter ''dlqMigratorChannelRestarts'' ''dlq_migrator_channel_restarts_total'' [],
      counter ''saveToDBDLQForwarded'' ''save_to_db_dlq_migrator_forwarded_total'' [],
      counter ''saveToDBDLQPublishErrors'' ''save_to_db_dlq_migrator_publish_errors_total'' [],
      counter ''saveToDBDLQChannelRestart'' ''save_to_db_dlq_migrator_channel_restarts_total'' []]"

text \<open>\<^verbatim>\<open>New\<close>: the name of a collector is its namespace, an underscore and its own name.\<close>

definition all_collectors :: "collector list" where
  "all_collectors =
     message_collectors @ queue_collectors @ breaker_collectors @ retry_collectors @ http_collectors @
     priority_collectors @ migrator_collectors"

definition metrics_New :: "string \<Rightarrow> collector list" where
  "metrics_New namespace =
     (let namespace = (if namespace = [] then ''emalify_sms'' else namespace) in
      map (\<lambda>c. c\<lparr>coName := namespace @ ''_'' @ coName c\<rparr>)
        all_collectors)"

section \<open>Calls\<close>

text \<open>The interface \<^verbatim>\<open>ports.Metrics\<close>: what the services call, as the events have it, and the methods that
  the events do not use.\<close>

datatype metrics_call =
  ServiceCall metric
| SetQueueDepth string int
| IncQueuePublished string
| IncQueueConsumed string
| IncCircuitBreakerTrips network
| SetCircuitBreakerState network string
| ObserveHTTPRequestDuration string string int int
| SetHealthy string bool

definition Seconds :: "int \<Rightarrow> rat" where
  "Seconds d = of_int d / 10 ^ 9"

datatype prom_update = PInc | PSet int | PObserve rat

record prom_op =
  poField :: string
  poLabels :: "string list"
  poUpdate :: prom_update

definition with_labels :: "string \<Rightarrow> string list \<Rightarrow> prom_update \<Rightarrow> prom_op" where
  "with_labels f ls u = \<lparr>poField = f, poLabels = ls, poUpdate = u\<rparr>"

definition breaker_state_value :: "string \<Rightarrow> int" where
  "breaker_state_value state =
     (if state = ''closed'' then 0 else if state = ''half-open'' then 1 else if state = ''open'' then 2 else 0)"

fun service_op :: "metric \<Rightarrow> prom_op" where
  "service_op (IncMessagesProcessed n status) = with_labels ''messagesProcessed'' [network_String n, status] PInc"
| "service_op (ObserveSendLatency n d) = with_labels ''sendLatency'' [network_String n] (PObserve (Seconds d))"
| "service_op (IncRetries n) = with_labels ''retries'' [network_String n] PInc"
| "service_op (IncDeadLetters n) = with_labels ''deadLetters'' [network_String n] PInc"
| "service_op (IncRateLimitHits n) = with_labels ''rateLimitHits'' [network_String n] PInc"
| "service_op (IncPriorityRouted t q) = with_labels ''priorityRouted'' [t, q] PInc"
| "service_op (IncTransactionalProcessed status) = with_labels ''transactionalProcessed'' [status] PInc"
| "service_op (SetTransactionalQueueDepth d) = with_labels ''transactionalQueueDepth'' [] (PSet d)"
| "service_op (IncSchedulerProcessed q) = with_labels ''schedulerProcessed'' [q] PInc"
| "service_op (SetSchedulerWeight q v) = with_labels ''schedulerWeight'' [q] (PSet v)"
| "service_op (IncStarvationTriggers q) = with_labels ''starvationTriggers'' [q] PInc"
| "service_op (IncDLQMigratorForwarded dest) = with_labels ''dlqMigratorForwarded'' [dest] PInc"
| "service_op IncDLQMigratorPublishError = with_labels ''dlqMigratorPublishErrors'' [] PInc"
| "service_op IncDLQMigratorChannelRestart = with_labels ''dlqMigratorChannelRestarts'' [] PInc"
| "service_op IncSaveToDBDLQMigratorForwarded = with_labels ''saveToDBDLQForwarded'' [] PInc"
| "service_op IncSaveToDBDLQMigratorPublishError = with_labels ''saveToDBDLQPublishErrors'' [] PInc"
| "service_op IncSaveToDBDLQMigratorChannelRestart = with_labels ''saveToDBDLQChannelRestart'' [] PInc"

fun metrics_op :: "metrics_call \<Rightarrow> prom_op" where
  "metrics_op (ServiceCall m) = service_op m"
| "metrics_op (SetQueueDepth q d) = with_labels ''queueDepth'' [q] (PSet d)"
| "metrics_op (IncQueuePublished q) = with_labels ''queuePublished'' [q] PInc"
| "metrics_op (IncQueueConsumed q) = with_labels ''queueConsumed'' [q] PInc"
| "metrics_op (IncCircuitBreakerTrips n) = with_labels ''circuitBreakerTrips'' [network_String n] PInc"
| "metrics_op (SetCircuitBreakerState n state) =
     with_labels ''circuitBreakerState'' [network_String n] (PSet (breaker_state_value state))"
| "metrics_op (ObserveHTTPRequestDuration method path statusCode d) =
     with_labels ''httpRequestDuration'' [method, path, rune_string (wrap32 statusCode)] (PObserve (Seconds d))"
| "metrics_op (SetHealthy component healthy) =
     with_labels ''healthStatus'' [component] (PSet (if healthy then 1 else 0))"

text \<open>\<^verbatim>\<open>NoopMetrics\<close> does nothing in every method.\<close>

definition noop_ops :: "metrics_call \<Rightarrow> prom_op list" where
  "noop_ops c = []"

section \<open>Values\<close>

definition on_series :: "string \<Rightarrow> string list \<Rightarrow> prom_op \<Rightarrow> bool" where
  "on_series f ls op \<longleftrightarrow> poField op = f \<and> poLabels op = ls"

definition counter_value :: "string \<Rightarrow> string list \<Rightarrow> prom_op list \<Rightarrow> nat" where
  "counter_value f ls ops = length (filter (\<lambda>op. on_series f ls op \<and> poUpdate op = PInc) ops)"

definition gauge_value :: "string \<Rightarrow> string list \<Rightarrow> prom_op list \<Rightarrow> int" where
  "gauge_value f ls ops =
     foldl (\<lambda>v op. case poUpdate op of PSet x \<Rightarrow> if on_series f ls op then x else v | _ \<Rightarrow> v) 0 ops"

text \<open>The operations that the events of a run stand for.\<close>

fun event_op :: "event \<Rightarrow> prom_op option" where
  "event_op (EvMetric m) = Some (service_op m)"
| "event_op _ = None"

definition metric_ops :: "event list \<Rightarrow> prom_op list" where
  "metric_ops es = List.map_filter event_op es"

section \<open>Circuit breakers\<close>

text \<open>\<^verbatim>\<open>gobreaker\<close> numbers its states: 0 closed, 1 half-open, 2 open.\<close>

definition StateString :: "int \<Rightarrow> string" where
  "StateString state =
     (if state = 0 then ''closed'' else if state = 1 then ''half-open'' else if state = 2 then ''open''
      else ''unknown'')"

definition onStateChange :: "string \<Rightarrow> int \<Rightarrow> metrics_call list" where
  "onStateChange name to =
     SetCircuitBreakerState (ParseNetwork name) (StateString to) #
     (if to = 2 then [IncCircuitBreakerTrips (ParseNetwork name)] else [])"

text \<open>\<^verbatim>\<open>BreakerRegistry.Execute\<close>.\<close>

definition registry_Execute ::
  "env \<Rightarrow> breaker_registry \<Rightarrow> network \<Rightarrow> (world \<Rightarrow> ('a \<times> goerr option) \<times> world) \<Rightarrow> world \<Rightarrow>
   ('a option \<times> goerr option) \<times> world" where
  "registry_Execute e r n fn w =
     (case cb_Get r n of
        Inl err \<Rightarrow> ((None, Some err), w)
      | Inr cb \<Rightarrow> cb_Execute e cb fn w)"

section \<open>Facts\<close>

lemmas collectors_defs = all_collectors_def message_collectors_def queue_collectors_def breaker_collectors_def
  retry_collectors_def http_collectors_def priority_collectors_def migrator_collectors_def
  counter_def gauge_def histogram_def

definition kind_fits :: "collector_kind \<Rightarrow> prom_update \<Rightarrow> bool" where
  "kind_fits k u \<longleftrightarrow> (case u of PInc \<Rightarrow> k = CounterKind | PSet _ \<Rightarrow> k = GaugeKind | PObserve _ \<Rightarrow> k = HistogramKind)"

definition op_fits :: "collector list \<Rightarrow> prom_op \<Rightarrow> bool" where
  "op_fits cs op \<longleftrightarrow>
     list_ex (\<lambda>c. coField c = poField op \<and> length (coLabels c) = length (poLabels op) \<and> kind_fits (coKind c) (poUpdate op)) cs"

lemma op_fits_New: "op_fits (metrics_New ns) op = op_fits all_collectors op"
  by (simp add: op_fits_def metrics_New_def Let_def list_ex_iff)

lemma service_op_fits: "op_fits all_collectors (service_op m)"
  by (cases m) (simp_all add: op_fits_def collectors_defs with_labels_def kind_fits_def)

lemma metrics_op_fits: "op_fits all_collectors (metrics_op c)"
proof (cases c)
  case (ServiceCall m)
  then show ?thesis by (simp add: service_op_fits)
qed (simp_all add: op_fits_def collectors_defs with_labels_def kind_fits_def)

text \<open>The contract of an implementation of \<^verbatim>\<open>ports.Metrics\<close>: its collectors can all be registered, and every call
  fits the collector it addresses.\<close>

locale metrics_port =
  fixes ops :: "metrics_call \<Rightarrow> prom_op list" and registered :: "collector list"
  assumes names: "distinct (map coName registered)" and fields: "distinct (map coField registered)"
    and fits: "op \<in> set (ops c) \<Longrightarrow> op_fits registered op"
begin

lemma calls_fit: "list_all (op_fits registered) (concat (map ops calls))"
  using fits by (auto simp: list_all_iff)

text \<open>A call addresses one collector, so its values cannot end up in another.\<close>

lemma one_collector:
  assumes "op \<in> set (ops c)"
  shows "\<exists>!co. co \<in> set registered \<and> coField co = poField op"
proof -
  obtain co where "co \<in> set registered" "coField co = poField op"
    using fits [OF assms] by (auto simp: op_fits_def list_ex_iff)
  then show ?thesis using fields by (auto simp: distinct_map inj_on_def)
qed

end

lemma metrics_New_names:
  "distinct (map coName (metrics_New ns))" "distinct (map coField (metrics_New ns))"
proof -
  let ?full = "\<lambda>n. (if ns = [] then ''emalify_sms'' else ns) @ ''_'' @ n"
  have d: "distinct (map coName all_collectors)" "distinct (map coField all_collectors)"
    by (simp_all add: collectors_defs)
  have "map coName (metrics_New ns) = map ?full (map coName all_collectors)"
    by (simp add: metrics_New_def Let_def)
  then show "distinct (map coName (metrics_New ns))"
    using d(1) by (simp only: distinct_map) (simp add: inj_on_def)
  have "map coField (metrics_New ns) = map coField all_collectors" by (simp add: metrics_New_def Let_def)
  then show "distinct (map coField (metrics_New ns))" using d(2) by simp
qed

interpretation prom: metrics_port "\<lambda>c. [metrics_op c]" "metrics_New ns" for ns
  by unfold_locales (simp_all add: metrics_New_names op_fits_New metrics_op_fits)

interpretation noop: metrics_port noop_ops "[]"
  by unfold_locales (simp_all add: noop_ops_def)

text \<open>C33. Metrics never panic: whatever the namespace, the collectors have different names, so all of them can
  be registered; and in every sequence of calls each call addresses exactly one collector, which is of the
  right kind and has as many labels as the call has label values.\<close>

theorem metrics_never_panic:
  "distinct (map coName (metrics_New ns)) \<and> list_all (op_fits (metrics_New ns)) (map metrics_op calls) \<and>
   (\<exists>!co. co \<in> set (metrics_New ns) \<and> coField co = poField (metrics_op c))"
  using prom.names [of ns] prom.calls_fit [of ns calls] prom.one_collector [of "metrics_op c" c ns] by simp

section \<open>Breakers are shown as they are\<close>

lemma network_String_inj [simp]: "(network_String m = network_String n) = (m = n)"
  using ParseNetwork_String by metis

lemma values_append [simp]:
  "counter_value f ls (xs @ ys) = counter_value f ls xs + counter_value f ls ys"
  "counter_value f ls [] = 0"
  by (simp_all add: counter_value_def)

definition breaker_ops :: "(network \<times> int) list \<Rightarrow> prom_op list" where
  "breaker_ops changes = map metrics_op (concat (map (\<lambda>(n, to). onStateChange (network_String n) to) changes))"

lemma breaker_ops_snoc:
  "breaker_ops (cs @ [(n, to)]) = breaker_ops cs @ map metrics_op (onStateChange (network_String n) to)"
  by (simp add: breaker_ops_def)



section \<open>Retries and dead letters\<close>

lemma metric_ops_append [simp]: "metric_ops (xs @ ys) = metric_ops xs @ metric_ops ys"
  by (simp add: metric_ops_def List.map_filter_def)

lemma metric_ops_Nil [simp]: "metric_ops [] = []"
  by (simp add: metric_ops_def List.map_filter_def)

lemma crash_events: "new_events w (crash w) = []"
  by (simp add: new_events_def)

lemma metric_ops_publisher: "list_all publisher_event es \<Longrightarrow> metric_ops es = []"
  by (induction es) (auto simp: metric_ops_def List.map_filter_def elim!: publisher_event.elims(2))

lemma run_plan_uncounted: "metric_ops (new_events w (snd (run_plan e ctx plan w))) = []"
  using run_plan_contract [of w e ctx plan] by (simp add: metric_ops_publisher frame_def)

lemma metric_ops_metric:
  "world_le w w' \<Longrightarrow> metric_ops (new_events w (metric e b m w')) =
     metric_ops (new_events w w') @ (if b then [service_op m] else [])"
  by (simp add: metric_def new_events_emit_trans) (simp add: metric_ops_def List.map_filter_def)

lemma metric_ops_publish_after:
  "world_le w w' \<Longrightarrow>
   metric_ops (new_events w (snd (PublishResult e p ctx r w'))) = metric_ops (new_events w w')"
  using run_plan_contract [of w' e ctx "result_plan p r"] run_plan_uncounted [of w' e ctx "result_plan p r"]
    new_events_trans [of w w' "snd (run_plan e ctx (result_plan p r) w')"]
  by (simp add: PublishResult_plan frame_def)

text \<open>The counters of retries and dead letters miss every message: handling a batch of results, which is
  what all processing paths do, performs no metrics call at all, whatever is retried or given up; only the
  handler for single results, which nothing calls, counts a dead letter for each message it gives up and a
  retry for each one it sends round again.\<close>

theorem batch_results_not_counted:
  assumes "rhMetrics h" and "rError r \<noteq> None" and "maxRetries h (rMessage r) = Some l" and "rType r \<noteq> ResultSuccess"
  defines "n \<equiv> network_String (msg_Network (rMessage r))"
    and "given_up \<equiv> rType r = ResultPermanent \<or> l \<le> RetryCount (rMessage r)"
  shows "metric_ops (new_events w (snd (HandleBatchResults e h ctx b w))) = [] \<and>
    counter_value ''deadLetters'' [n] (metric_ops (new_events w (snd (HandleResult e h ctx r w)))) = (if given_up then 1 else 0) \<and>
    counter_value ''retries'' [n] (metric_ops (new_events w (snd (HandleResult e h ctx r w)))) = (if given_up then 0 else 1)"
proof -
  have "metric_ops (new_events w (snd (HandleBatchResults e h ctx b w))) = []"
    by (simp add: HandleBatchResults_def PublishBatchResults_plan run_plan_uncounted case_prod_beta crash_events
        split: option.split)
  moreover have "counter_value ''deadLetters'' [n] (metric_ops (new_events w (snd (HandleResult e h ctx r w)))) = (if given_up then 1 else 0) \<and>
    counter_value ''retries'' [n] (metric_ops (new_events w (snd (HandleResult e h ctx r w)))) = (if given_up then 0 else 1)"
    using assms
    by (cases "rType r")
      (auto simp: HandleResult_def Let_def case_prod_beta metric_ops_publish_after metric_ops_metric
        counter_value_def with_labels_def on_series_def)
  ultimately show ?thesis by blast
qed

theorem batch_results_not_counted_witness:
  "let h = \<lparr>rhPublisher = sample_publisher, rhMetrics = True, maxRetriesTransactional = 3, maxRetriesPromotional = 3,
             rhDynConfig = None\<rparr>;
       r = NewPermanentResult 0 sample_message ErrMNOUnavailable 0;
       n = network_String (msg_Network sample_message) in
     counter_value ''deadLetters'' [n] (metric_ops (new_events init_world (snd (HandleBatchResults base_env h AppCtx
       (AddResults NewBatchResult [r]) init_world)))) = 0 \<and>
     counter_value ''deadLetters'' [n] (metric_ops (new_events init_world (snd (HandleResult base_env h AppCtx r init_world)))) = 1"
proof -
  let ?h = "\<lparr>rhPublisher = sample_publisher, rhMetrics = True, maxRetriesTransactional = 3, maxRetriesPromotional = 3,
             rhDynConfig = None\<rparr>"
  let ?r = "NewPermanentResult 0 sample_message ErrMNOUnavailable 0"
  have n: "msg_Network (rMessage ?r) = msg_Network sample_message" by code_simp
  have "rhMetrics ?h" "rError ?r \<noteq> None" "maxRetries ?h (rMessage ?r) = Some 3" "rType ?r \<noteq> ResultSuccess" "rType ?r = ResultPermanent"
    by code_simp+
  from batch_results_not_counted [OF this(1-4), of init_world base_env AppCtx "AddResults NewBatchResult [?r]"] this(5) n
  show ?thesis by (simp add: Let_def)
qed

end
