(* ===== verification/Service_Stats.thy ===== *)
theory Service_Stats
  imports Message_Router
begin

text \<open>
  The statistics that the services report: \<^verbatim>\<open>GetStats\<close>, \<^verbatim>\<open>GetWeights\<close>, \<^verbatim>\<open>TotalProcessed\<close> and
  \<^verbatim>\<open>GetCreditStats\<close> of \<^verbatim>\<open>internal/sms/service/priority_scheduler.go\<close>, \<^verbatim>\<open>Stats\<close> and \<^verbatim>\<open>QueueDepth\<close> of
  \<^verbatim>\<open>transactional_handler.go\<close>, \<^verbatim>\<open>GetStats\<close> and \<^verbatim>\<open>Stats\<close> of \<^verbatim>\<open>message_router.go\<close>; the token counts of
  \<^verbatim>\<open>internal/common/ratelimit/limiter.go\<close> and its non-blocking variants, where the token bucket is a
  parameter. Counters are 64-bit words.
\<close>

section \<open>Scheduler\<close>

definition sched_GetStats :: "scheduler \<Rightarrow> string \<rightharpoonup> 64 word" where
  "sched_GetStats s = processedByQueue s"

definition sched_GetWeights :: "scheduler \<Rightarrow> string \<rightharpoonup> int" where
  "sched_GetWeights s = weights s"

definition sched_TotalProcessed :: "scheduler \<Rightarrow> 64 word" where
  "sched_TotalProcessed s = totalProcessed s"

record credit_stats =
  csGranted :: "64 word"
  csStarvation :: "64 word"
  csMultiplier :: int
  csRefillPeriodMs :: int
  csAvailable :: "string \<rightharpoonup> nat"

definition GetCreditStats :: "scheduler \<Rightarrow> credit_stats" where
  "GetCreditStats s =
     \<lparr>csGranted = creditsGranted s, csStarvation = starvationEvents s, csMultiplier = creditMultiplier s,
      csRefillPeriodMs = refillPeriod s div 10 ^ 6,
      csAvailable = (\<lambda>name. map_option (\<lambda>qs. clen (chans s (qsCredits qs))) (queues s name))\<rparr>"

section \<open>Transactional handler and router\<close>

definition tx_Stats :: "tx_stats \<Rightarrow> 64 word \<times> 64 word" where
  "tx_Stats st = (txProcessed st, txFailed st)"

definition tx_QueueDepth :: "tx_system \<Rightarrow> nat" where
  "tx_QueueDepth x = length (txChan x)"

definition router_GetStats :: "route_state \<Rightarrow> 64 word \<times> 64 word" where
  "router_GetStats x = (rsTransactional x, rsPromotional x)"

text \<open>The loop over the queues of the scheduler.\<close>

definition addQueueStats :: "scheduler \<Rightarrow> (string \<rightharpoonup> 64 word) \<Rightarrow> (string \<rightharpoonup> 64 word)" where
  "addQueueStats s stats =
     foldl (\<lambda>m q. case sched_GetStats s q of None \<Rightarrow> m | Some c \<Rightarrow> m(''scheduler_'' @ q \<mapsto> c)) stats (queueNames s)"

definition router_Stats :: "msg_router \<Rightarrow> nat \<Rightarrow> route_state \<Rightarrow> string \<rightharpoonup> 64 word" where
  "router_Stats r depth x =
     (let stats = [''transactional_routed'' \<mapsto> rsTransactional x, ''promotional_routed'' \<mapsto> rsPromotional x];
          stats = (case mrTransactionalHandler r of
             None \<Rightarrow> stats
           | Some h \<Rightarrow>
               (let (processed, failed) = tx_Stats (rsTxStats x)
                in stats(''transactional_processed'' \<mapsto> processed, ''transactional_failed'' \<mapsto> failed,
                         ''transactional_queue_depth'' \<mapsto> of_nat depth)))
      in case mrScheduler r of
           None \<Rightarrow> stats
         | Some _ \<Rightarrow> (addQueueStats (rsSched x) stats)(''scheduler_total'' \<mapsto> sched_TotalProcessed (rsSched x)))"

text \<open>The rates of a batch result, as exact numbers (floats in the code).\<close>

definition SuccessRate :: "batch_result \<Rightarrow> rat" where
  "SuccessRate b =
     (if TotalCount b = 0 then 0 else of_nat (length (Successful b)) / of_int (TotalCount b) * 100)"

definition SuccessCount :: "batch_result \<Rightarrow> nat" where
  "SuccessCount b = length (Successful b)"

definition RetryableCount :: "batch_result \<Rightarrow> nat" where
  "RetryableCount b = length (Retryable b)"

definition FailedCount :: "batch_result \<Rightarrow> nat" where
  "FailedCount b = length (Failed b)"

section \<open>Rate limiter\<close>

text \<open>\<open>allow\<close>, \<open>reserve\<close> and \<open>tokens\<close> are the methods of \<^verbatim>\<open>rate.Limiter\<close>; calling one on a missing bucket is a nil
  dereference (\<open>None\<close>).\<close>

definition rl_Allow :: "(rate_limiter \<Rightarrow> bool) \<Rightarrow> limiter \<Rightarrow> network \<Rightarrow> bool option" where
  "rl_Allow allow l network = map_option allow (getMainLimiter l network)"

definition rl_AllowRetry :: "(rate_limiter \<Rightarrow> bool) \<Rightarrow> limiter \<Rightarrow> network \<Rightarrow> bool option" where
  "rl_AllowRetry allow l network = map_option allow (getRetryLimiter l network)"

definition rl_Reserve :: "(rate_limiter \<Rightarrow> 'r) \<Rightarrow> limiter \<Rightarrow> network \<Rightarrow> 'r option" where
  "rl_Reserve reserve l network = map_option reserve (getMainLimiter l network)"

definition rl_Tokens :: "(rate_limiter \<Rightarrow> rat) \<Rightarrow> limiter \<Rightarrow> network \<Rightarrow> rat option" where
  "rl_Tokens tokens l network = map_option tokens (getMainLimiter l network)"

definition rl_RetryTokens :: "(rate_limiter \<Rightarrow> rat) \<Rightarrow> limiter \<Rightarrow> network \<Rightarrow> rat" where
  "rl_RetryTokens tokens l network =
     (case retry l network of
        Some limiter \<Rightarrow> tokens limiter
      | None \<Rightarrow> (case retry l NetworkUnknown of Some limiter \<Rightarrow> tokens limiter | None \<Rightarrow> 0))"

section \<open>Counters agree\<close>

definition stats_ok :: "scheduler \<Rightarrow> bool" where
  "stats_ok s \<longleftrightarrow> dom (processedByQueue s) = dom (queues s) \<and> finite (dom (queues s)) \<and>
     totalProcessed s = (\<Sum>q \<in> dom (queues s). the (processedByQueue s q))"

lemma stats_ok_same:
  "\<lbrakk> stats_ok s; processedByQueue s' = processedByQueue s; totalProcessed s' = totalProcessed s;
     dom (queues s') = dom (queues s) \<rbrakk> \<Longrightarrow> stats_ok s'"
  by (simp add: stats_ok_def)

lemma stats_ok_getOrCreate:
  assumes "stats_ok s" and "getOrCreateQueueState e q s w = (s', w')"
  shows "stats_ok s'"
proof (cases "queues s q")
  case None
  have *: "dom (processedByQueue s) = dom (queues s)" "finite (dom (queues s))" "q \<notin> dom (queues s)"
    "totalProcessed s = (\<Sum>x \<in> dom (queues s). the (processedByQueue s x))"
    using assms(1) None by (auto simp: stats_ok_def)
  have "(\<Sum>x \<in> dom (queues s). the (processedByQueue s x)) =
      (\<Sum>x \<in> dom (queues s). the (((processedByQueue s)(q \<mapsto> 0)) x))"
    using *(3) by (intro sum.cong) auto
  then have "totalProcessed s = (\<Sum>x \<in> insert q (dom (queues s)). the (((processedByQueue s)(q \<mapsto> 0)) x))"
    using * by simp
  moreover have "processedByQueue s' = (processedByQueue s)(q \<mapsto> 0)" "totalProcessed s' = totalProcessed s"
    using assms(2) None by (auto simp: getOrCreateQueueState_def Let_def)
  ultimately show ?thesis
    using * getOrCreate_dom [OF assms(2)] unfolding stats_ok_def by simp
qed (use assms in \<open>auto simp: getOrCreateQueueState_def\<close>)

lemma stats_ok_processGranted:
  assumes "stats_ok s" and "q \<in> dom (queues s)" and "processGranted e p ctx q ms s w = (r, s', w')"
  shows "stats_ok s'"
proof -
  have f: "finite (dom (queues s))" "dom (processedByQueue s) = dom (queues s)" using assms(1) by (auto simp: stats_ok_def)
  then obtain c where c: "processedByQueue s q = Some c" using assms(2) by blast
  have s': "processedByQueue s' = (processedByQueue s)(q \<mapsto> c + of_nat (length ms))"
    "totalProcessed s' = totalProcessed s + of_nat (length ms)" "dom (queues s') = dom (queues s)"
    subgoal using assms(3) c by (auto simp: processGranted_def Let_def split: prod.splits)
    subgoal using assms(3) by (auto simp: processGranted_def Let_def split: prod.splits)
    subgoal by (rule processGranted_dom [OF assms(2,3)])
    done
  have "(\<Sum>x \<in> dom (queues s) - {q}. the (processedByQueue s' x)) = (\<Sum>x \<in> dom (queues s) - {q}. the (processedByQueue s x))"
    by (intro sum.cong) (auto simp: s')
  then have "(\<Sum>x \<in> dom (queues s). the (processedByQueue s' x)) =
      (\<Sum>x \<in> dom (queues s). the (processedByQueue s x)) + of_nat (length ms)"
    using f(1) assms(2) by (simp add: sum.remove [of _ q] s' c add_ac)
  with assms(1,2) f s' show ?thesis by (auto simp: stats_ok_def)
qed

lemma refillAll_stats [simp]:
  "processedByQueue (refillAllCredits s) = processedByQueue s" "totalProcessed (refillAllCredits s) = totalProcessed s"
proof -
  have "processedByQueue (foldl (\<lambda>s name. refillQueueCredits name s) t ns) = processedByQueue t \<and>
      totalProcessed (foldl (\<lambda>s name. refillQueueCredits name s) t ns) = totalProcessed t" for t ns
    by (induction ns arbitrary: t) (simp_all add: refillQueueCredits_eq Let_def)
  then show "processedByQueue (refillAllCredits s) = processedByQueue s" "totalProcessed (refillAllCredits s) = totalProcessed s"
    by (simp_all add: refillAllCredits_def)
qed

lemma updateWeights_stats:
  assumes "updateWeights e ws s w = (s', w')"
  shows "processedByQueue s' = processedByQueue s" "totalProcessed s' = totalProcessed s"
proof -
  have "foldl (updateWeight e ws) (t, w) ns = (s', w') \<Longrightarrow>
      processedByQueue s' = processedByQueue t \<and> totalProcessed s' = totalProcessed t" for t ns w
  proof (induction ns arbitrary: t w)
    case (Cons n ns)
    obtain t1 w1 where u: "updateWeight e ws (t, w) n = (t1, w1)" by (cases "updateWeight e ws (t, w) n")
    then have "processedByQueue t1 = processedByQueue t" "totalProcessed t1 = totalProcessed t"
      by (auto simp: updateWeight_def resizeCreditChannel_eq Let_def)
    with Cons u show ?case by auto
  qed simp
  from this [of "s\<lparr>weights := ws\<rparr>" w "queueNames s"] assms
  show "processedByQueue s' = processedByQueue s" "totalProcessed s' = totalProcessed s"
    by (simp_all add: updateWeights_def)
qed

lemma acquire_stats:
  "acquireCredit e ctx b q s w = (r, s', w') \<Longrightarrow>
   processedByQueue s' = processedByQueue s \<and> totalProcessed s' = totalProcessed s \<and> queues s' = queues s"
  by (auto simp: acquireCredit_def Let_def split: if_splits)

lemma apply_stats:
  "applySchedulerConfig dc s = Some s' \<Longrightarrow>
   processedByQueue s' = processedByQueue s \<and> totalProcessed s' = totalProcessed s \<and> queues s' = queues s"
  by (auto simp: applySchedulerConfig_def Let_def split: option.splits if_splits)

lemma stats_ok_acquire: "stats_ok s \<Longrightarrow> acquireCredit e ctx b q s w = (r, s', w') \<Longrightarrow> stats_ok s'"
  using acquire_stats stats_ok_same by metis

lemma stats_ok_step: "sched_step e p ctx x x' \<Longrightarrow> sys_wf x \<Longrightarrow> stats_ok (sched x) \<Longrightarrow> stats_ok (sched x')"
proof (induction rule: sched_step.induct)
  case (arrive i x s1 w1 preferDone s2 w2 r s3 w3)
  have "stats_ok s2" by (rule stats_ok_acquire [OF stats_ok_getOrCreate [OF arrive.prems(2) arrive(4)] arrive(5)])
  moreover have "cliQueue (clients x ! i) \<in> dom (queues s2)"
    using getOrCreate_dom [OF arrive(4)] acquire_stats [OF arrive(5)] by simp
  ultimately show ?case using stats_ok_processGranted [OF _ _ arrive(6)] by simp
next
  case (refuse i x s1 w1 preferDone err s2 w2)
  then show ?case by (auto intro: stats_ok_acquire stats_ok_getOrCreate)
next
  case (block i x s1 w1 preferDone c s2 w2)
  then show ?case by (auto intro: stats_ok_acquire stats_ok_getOrCreate)
next
  case (wake i x c r s' w')
  have "cliQueue (clients x ! i) \<in> dom (queues (sched x))" using wake.prems(1) wake(1,2) by (simp add: sys_wf_def)
  moreover have "stats_ok ((sched x)\<lparr>chans := (chans (sched x))(c := (chans (sched x) c)\<lparr>clen := clen (chans (sched x) c) - 1\<rparr>)\<rparr>)"
    by (rule stats_ok_same [OF wake.prems(2)]) simp_all
  ultimately show ?case using stats_ok_processGranted [OF _ _ wake(4)] by simp
next
  case (tick x)
  then show ?case by (simp add: stats_ok_same [of "sched x"])
next
  case (new_period x pd pds)
  then show ?case by (simp add: stats_ok_same [of "sched x"])
next
  case (reweigh ws x s' w')
  then have "sched_wf (sched x)" by (simp add: sys_wf_def)
  with reweigh show ?case
    using updateWeights_stats [OF reweigh(1)] updateWeights_dom [OF _ reweigh(1)] by (simp add: stats_ok_same [of "sched x"])
next
  case (tune dc x s')
  then show ?case using apply_stats [OF tune(1)] by (simp add: stats_ok_same [of "sched x"])
qed simp_all

lemma stats_ok_reach:
  assumes "(sched_step e p ctx)\<^sup>*\<^sup>* (sched_start (NewPriorityScheduler dw m rp sa b) w) x"
  shows "stats_ok (sched x) \<and> sys_wf x"
  using assms
proof (induction rule: rtranclp_induct)
  case base
  have "stats_ok (NewPriorityScheduler dw m rp sa b)" by (simp add: stats_ok_def NewPriorityScheduler_def Let_def)
  then show ?case by (simp add: sched_start_def sys_wf_def)
next
  case (step y z)
  then show ?case using stats_ok_step sys_wf_step by blast
qed



lemma addQueueStats_apply:
  assumes "stats_ok s" and "sched_wf s"
  shows "addQueueStats s m (''scheduler_'' @ q) =
    (if q \<in> dom (sched_GetStats s) then sched_GetStats s q else m (''scheduler_'' @ q))"
proof -
  have "foldl (\<lambda>m q. case sched_GetStats s q of None \<Rightarrow> m | Some c \<Rightarrow> m(''scheduler_'' @ q \<mapsto> c)) m qs (''scheduler_'' @ q) =
      (if q \<in> set qs \<and> q \<in> dom (sched_GetStats s) then sched_GetStats s q else m (''scheduler_'' @ q))" for qs m
    by (induction qs arbitrary: m) (auto split: option.splits)
  moreover have "set (queueNames s) = dom (sched_GetStats s)"
    using assms sched_wfD(5) [OF assms(2)] by (simp add: stats_ok_def sched_GetStats_def)
  ultimately show ?thesis by (simp add: addQueueStats_def)
qed

text \<open>The router's report has the count of every queue of the scheduler under its name, except that the total
  hides a queue named \<^verbatim>\<open>total\<close>.\<close>

theorem router_Stats_reports:
  assumes "stats_ok (rsSched x)" and "sched_wf (rsSched x)" and "mrScheduler r = Some p"
    and "q \<in> dom (sched_GetStats (rsSched x))"
  shows "router_Stats r depth x (''scheduler_'' @ q) =
    (if q = ''total'' then Some (totalProcessed (rsSched x)) else sched_GetStats (rsSched x) q)"
  using assms addQueueStats_apply [OF assms(1,2)]
  by (simp add: router_Stats_def Let_def sched_TotalProcessed_def)

text \<open>The rate of a batch as processing builds it is a percentage, 100 exactly if something was processed and
  nothing failed, and the three counts add up to the total.\<close>

theorem SuccessRate_percentage:
  assumes "batch_wf b"
  shows "0 \<le> SuccessRate b \<and> SuccessRate b \<le> 100 \<and>
    (SuccessRate b = 100 \<longleftrightarrow> batch_all b \<noteq> [] \<and> Retryable b = [] \<and> Failed b = []) \<and>
    TotalCount b = int (SuccessCount b + RetryableCount b + FailedCount b)"
proof -
  have total: "TotalCount b = int (length (Successful b) + length (Retryable b) + length (Failed b))"
    using assms by (simp add: batch_wf_def batch_all_def)
  define n m where "n = length (Successful b)" and "m = length (Successful b) + length (Retryable b) + length (Failed b)"
  have nm: "n \<le> m" "n = m \<longleftrightarrow> Retryable b = [] \<and> Failed b = []" "m = 0 \<longleftrightarrow> batch_all b = []"
    by (auto simp: n_def m_def batch_all_def)
  have rate: "SuccessRate b = (if m = 0 then 0 else of_nat n / of_nat m * 100)"
    using total [folded m_def] by (simp add: SuccessRate_def n_def)
  have "0 \<le> SuccessRate b \<and> SuccessRate b \<le> 100 \<and> (SuccessRate b = 100 \<longleftrightarrow> m \<noteq> 0 \<and> n = m)"
    using nm(1) by (auto simp: rate pos_divide_le_eq divide_eq_eq)
  then show ?thesis
    using nm total by (auto simp: SuccessCount_def RetryableCount_def FailedCount_def)
qed

end
