(* ===== verification/Scheduler_Lifecycle.thy ===== *)
theory Scheduler_Lifecycle
  imports Message_Router
begin

text \<open>
  \<^verbatim>\<open>Start\<close> and \<^verbatim>\<open>Stop\<close> of \<^verbatim>\<open>PriorityScheduler\<close> (\<^verbatim>\<open>internal/sms/service/priority_scheduler.go\<close>): the background
  goroutines with their wait group, the callers, and the goroutine that calls \<^verbatim>\<open>Stop\<close>. The steps of
  \<open>sched_step\<close> are distributed over the goroutines here: a background step needs its loop to be alive.
\<close>

section \<open>Model\<close>

datatype sched_loop = RefillLoop | WeightWatcher | ConfigWatcher

datatype stop_pc = NotCalled | Waiting | StopReturned

record sched_life =
  liSystem :: sched_system
  liLoops :: "sched_loop list"
  liWg :: int
  liDone :: bool
  liStop :: stop_pc

text \<open>The goroutines of \<^verbatim>\<open>Start\<close>; \<open>hasStore\<close> and \<open>hasConfig\<close> tell whether the scheduler was given a priority store
  and a live configuration.\<close>

definition sched_loops :: "bool \<Rightarrow> bool \<Rightarrow> sched_loop list" where
  "sched_loops hasStore hasConfig =
     [RefillLoop] @ (if hasStore then [WeightWatcher] else []) @ (if hasConfig then [ConfigWatcher] else [])"

definition sched_launch :: "bool \<Rightarrow> bool \<Rightarrow> scheduler \<Rightarrow> world \<Rightarrow> sched_life" where
  "sched_launch hasStore hasConfig s w =
     \<lparr>liSystem = sched_start s w, liLoops = sched_loops hasStore hasConfig,
      liWg = int (length (sched_loops hasStore hasConfig)), liDone = False, liStop = NotCalled\<rparr>"

text \<open>\<^verbatim>\<open>Stop\<close> cancels the scheduler's own context and then waits; a loop that ends runs \<^verbatim>\<open>wg.Done\<close>.\<close>

definition sched_Stop :: "sched_life \<Rightarrow> sched_life" where
  "sched_Stop x = x\<lparr>liDone := True, liStop := Waiting\<rparr>"

definition loop_exit :: "sched_loop \<Rightarrow> sched_life \<Rightarrow> sched_life" where
  "loop_exit l x = x\<lparr>liLoops := remove1 l (liLoops x), liWg := liWg x - 1\<rparr>"

text \<open>The \<^verbatim>\<open>select\<close> of a loop may take another ready case even if the context is done. A watcher also ends when
  its subscription fails or its channel is closed. Callers do not look at the scheduler's context; their
  steps are those that change the list of callers.\<close>

inductive life_step :: "env \<Rightarrow> processor \<Rightarrow> ctxid \<Rightarrow> sched_life \<Rightarrow> sched_life \<Rightarrow> bool"
  for e :: env and p :: processor and ctx :: ctxid where
  refill: "\<lbrakk> RefillLoop \<in> set (liLoops x); y = (liSystem x)\<lparr>sched := refillAllCredits (sched (liSystem x))\<rparr> \<rbrakk> \<Longrightarrow>
     life_step e p ctx x (x\<lparr>liSystem := y\<rparr>)"
| new_period: "\<lbrakk> RefillLoop \<in> set (liLoops x); refillPeriodCh (sched (liSystem x)) = pd # pds;
     y = (liSystem x)\<lparr>sched := (sched (liSystem x))\<lparr>refillPeriodCh := pds, tickerPeriod := pd\<rparr>\<rparr> \<rbrakk> \<Longrightarrow>
     life_step e p ctx x (x\<lparr>liSystem := y\<rparr>)"
| reweigh: "\<lbrakk> WeightWatcher \<in> set (liLoops x);
     updateWeights e ws (sched (liSystem x)) (schedWorld (liSystem x)) = (s', w');
     y = (liSystem x)\<lparr>sched := s', schedWorld := w'\<rparr> \<rbrakk> \<Longrightarrow>
     life_step e p ctx x (x\<lparr>liSystem := y\<rparr>)"
| tune: "\<lbrakk> ConfigWatcher \<in> set (liLoops x); applySchedulerConfig dc (sched (liSystem x)) = Some s';
     y = (liSystem x)\<lparr>sched := s'\<rparr> \<rbrakk> \<Longrightarrow>
     life_step e p ctx x (x\<lparr>liSystem := y\<rparr>)"
| exit_done: "\<lbrakk> l \<in> set (liLoops x); liDone x \<rbrakk> \<Longrightarrow> life_step e p ctx x (loop_exit l x)"
| exit_closed: "\<lbrakk> l \<in> set (liLoops x); l \<noteq> RefillLoop \<rbrakk> \<Longrightarrow> life_step e p ctx x (loop_exit l x)"
| stop: "liStop x = NotCalled \<Longrightarrow> life_step e p ctx x (sched_Stop x)"
| stop_returns: "\<lbrakk> liStop x = Waiting; liWg x = 0 \<rbrakk> \<Longrightarrow> life_step e p ctx x (x\<lparr>liStop := StopReturned\<rparr>)"
| caller: "\<lbrakk> sched_step e p ctx (liSystem x) y; clients y \<noteq> clients (liSystem x) \<rbrakk> \<Longrightarrow>
     life_step e p ctx x (x\<lparr>liSystem := y\<rparr>)"
| cancel: "y = (liSystem x)\<lparr>schedWorld := cancelContext ctx (schedWorld (liSystem x))\<rparr> \<Longrightarrow>
     life_step e p ctx x (x\<lparr>liSystem := y\<rparr>)"

definition life_reachable :: "env \<Rightarrow> processor \<Rightarrow> ctxid \<Rightarrow> sched_life \<Rightarrow> bool" where
  "life_reachable e p ctx x \<longleftrightarrow>
     (\<exists>hasStore hasConfig s w. sched_wf s \<and> (life_step e p ctx)\<^sup>*\<^sup>* (sched_launch hasStore hasConfig s w) x)"

section \<open>Simulation and invariant\<close>

text \<open>Every step is one of the scheduler system or leaves it alone, so the invariants of \<open>sched_step\<close> hold here.\<close>

lemma life_step_simulates:
  "life_step e p ctx x x' \<Longrightarrow> liSystem x' = liSystem x \<or> sched_step e p ctx (liSystem x) (liSystem x')"
  by (induction rule: life_step.induct)
    (auto simp: loop_exit_def sched_Stop_def intro: sched_step.tick sched_step.new_period sched_step.reweigh
      sched_step.tune sched_step.cancel)

text \<open>A blocked caller waits on a channel that exists.\<close>

definition waits_ok :: "sched_system \<Rightarrow> bool" where
  "waits_ok x \<longleftrightarrow> (\<forall>cl c. cl \<in> set (clients x) \<longrightarrow> cliPc cl = WaitCredit c \<longrightarrow> c < nextChan (sched x))"

definition life_inv :: "sched_life \<Rightarrow> bool" where
  "life_inv x \<longleftrightarrow> sys_wf (liSystem x) \<and> waits_ok (liSystem x) \<and>
     distinct (liLoops x) \<and> liWg x = int (length (liLoops x)) \<and>
     (liDone x \<longleftrightarrow> liStop x \<noteq> NotCalled) \<and> (liStop x = StopReturned \<longrightarrow> liLoops x = []) \<and>
     (liStop x = NotCalled \<longrightarrow> RefillLoop \<in> set (liLoops x))"

lemma loops_bound: "distinct ls \<Longrightarrow> length ls \<le> 3" for ls :: "sched_loop list"
proof -
  have "set ls \<subseteq> {RefillLoop, WeightWatcher, ConfigWatcher}" using sched_loop.exhaust by blast
  then have "card (set ls) \<le> card {RefillLoop, WeightWatcher, ConfigWatcher}" by (rule card_mono [rotated]) simp
  then show "distinct ls \<Longrightarrow> length ls \<le> 3" by (simp add: distinct_card)
qed

section \<open>What callers cannot change\<close>

text \<open>Without the loops, weights and tuning stay, no credit is added and no channel of a queue is filled.\<close>

definition at_rest :: "scheduler \<Rightarrow> scheduler \<Rightarrow> bool" where
  "at_rest s s' \<longleftrightarrow> weights s' = weights s \<and> creditMultiplier s' = creditMultiplier s \<and>
     maxStarvationAge s' = maxStarvationAge s \<and> tickerPeriod s' = tickerPeriod s \<and>
     creditsGranted s' = creditsGranted s \<and> nextChan s \<le> nextChan s' \<and>
     (\<forall>c < nextChan s. clen (chans s' c) \<le> clen (chans s c))"

lemma at_rest_refl [simp]: "at_rest s s"
  by (simp add: at_rest_def)

lemma at_rest_trans: "at_rest a b \<Longrightarrow> at_rest b c \<Longrightarrow> at_rest a c"
  unfolding at_rest_def by simp (meson le_trans less_le_trans)

lemma at_rest_getOrCreate: "getOrCreateQueueState e q s w = (s', w') \<Longrightarrow> at_rest s s'"
  by (auto simp: at_rest_def getOrCreateQueueState_def Let_def split: option.splits)

lemma at_rest_acquire: "acquireCredit e ctx b q s w = (r, s', w') \<Longrightarrow> at_rest s s'"
  by (auto simp: at_rest_def acquireCredit_def Let_def split: if_splits)

lemma at_rest_processGranted: "processGranted e p ctx q ms s w = (r, s', w') \<Longrightarrow> at_rest s s'"
  by (auto simp: at_rest_def processGranted_def Let_def split: prod.splits)

lemma at_rest_take: "at_rest s (s\<lparr>chans := (chans s)(c := (chans s c)\<lparr>clen := clen (chans s c) - 1\<rparr>)\<rparr>)"
  by (simp add: at_rest_def)

section \<open>The invariant holds\<close>

lemma nextChan_updateWeights: "updateWeights e ws s w = (s', w') \<Longrightarrow> nextChan s \<le> nextChan s'"
proof -
  have step: "nextChan s \<le> nextChan (fst (updateWeight e ws (s, w) n))" for s w n
    by (auto simp: updateWeight_def resizeCreditChannel_eq Let_def split: option.split)
  have "nextChan s \<le> nextChan (fst (foldl (updateWeight e ws) (s, w) ns))" for ns s w
  proof (induction ns arbitrary: s w)
    case (Cons n ns)
    obtain s1 w1 where u: "updateWeight e ws (s, w) n = (s1, w1)" by fastforce
    then show ?case using step [of s w n] Cons.IH [of s1 w1] by simp
  qed simp
  from this [of "s\<lparr>weights := ws\<rparr>" w "queueNames s"]
  show "updateWeights e ws s w = (s', w') \<Longrightarrow> nextChan s \<le> nextChan s'" by (simp add: updateWeights_def)
qed

lemma nextChan_refillAll [simp]: "nextChan (refillAllCredits s) = nextChan s"
proof -
  have "nextChan (foldl (\<lambda>s name. refillQueueCredits name s) t ns) = nextChan t" for t ns
    by (induction ns arbitrary: t) (simp_all add: refillQueueCredits_eq Let_def)
  then show ?thesis by (simp add: refillAllCredits_def)
qed

text \<open>A step of the system is quiet or a background step; channels are never forgotten.\<close>

lemma step_at_rest:
  "sched_step e p ctx x x' \<Longrightarrow>
   at_rest (sched x) (sched x') \<or> clients x' = clients x \<and> nextChan (sched x) \<le> nextChan (sched x')"
proof (induction rule: sched_step.induct)
  case (arrive i x s1 w1 preferDone s2 w2 r s3 w3)
  show ?case
    using at_rest_trans [OF at_rest_getOrCreate [OF arrive(4)] at_rest_trans [OF at_rest_acquire [OF arrive(5)]
          at_rest_processGranted [OF arrive(6)]]] by simp
next
  case (wake i x c r s' w')
  show ?case using at_rest_trans [OF at_rest_take at_rest_processGranted [OF wake(4)]] by simp
next
  case (tune dc x s')
  show ?case using applySchedulerConfig_frame [OF tune] by simp
qed (auto dest: at_rest_getOrCreate at_rest_acquire nextChan_updateWeights intro: at_rest_trans)

lemma nextChan_step: "sched_step e p ctx x x' \<Longrightarrow> nextChan (sched x) \<le> nextChan (sched x')"
  using step_at_rest by (fastforce simp: at_rest_def)

lemma waits_ok_step:
  assumes "sched_step e p ctx x x'" and "sys_wf x" and "waits_ok x"
  shows "waits_ok x'"
proof -
  have new: "cl \<in> set (clients x) \<or> c < nextChan (sched x')" if "cl \<in> set (clients x')" "cliPc cl = WaitCredit c" for cl c
    using assms(1,2) that
  proof (induction rule: sched_step.induct)
    case (block i x s1 w1 preferDone c' s2 w2)
    have "sched_wf (sched x)" using block.prems by (simp add: sys_wf_def)
    then have s1: "sched_wf s1" "cliQueue (clients x ! i) \<in> dom (queues s1)"
      using sched_wf_getOrCreate [OF _ block(4)] getOrCreate_dom [OF block(4)] by auto
    then have "c' < nextChan s1" using sched_wfD(1) [OF s1(1)] block(5)
      by (auto simp: acquireCredit_def Let_def split: if_splits)
    then have "c' < nextChan s2" using at_rest_acquire [OF block(5)] by (simp add: at_rest_def)
    then show ?case using block.prems by (auto dest!: subsetD [OF set_update_subset_insert])
  qed (auto dest!: subsetD [OF set_update_subset_insert])
  show ?thesis
    unfolding waits_ok_def
  proof (intro allI impI)
    fix cl c
    assume "cl \<in> set (clients x')" "cliPc cl = WaitCredit c"
    then show "c < nextChan (sched x')"
      using new [of cl c] assms(3) nextChan_step [OF assms(1)] unfolding waits_ok_def by fastforce
  qed
qed

lemma life_inv_step:
  assumes "life_step e p ctx x x'" and "life_inv x"
  shows "life_inv x'"
proof -
  have sys: "sys_wf (liSystem x')" "waits_ok (liSystem x')"
    using life_step_simulates [OF assms(1)] assms(2) sys_wf_step waits_ok_step by (auto simp: life_inv_def)
  show ?thesis
    using assms sys
    by (cases rule: life_step.cases)
      (auto simp: life_inv_def loop_exit_def sched_Stop_def length_remove1 in_set_remove1 Suc_le_eq
        length_pos_if_in_set of_nat_diff dest: length_pos_if_in_set)
qed

lemma life_inv_start: "sched_wf s \<Longrightarrow> life_inv (sched_launch hasStore hasConfig s w)"
  by (auto simp: life_inv_def sched_launch_def sched_loops_def sched_start_def sys_wf_def waits_ok_def)

lemma life_inv_reach: "life_reachable e p ctx x \<Longrightarrow> life_inv x"
proof -
  assume "life_reachable e p ctx x"
  then obtain hasStore hasConfig s w where "sched_wf s" "(life_step e p ctx)\<^sup>*\<^sup>* (sched_launch hasStore hasConfig s w) x"
    unfolding life_reachable_def by blast
  from this(2) show ?thesis by (induction rule: rtranclp_induct) (auto intro: life_inv_start \<open>sched_wf s\<close> life_inv_step)
qed

section \<open>Stopping\<close>

lemma all_loops_exit:
  assumes "liDone x" and "liStop x = Waiting" and "liWg x = int (length (liLoops x))"
  shows "\<exists>y. ((life_step e p ctx) ^^ Suc (length (liLoops x))) x y \<and> liStop y = StopReturned \<and> liSystem y = liSystem x"
  using assms
proof (induction "length (liLoops x)" arbitrary: x)
  case 0
  then have "life_step e p ctx x (x\<lparr>liStop := StopReturned\<rparr>)" by (intro life_step.stop_returns) simp_all
  then show ?case using 0 by auto
next
  case (Suc n)
  then obtain l ls where ls: "liLoops x = l # ls" by (cases "liLoops x") auto
  let ?x = "loop_exit l x"
  have step: "life_step e p ctx x ?x" using ls Suc.prems by (intro life_step.exit_done) simp_all
  have x': "n = length (liLoops ?x)" "liDone ?x" "liStop ?x = Waiting" "liWg ?x = int (length (liLoops ?x))"
    "liSystem ?x = liSystem x"
    using Suc ls by (simp_all add: loop_exit_def)
  from Suc.hyps(1) [OF x'(1-4)] obtain y where
    "((life_step e p ctx) ^^ Suc n) ?x y" "liStop y = StopReturned" "liSystem y = liSystem x"
    using x'(1,5) by auto
  then show ?case using step Suc.hyps(2) relpowp_Suc_I2 by metis
qed

text \<open>C30. \<^verbatim>\<open>Stop\<close> returns: the wait group counts exactly the loops that are alive (at most three), so from every
  reachable state in which \<^verbatim>\<open>Stop\<close> waits, the ends of the remaining loops and nothing else lead to its return
  in at most four steps; and when it has returned, no loop is left.\<close>

theorem Stop_returns:
  assumes "life_reachable e p ctx x" and "liStop x \<noteq> NotCalled"
  shows "liWg x = int (length (liLoops x)) \<and> length (liLoops x) \<le> 3 \<and>
     (liStop x = Waiting \<longrightarrow>
        (\<exists>n y. n \<le> 4 \<and> ((life_step e p ctx) ^^ n) x y \<and> liStop y = StopReturned \<and> liSystem y = liSystem x)) \<and>
     (liStop x = StopReturned \<longrightarrow> liLoops x = [])"
proof -
  have inv: "distinct (liLoops x)" "liWg x = int (length (liLoops x))" "liDone x" "liStop x = StopReturned \<longrightarrow> liLoops x = []"
    using life_inv_reach [OF assms(1)] assms(2) by (simp_all add: life_inv_def)
  have "Suc (length (liLoops x)) \<le> 4" using loops_bound [OF inv(1)] by simp
  then have "\<exists>n y. n \<le> 4 \<and> ((life_step e p ctx) ^^ n) x y \<and> liStop y = StopReturned \<and> liSystem y = liSystem x"
    if "liStop x = Waiting"
    using all_loops_exit [OF inv(3) that inv(2), of e p ctx] by blast
  then show ?thesis using inv loops_bound [OF inv(1)] by blast
qed

lemma base_sched_wf: "sched_wf (NewPriorityScheduler 1 10 0 0 True)"
  by (simp add: sched_wf_def NewPriorityScheduler_def)

lemma stopped_state:
  "life_reachable e p ctx (sched_Stop (sched_launch hasStore hasConfig (NewPriorityScheduler 1 10 0 0 True) w))"
  unfolding life_reachable_def
  using base_sched_wf life_step.stop [of "sched_launch hasStore hasConfig (NewPriorityScheduler 1 10 0 0 True) w" e p ctx]
  by (intro exI [of _ hasStore] exI [of _ hasConfig] exI [of _ "NewPriorityScheduler 1 10 0 0 True"] exI [of _ w])
    (auto simp: sched_launch_def)

theorem Stop_returns_witness:
  "\<exists>n y. n \<le> 4 \<and> ((life_step base_env sample_processor AppCtx) ^^ n)
     (sched_Stop (sched_launch True True (NewPriorityScheduler 1 10 0 0 True) init_world)) y \<and> liStop y = StopReturned"
proof -
  let ?x = "sched_Stop (sched_launch True True (NewPriorityScheduler 1 10 0 0 True) init_world)"
  have "liStop ?x \<noteq> NotCalled" "liStop ?x = Waiting" by (simp_all add: sched_Stop_def)
  then show ?thesis using Stop_returns [OF stopped_state [of base_env sample_processor AppCtx True True init_world]] by blast
qed

lemma at_rest_after_stop:
  assumes "life_step e p ctx x x'" and "life_inv x" and "liStop x = StopReturned"
  shows "liStop x' = StopReturned \<and> at_rest (sched (liSystem x)) (sched (liSystem x'))"
  using assms by (cases rule: life_step.cases) (auto simp: life_inv_def dest: step_at_rest)

lemma blocked_life_step:
  assumes "life_step e p ctx x x'" and "i < length (clients (liSystem x))" and "clen (chans (sched (liSystem x)) c) = 0"
    and "cliPc (clients (liSystem x) ! i) = WaitCredit c \<or> cliPc (clients (liSystem x) ! i) = gaveUp"
  shows "i < length (clients (liSystem x')) \<and>
    (cliPc (clients (liSystem x') ! i) = WaitCredit c \<or> cliPc (clients (liSystem x') ! i) = gaveUp)"
  using life_step_simulates [OF assms(1)] blocked_step [OF _ assms(2-4)] assms(2,4) by auto

text \<open>After \<^verbatim>\<open>Stop\<close> the scheduler is at rest, but callers are not told: weights, tuning and the number of
  granted credits stay for ever, and a caller that is blocked on an empty credit channel stays blocked until
  its own context is cancelled; it is never granted a credit.\<close>

theorem Stop_leaves_waiters:
  assumes "life_reachable e p ctx x" and "liStop x = StopReturned" and "(life_step e p ctx)\<^sup>*\<^sup>* x x'"
    and "i < length (clients (liSystem x))" and "cliPc (clients (liSystem x) ! i) = WaitCredit c"
    and "clen (chans (sched (liSystem x)) c) = 0"
  shows "at_rest (sched (liSystem x)) (sched (liSystem x')) \<and>
     (cliPc (clients (liSystem x') ! i) = WaitCredit c \<or>
      cliPc (clients (liSystem x') ! i) = Finished (NewBatchResult, Some (ErrContext ''context canceled'')))"
proof -
  have inv: "life_inv x" by (rule life_inv_reach [OF assms(1)])
  have c: "c < nextChan (sched (liSystem x))"
    using inv assms(4,5) nth_mem unfolding life_inv_def waits_ok_def by blast
  from assms(3) have "life_inv x' \<and> liStop x' = StopReturned \<and> at_rest (sched (liSystem x)) (sched (liSystem x')) \<and>
      i < length (clients (liSystem x')) \<and>
      (cliPc (clients (liSystem x') ! i) = WaitCredit c \<or> cliPc (clients (liSystem x') ! i) = gaveUp)"
  proof (induction rule: rtranclp_induct)
    case base
    then show ?case using inv assms(2,4,5) by simp
  next
    case (step y z)
    have "clen (chans (sched (liSystem y)) c) = 0" using step.IH assms(6) c unfolding at_rest_def by fastforce
    then show ?case
      using step.IH life_inv_step [OF step(2)] at_rest_after_stop [OF step(2)] blocked_life_step [OF step(2)] at_rest_trans
      by blast
  qed
  then show ?thesis by (simp add: gaveUp_def)
qed

text \<open>A queue without credits, a caller that blocks on it, and \<^verbatim>\<open>Stop\<close>.\<close>

definition drained_scheduler :: scheduler where
  "drained_scheduler = (NewPriorityScheduler 1 10 0 0 True)\<lparr>queueNames := [''Q''],
     queues := [''Q'' \<mapsto> \<lparr>qsWeight = 1, qsCredits = 0, qsLastProcessed = 0\<rparr>],
     chans := (\<lambda>_. \<lparr>ccap = 10, clen = 0\<rparr>), nextChan := 1\<rparr>"

definition blocked_system :: "client_pc \<Rightarrow> sched_system" where
  "blocked_system pc = \<lparr>sched = drained_scheduler, clients = [\<lparr>cliQueue = ''Q'', cliMsgs = [sample_message], cliPc = pc\<rparr>],
     schedWorld = init_world\<rparr>"

lemma drained_wf: "sched_wf drained_scheduler"
  by (auto simp: drained_scheduler_def sched_wf_def NewPriorityScheduler_def split: if_splits)

lemma drained_blocks:
  "(sched_step base_env sample_processor AppCtx) (sched_start drained_scheduler init_world) (blocked_system Arriving)"
  "(sched_step base_env sample_processor AppCtx) (blocked_system Arriving) (blocked_system (WaitCredit 0))"
proof -
  show "(sched_step base_env sample_processor AppCtx) (sched_start drained_scheduler init_world) (blocked_system Arriving)"
    using sched_step.submit [of base_env sample_processor AppCtx "sched_start drained_scheduler init_world" "''Q''" "[sample_message]"]
    by (simp add: sched_start_def blocked_system_def)
  have "getOrCreateQueueState base_env ''Q'' drained_scheduler init_world = (drained_scheduler, init_world)"
    by (simp add: getOrCreateQueueState_def drained_scheduler_def)
  moreover have "acquireCredit base_env AppCtx False ''Q'' drained_scheduler init_world = (Blocked 0, drained_scheduler, init_world)"
    by (simp add: acquireCredit_def drained_scheduler_def NewPriorityScheduler_def Let_def time_Since_def time_Now_def base_env_def init_world_def)
  ultimately show "(sched_step base_env sample_processor AppCtx) (blocked_system Arriving) (blocked_system (WaitCredit 0))"
    using sched_step.block [of 0 "blocked_system Arriving" base_env drained_scheduler init_world AppCtx False 0
        drained_scheduler init_world sample_processor]
    by (simp add: blocked_system_def)
qed

theorem Stop_leaves_waiters_witness:
  "\<exists>x x'. life_reachable base_env sample_processor AppCtx x \<and> liStop x = StopReturned \<and>
     (life_step base_env sample_processor AppCtx)\<^sup>*\<^sup>* x x' \<and>
     cliPc (clients (liSystem x') ! 0) \<in> {WaitCredit 0, gaveUp}"
proof -
  let ?step = "life_step base_env sample_processor AppCtx"
  let ?x = "\<lambda>y. (sched_launch False False drained_scheduler init_world)\<lparr>liSystem := y\<rparr>"
  let ?y = "?x (blocked_system (WaitCredit 0))"
  let ?z = "(loop_exit RefillLoop (sched_Stop ?y))\<lparr>liStop := StopReturned\<rparr>"
  have "?step (sched_launch False False drained_scheduler init_world) (?x (blocked_system Arriving))"
    by (rule life_step.caller) (simp_all add: sched_launch_def drained_blocks, simp add: sched_start_def blocked_system_def)
  moreover have "?step (?x (blocked_system Arriving)) ?y"
    using life_step.caller [of base_env sample_processor AppCtx "?x (blocked_system Arriving)" "blocked_system (WaitCredit 0)"]
      drained_blocks(2) by (simp add: blocked_system_def)
  moreover have "?step ?y (sched_Stop ?y)" by (rule life_step.stop) (simp add: sched_launch_def)
  moreover have "?step (sched_Stop ?y) (loop_exit RefillLoop (sched_Stop ?y))"
    by (rule life_step.exit_done) (simp_all add: sched_launch_def sched_loops_def sched_Stop_def)
  moreover have "?step (loop_exit RefillLoop (sched_Stop ?y)) ?z"
    by (rule life_step.stop_returns) (simp_all add: sched_launch_def sched_loops_def sched_Stop_def loop_exit_def)
  ultimately have "?step\<^sup>*\<^sup>* (sched_launch False False drained_scheduler init_world) ?z"
    by (meson rtranclp.rtrancl_into_rtrancl rtranclp.rtrancl_refl)
  then have r: "life_reachable base_env sample_processor AppCtx ?z" using drained_wf unfolding life_reachable_def by blast
  let ?c = "?z\<lparr>liSystem := (liSystem ?z)\<lparr>schedWorld := cancelContext AppCtx (schedWorld (liSystem ?z))\<rparr>\<rparr>"
  have "?step\<^sup>*\<^sup>* ?z ?c" using life_step.cancel by blast
  from Stop_leaves_waiters [OF r _ this, of 0 0]
  have "cliPc (clients (liSystem ?c) ! 0) \<in> {WaitCredit 0, gaveUp}"
    by (auto simp: loop_exit_def sched_Stop_def blocked_system_def drained_scheduler_def gaveUp_def)
  then show ?thesis using r \<open>?step\<^sup>*\<^sup>* ?z ?c\<close> by (intro exI [of _ ?z] exI [of _ ?c]) simp
qed

end
