(* ===== verification/Http_Client.thy ===== *)
theory Http_Client
  imports Config World
begin

text \<open>
  \<^verbatim>\<open>internal/common/httpclient/client.go\<close>: the configuration of the pooled client, the helpers that build
  requests, and what becomes of response bodies; and the two clients that \<^verbatim>\<open>bootstrap.New\<close> builds. The
  transport itself is \<^verbatim>\<open>net/http\<close>: a request is answered by the environment (\<open>http_Do\<close>).
  Durations are in nanoseconds.
\<close>

record client_config =
  hcTimeout :: int
  hcMaxIdleConns :: int
  hcMaxConnsPerHost :: int
  hcMaxIdleConnsPerHost :: int
  hcIdleConnTimeout :: int
  hcTLSHandshakeTimeout :: int
  hcResponseHeaderTimeout :: int
  hcDialTimeout :: int
  hcKeepAlive :: int

definition http_DefaultConfig :: client_config where
  "http_DefaultConfig =
     \<lparr>hcTimeout = 60 * Second, hcMaxIdleConns = 500, hcMaxConnsPerHost = 300, hcMaxIdleConnsPerHost = 300,
      hcIdleConnTimeout = 90 * Second, hcTLSHandshakeTimeout = 10 * Second, hcResponseHeaderTimeout = 10 * Second,
      hcDialTimeout = 10 * Second, hcKeepAlive = 30 * Second\<rparr>"

text \<open>The fields of \<^verbatim>\<open>http.Transport\<close> that are set, the time-out of \<^verbatim>\<open>http.Client\<close>, and the copy that the
  wrapper keeps.\<close>

record http_client =
  clTransport :: client_config
  clClientTimeout :: int
  clTimeout :: int

definition http_New :: "client_config option \<Rightarrow> http_client" where
  "http_New cfg =
     (let cfg = (case cfg of None \<Rightarrow> http_DefaultConfig | Some c \<Rightarrow> c)
      in \<lparr>clTransport = cfg, clClientTimeout = hcTimeout cfg, clTimeout = hcTimeout cfg\<rparr>)"

definition http_SetTimeout :: "int \<Rightarrow> http_client \<Rightarrow> http_client" where
  "http_SetTimeout timeout c = c\<lparr>clTimeout := timeout, clClientTimeout := timeout\<rparr>"

section \<open>Requests\<close>

definition http_Get :: "env \<Rightarrow> ctxid \<Rightarrow> string \<Rightarrow> world \<Rightarrow> http_outcome \<times> world" where
  "http_Get e ctx url w =
     (case newRequest e url of
        Some err \<Rightarrow> (HttpErr err, w)
      | None \<Rightarrow> http_Do e ctx \<lparr>hMethod = ''GET'', hURL = url, hHeaders = [], hBody = NoBody\<rparr> w)"

definition http_Post :: "env \<Rightarrow> ctxid \<Rightarrow> string \<Rightarrow> string \<Rightarrow> payload \<Rightarrow> world \<Rightarrow> http_outcome \<times> world" where
  "http_Post e ctx url contentType body w =
     (case newRequest e url of
        Some err \<Rightarrow> (HttpErr err, w)
      | None \<Rightarrow>
          http_Do e ctx
            \<lparr>hMethod = ''POST'', hURL = url, hHeaders = [(''Content-Type'', contentType)], hBody = body\<rparr> w)"

definition http_PostJSON :: "env \<Rightarrow> ctxid \<Rightarrow> string \<Rightarrow> payload \<Rightarrow> world \<Rightarrow> http_outcome \<times> world" where
  "http_PostJSON e ctx url body w = http_Post e ctx url ''application/json'' body w"

section \<open>Bodies\<close>

text \<open>A response body: what was not read yet, and whether it was closed. A missing response or body is
  \<open>None\<close>.\<close>

record resp_body =
  rbUnread :: string
  rbClosed :: bool

definition DrainBody :: "resp_body option \<Rightarrow> resp_body option" where
  "DrainBody r = map_option (\<lambda>b. b\<lparr>rbUnread := [], rbClosed := True\<rparr>) r"

definition CloseBody :: "resp_body option \<Rightarrow> resp_body option" where
  "CloseBody r = map_option (\<lambda>b. b\<lparr>rbClosed := True\<rparr>) r"

section \<open>The clients of the gateway\<close>

definition shared_client :: http_client where
  "shared_client = http_New (Some http_DefaultConfig)"

definition sdp_client :: "config \<Rightarrow> http_client" where
  "sdp_client cfg =
     http_New (Some (http_DefaultConfig
       \<lparr>hcResponseHeaderTimeout := sdp_ResponseHeaderTimeout (cfg_SafaricomSDP cfg),
        hcTimeout := sdp_RequestTimeout (cfg_SafaricomSDP cfg)\<rparr>))"

section \<open>Properties\<close>

text \<open>The time-out that the wrapper reports is always the one in force, after any number of changes.\<close>

theorem client_timeout_in_force:
  "let c = fold http_SetTimeout ts (http_New cfg) in
     clTimeout c = clClientTimeout c \<and> clTransport c = clTransport (http_New cfg) \<and>
     (ts \<noteq> [] \<longrightarrow> clTimeout c = last ts)"
proof (induction ts rule: rev_induct)
  case Nil
  then show ?case by (simp add: http_New_def Let_def)
next
  case (snoc t ts)
  then show ?case by (simp add: http_SetTimeout_def Let_def)
qed

text \<open>A helper makes exactly the request it names, or none if the URL does not parse.\<close>

theorem http_helpers_request:
  "let (r, w') = http_PostJSON e ctx url body w in
     case newRequest e url of
       Some err \<Rightarrow> r = HttpErr err \<and> w' = w
     | None \<Rightarrow> new_events w w' =
         [EvHttp \<lparr>hMethod = ''POST'', hURL = url, hHeaders = [(''Content-Type'', ''application/json'')], hBody = body\<rparr> r]"
  by (auto simp: http_PostJSON_def http_Post_def http_Do_def Let_def split: option.split)

text \<open>The SDP client pools like the shared one; only its two time-outs are configured.\<close>

lemma sdp_client_pools:
  "clTransport (sdp_client cfg)\<lparr>hcResponseHeaderTimeout := 10 * Second, hcTimeout := 60 * Second\<rparr> = clTransport shared_client"
  by (simp add: sdp_client_def shared_client_def http_New_def http_DefaultConfig_def)

end
