(* ===== verification/Http_Server.thy ===== *)
theory Http_Server
  imports Health_Api Config
begin

text \<open>
  \<^verbatim>\<open>internal/api/server.go\<close> and its use in \<^verbatim>\<open>bootstrap.New\<close>: the server for the probes, as the table of routes and
  the settings of \<^verbatim>\<open>http.Server\<close>. The router is a library: what it answers to a request that no route matches
  is the argument \<open>unmatched\<close>, what the Prometheus handler answers is \<open>scrape\<close>.
\<close>

section \<open>Model\<close>

datatype route_handler = HealthRoute | ReadyRoute | MetricsRoute

text \<open>A route of \<^verbatim>\<open>Get\<close> has that method; one of \<^verbatim>\<open>Handle\<close> has none and takes every method.\<close>

record route =
  roMethod :: "string option"
  roPath :: string
  roHandler :: route_handler

record server =
  svRoutes :: "route list"
  svHandler :: health_handler
  svAddr :: string
  svReadTimeout :: int
  svWriteTimeout :: int
  svIdleTimeout :: int
  svRequestTimeout :: int

definition server_routes :: "route list" where
  "server_routes =
     [\<lparr>roMethod = Some ''GET'', roPath = ''/health'', roHandler = HealthRoute\<rparr>,
      \<lparr>roMethod = Some ''GET'', roPath = ''/ready'', roHandler = ReadyRoute\<rparr>,
      \<lparr>roMethod = None, roPath = ''/metrics'', roHandler = MetricsRoute\<rparr>]"

definition NewServer :: "int \<Rightarrow> int \<Rightarrow> int \<Rightarrow> int \<Rightarrow> amqp_conn option \<Rightarrow> bool \<Rightarrow> server" where
  "NewServer port readTimeout writeTimeout idleTimeout rabbitConn redisCache =
     \<lparr>svRoutes = server_routes, svHandler = NewHealthHandler rabbitConn redisCache, svAddr = server_Addr port,
      svReadTimeout = readTimeout, svWriteTimeout = writeTimeout, svIdleTimeout = idleTimeout,
      svRequestTimeout = 30 * Second\<rparr>"

text \<open>The server of \<^verbatim>\<open>New\<close>.\<close>

definition app_server :: "config \<Rightarrow> amqp_conn option \<Rightarrow> bool \<Rightarrow> server" where
  "app_server cfg rabbitConn redisCache =
     (let h = cfg_HTTP cfg in
      NewServer (http_Port h) (http_ReadTimeout h) (http_WriteTimeout h) (http_IdleTimeout h) rabbitConn redisCache)"

definition route_matches :: "string \<Rightarrow> string \<Rightarrow> route \<Rightarrow> bool" where
  "route_matches method path r \<longleftrightarrow> roPath r = path \<and> (roMethod r = None \<or> roMethod r = Some method)"

text \<open>One request.\<close>

definition serve ::
  "env \<Rightarrow> (string \<Rightarrow> string \<Rightarrow> int \<times> health_response) \<Rightarrow> (int \<times> health_response) \<Rightarrow> server \<Rightarrow> string \<Rightarrow> string \<Rightarrow> world \<Rightarrow>
   (int \<times> health_response) \<times> world" where
  "serve e unmatched scrape s method path w =
     (case find (route_matches method path) (svRoutes s) of
        None \<Rightarrow> (unmatched method path, w)
      | Some r \<Rightarrow>
          (case roHandler r of
             HealthRoute \<Rightarrow> (Health (svHandler s), w)
           | ReadyRoute \<Rightarrow> Ready e (svHandler s) w
           | MetricsRoute \<Rightarrow> (scrape, w)))"

section \<open>Properties\<close>

lemma find_routes [simp]:
  "find (route_matches method path) server_routes =
     (if path = ''/health'' \<and> method = ''GET'' then Some (server_routes ! 0)
      else if path = ''/ready'' \<and> method = ''GET'' then Some (server_routes ! 1)
      else if path = ''/metrics'' then Some (server_routes ! 2) else None)"
  by (auto simp: server_routes_def route_matches_def)

text \<open>The server listens on the port the environment sets (8080 if it sets none), and its probes are the
  handlers: liveness needs nothing, readiness the broker and Redis, in every state of the connection.\<close>

theorem app_server_serves:
  assumes "conn_reachable c" and "envv ''HTTP_PORT'' = Some (Itoa port)" and "0 < port" and "port < 2 ^ 63"
  shows "let s = app_server (Load envv) (Some c) redis;
             up = (acSockets c \<noteq> [] \<and> (redis \<longrightarrow> fst (tc_Ping e w) = None)) in
     svAddr s = '':'' @ Itoa port \<and>
     fst (fst (serve e unmatched scrape s ''GET'' ''/health'' w)) = 200 \<and>
     fst (fst (serve e unmatched scrape s ''GET'' ''/ready'' w)) = (if up then 200 else 503)"
proof -
  have port: "http_Port (cfg_HTTP (Load envv)) = port"
    using assms(2-4) ParseInt_Itoa [of port] by (simp add: Load_def Load_HTTP_def getEnvAsInt_def)
  have addr: "server_Addr port = '':'' @ Itoa port"
    using assms(3,4) by (simp add: server_Addr_def itoa_def itoa_loop_eq Itoa_def)
  have conn: "IsConnected c = (acSockets c \<noteq> [])"
    using conn_inv_reachable [OF assms(1)] by (auto simp: conn_inv_def IsConnected_def)
  have ready: "fst (fst (Ready e (NewHealthHandler (Some c) redis) w)) =
      (if acSockets c \<noteq> [] \<and> (redis \<longrightarrow> fst (tc_Ping e w) = None) then 200 else 503)"
    by (cases "tc_Ping e w") (auto simp: Ready_def NewHealthHandler_def conn Let_def split: option.splits)
  have "serve e unmatched scrape (app_server (Load envv) (Some c) redis) ''GET'' ''/ready'' w =
      Ready e (NewHealthHandler (Some c) redis) w"
    by (simp add: serve_def app_server_def NewServer_def Let_def) (simp add: server_routes_def)
  moreover have "fst (fst (serve e unmatched scrape (app_server (Load envv) (Some c) redis) ''GET'' ''/health'' w)) = 200"
    by (simp add: serve_def app_server_def NewServer_def Let_def) (simp add: server_routes_def Health_def)
  ultimately show ?thesis using addr ready by (simp add: Let_def app_server_def NewServer_def port)
qed

end
