(* ===== verification/Spec2Isabelle.thy ===== *)
theory Spec2Isabelle
  imports Lifecycle Config_Watch Prometheus_Metrics Service_Stats Scheduler_Lifecycle Http_Client Http_Server
begin

text \<open>
  A verification development of the SMS gateway \<^verbatim>\<open>emalify-sms-mno-gateway\<close> (Go): it consumes SMS
  messages from RabbitMQ queues, sends them through the interfaces of mobile network operators, and
  publishes the outcome to a database queue, to delay queues for retries, or to a dead-letter queue.
  Paths below are under \<^verbatim>\<open>src/internal/\<close>.

  \<^bold>\<open>How the program is modelled.\<close> Go functions are HOL functions that pass the state they change.
  What is outside the repository (RabbitMQ and Redis servers and clients, the operators' HTTP
  endpoints, \<^verbatim>\<open>gobreaker\<close>, \<^verbatim>\<open>x/time/rate\<close>, the clock, the Go scheduler) is a record \<open>env\<close> of
  functions from the history of all events to the next answer (theory \<open>World\<close>); a call out appends an
  event to the \<open>trace\<close> of the \<open>world\<close>. Theorems hold for every \<open>env\<close>; where one relies on documented
  behaviour of such code (Redis keeps what was written) this is a named hypothesis (\<open>redis_sound\<close>,
  \<open>hash_sound\<close>) whose witness instantiates it. Panics set \<open>crashed\<close>. Goroutines are step relations
  (\<open>pool_step\<close>, \<open>drain_step\<close>, \<open>sched_step\<close>, \<open>tx_step\<close>, \<open>conn_step\<close>,
  \<open>watch_step\<close>, \<open>consume_step\<close>, \<open>life_step\<close>) with invariants by rule induction;
  where one caller's view is wanted, an executable function is proved to follow the relation
  (\<open>pool_run\<close>, \<open>sched_ProcessMessages\<close>). Integers are 64-bit with \<open>wrap64\<close> or words where wrap-around
  matters.

  \<^bold>\<open>Theories and the code they model.\<close>
  \<^item> \<open>Go_Prelude\<close>, \<open>Go_Url\<close>, \<open>Go_Json\<close>: what is used of \<^verbatim>\<open>strings\<close>, \<^verbatim>\<open>strconv\<close>, \<^verbatim>\<open>net/url\<close>,
    \<^verbatim>\<open>encoding/json\<close>; the locale \<open>settings\<close> of keyed settings.
  \<^item> \<open>Sms_Domain\<close>: \<^verbatim>\<open>sms/domain\<close> (networks, messages, errors and their classification, results).
  \<^item> \<open>Circuit_Breaker\<close>, \<open>Rate_Limiter\<close>: \<^verbatim>\<open>common/circuitbreaker\<close>, \<^verbatim>\<open>common/ratelimit\<close>.
  \<^item> \<open>Http_Client\<close>, \<open>Prometheus_Metrics\<close>: \<^verbatim>\<open>common/httpclient\<close>, \<^verbatim>\<open>common/metrics\<close> (collectors and the
    operation of every method; the events of the other theories are calls of these methods).
  \<^item> \<open>Publisher\<close>, \<open>Consumer\<close>, \<open>Consumer_Session\<close>, \<open>Amqp_Connection\<close>: \<^verbatim>\<open>sms/adapters/rabbitmq\<close>; a session is
    the goroutine that drains one AMQP channel after the other. The locale
    \<open>queue_publisher\<close> states publication plans; the connection is a state machine with its reconnect
    handler.
  \<^item> \<open>Dynamic_Config\<close>, \<open>Token_Cache\<close>, \<open>Priority_Store\<close>: \<^verbatim>\<open>sms/adapters/redis\<close>.
    \<open>Config_Watch\<close>: hot reloading of the live configuration, from the writer through Redis, watcher and
    cache to the two clients (rate limiter and scheduler), which are instances of the locale \<open>watch_client\<close>.
  \<^item> \<open>Mno_Port\<close> (the locale \<open>mno_sender\<close> of \<^verbatim>\<open>ports.MNOSender\<close>), \<open>Smpp_Sender\<close>, \<open>Sdp_Sender\<close>,
    \<open>At_Sender\<close>, \<open>Mno_Factory\<close>: \<^verbatim>\<open>sms/adapters/mno\<close> and \<^verbatim>\<open>sms/service/router.go\<close>.
    \<open>At_Reporter\<close>: \<^verbatim>\<open>sms/adapters/httpapi\<close>.
  \<^item> \<open>Worker_Pool\<close>, \<open>Result_Handler\<close>, \<open>Processor\<close>, \<open>Transactional_Handler\<close>, \<open>Priority_Scheduler\<close>,
    \<open>Message_Router\<close>, \<open>At_Processor\<close>: \<^verbatim>\<open>sms/service\<close>. The locale \<open>worker_pool\<close> is the fan-out
    protocol that processor and transactional handler share. \<open>Scheduler_Lifecycle\<close>: the background goroutines
    of the scheduler from \<^verbatim>\<open>Start\<close> to \<^verbatim>\<open>Stop\<close>. \<open>Service_Stats\<close>: statistics of scheduler, handler, router and batch
    results, and the non-blocking queries of the rate limiter.
  \<^item> \<open>Health_Api\<close>, \<open>Http_Server\<close>: \<^verbatim>\<open>api\<close>, the probes, their server and its routes.
  \<^item> \<open>Config\<close>: \<^verbatim>\<open>config/config.go\<close>, the configuration as a function of the environment.
  \<^item> \<open>Sdp_Batching\<close>, \<open>Dlq_Migrator\<close>, \<open>Bootstrap\<close>: \<^verbatim>\<open>bootstrap/app.go\<close> (batching workers; the two
    migrators, instances of the locale \<open>migrator\<close>; construction and choice of the delivery path). \<open>Lifecycle\<close>: the goroutines
    of \<^verbatim>\<open>Start\<close>, the order of \<^verbatim>\<open>Shutdown\<close>, and \<^verbatim>\<open>cmd/gateway\<close>.

  \<^bold>\<open>What is shown.\<close> Deliveries are settled once, last, and acknowledged only after publication, on the
  single, the batching, and the routed path, and by the migrators; every message of a batch gets one
  result; senders make at most one request per send and report success only if the operator accepted;
  retries are bounded; credit channels, connections and pools keep their invariants; live configuration reaches its clients;
  consumers leak no channel; metrics use their collectors properly and follow the breakers; \<^verbatim>\<open>Stop\<close> returns;
  encodings round-trip.
  Theorems about behaviour that departs from the documentation (a breaker that trips on the first
  failure, a lock released twice, transactional deliveries acknowledged unpublished, stale weights,
  stranded waiters and deliveries, queues without workers, a connection that survives \<^verbatim>\<open>Close\<close>) state exactly when it happens. This theory
  holds the properties that span the whole gateway.

  \<^bold>\<open>Bounds and fuel.\<close> Loops are total functions with measures: token fetching makes at most ten
  attempts, in-process retries at most \<open>maxReportRetries + 1\<close>. Two functions read a list instead of
  running for ever: \<open>awaitCredit\<close> (what happens in the background while a caller waits for a credit) and
  the loops of batching workers and migrators (what arrives on their channel); when the list is used up
  they report that they still wait, and the theorems hold for every list.

  \<^bold>\<open>Not modelled.\<close> Log lines and \<^verbatim>\<open>common/logger\<close>, which hands every call to \<^verbatim>\<open>logrus\<close>; the inside of the
  libraries (Prometheus client, router, \<^verbatim>\<open>net/http\<close> with its pools and time-outs), which are parameters;
  mocks and tests.
\<close>

section \<open>No message of an acknowledged delivery is lost\<close>

lemma expire_spec_cases:
  assumes "r \<in> set (batch_all b)"
  obtains "r \<in> set (Successful (expire_spec h b))" | "r \<in> set (Retryable (expire_spec h b))"
  | r' where "r' \<in> set (Failed (expire_spec h b))" and "core (rMessage r') = core (rMessage r)"
  using assms by (force simp: batch_all_def expire_spec_def)

lemma core_wire: "core (wire m) = wire (core m)"
  by (simp add: core_def wire_def)

text \<open>Where a result of a batch is found in its publication plan.\<close>

lemma plan_holds_result:
  assumes "r \<in> set (batch_all b)"
  shows "\<exists>q m'. q \<in> {SaveToDBQueue p, TransactionalDelayQueue p, PromotionalDelayQueue p} \<and>
           m' \<in> set (queue_msgs q (results_plan p (expire_spec h b))) \<and> core m' = core (wire (rMessage r))"
proof -
  have wire: "core (wire m) = core (wire m')" if "core m = core m'" for m m'
    using that core_wire [of m] core_wire [of m'] by simp
  let ?plan = "results_plan p (expire_spec h b)"
  show ?thesis
  proof (cases rule: expire_spec_cases [OF assms, of h])
    case 1
    then have "wire (rMessage r) \<in> set (queue_msgs (SaveToDBQueue p) ?plan)" by (simp add: results_plan_def)
    then show ?thesis by blast
  next
    case 2
    then have "wire (rMessage r) \<in> set (queue_msgs (if IsPromotional (rMessage r) (gatewayQueueName p)
        then PromotionalDelayQueue p else TransactionalDelayQueue p) ?plan)"
      by (auto simp: results_plan_def)
    then show ?thesis by (metis insertCI)
  next
    case (3 r')
    then have "wire (rMessage r') \<in> set (queue_msgs (SaveToDBQueue p) ?plan)" by (simp add: results_plan_def)
    with wire [OF 3(2)] show ?thesis by blast
  qed
qed

lemma answers_member:
  assumes "answers msgs c R" and "\<not> c" and "m \<in> set msgs"
  shows "\<exists>r. r \<in># R \<and> send_contract m r"
proof -
  from assms(1,2) obtain xs ys where "mset xs = mset msgs" "mset ys = R" "list_all2 send_contract xs ys"
    by (auto simp: answers_def rel_mset_def)
  with assms(3) show ?thesis
    by (metis in_set_conv_nth list_all2_conv_all_nth mset_eq_setD nth_mem set_mset_mset)
qed



section \<open>Retries end\<close>

text \<open>One round of the retry cycle: a message is processed in some batch, its result is among those that
  the result handler leaves retryable (and hence publishes to a delay queue), and the message is consumed
  again from a queue \<open>rq\<close>.\<close>

definition retry_round :: "result_handler \<Rightarrow> message \<Rightarrow> message \<Rightarrow> bool" where
  "retry_round h m m' \<longleftrightarrow>
     (\<exists>e ctx b b' w w' r rq. batch_wf b \<and> HandleBatchResults e h ctx b w = ((None, b'), w') \<and>
        send_contract m r \<and> r \<in> set (Retryable b') \<and>
        parseMessages (array_of [rMessage r]) rq = Some (Inr [m']))"

lemma retry_round_facts:
  assumes "limits_ok h" and "retry_round h m m'" and "maxRetries h m = Some l"
  shows "RetryCount m' = wrap64 (RetryCount m + 1)" and "RetryCount m' < l" and "maxRetries h m' = Some l"
    and "core (wire m') = core (wire m)"
proof -
  from assms(2) obtain b r rq where r: "batch_wf b" "send_contract m r" "r \<in> set (Retryable b)" "\<not> exhausted h r"
    "m' = rMessage r\<lparr>SourceQueue := rq\<rparr>"
    by (auto simp: retry_round_def HandleBatchResults_eq [OF assms(1)] expire_spec_def parseMessages_wire Let_def
        case_prod_beta)
  have ty: "rType r = ResultRetryable" using r(1,3) by (auto simp: batch_wf_def list_all_iff IsRetryable_def)
  note c = send_contract_core [OF r(2)]
  have mr: "maxRetries h (rMessage r) = Some l"
    using assms(3) core_fields [OF c] by (simp add: maxRetries_def IsTransactional_def)
  show "RetryCount m' = wrap64 (RetryCount m + 1)" using r(2) ty by (simp add: send_contract_def r(5))
  show "RetryCount m' < l" using r(4) mr by (simp add: exhausted_def r(5))
  show "maxRetries h m' = Some l" using mr by (simp add: maxRetries_def IsTransactional_def r(5))
  have "wire m' = wire (rMessage r)" by (simp add: wire_def r(5))
  then show "core (wire m') = core (wire m)" using c by (simp add: core_wire)
qed



section \<open>The lane of a retried message\<close>



end
